(* ===== verification/Prelude.thy ===== *)
theory Prelude
  imports Main "HOL-Library.Word" "HOL-Library.Sublist" "HOL-Library.Multiset"
begin

text \<open>
  Shared vocabulary of the leftysay development: the machine types of the Rust
  source, the lemma collections the component theories add to, and the generic
  facts on lists, suffixes and sums that several components use.
  \<^item> \<open>byte\<close>, \<open>u64\<close> and \<open>usize\<close> are the Rust integer types of
    \<^verbatim>\<open>src/main.rs\<close> (a 64-bit target is assumed for \<open>usize\<close>).
  \<^item> \<open>argv\<close> is the argument vector of a spawned process.
  \<^item> \<open>fs_inv_rules\<close> collects the lemmas that an operation of the cache
    store keeps the store's invariant; \<open>arg_simps\<close> the evaluation rules of the
    command-line rendering of options.
\<close>

type_synonym byte = "8 word"
type_synonym u64 = "64 word"
type_synonym usize = "64 word"
type_synonym argv = "string list"

named_theorems fs_inv_rules "operations of the cache store keep its invariant"
named_theorems arg_simps "rendering of renderer options as arguments"

subsection \<open>Rust's question-mark operator\<close>

text \<open>
  A fallible Rust call returns \<open>Result<T, E>\<close>; here it is \<open>'e + 'a\<close> with
  \<open>Inl\<close> the error. \<open>rbind m f\<close> is \<open>f(m?)\<close>: an error of \<open>m\<close> returns
  at once, a value is passed on.
\<close>

definition rbind :: "'e + 'a \<Rightarrow> ('a \<Rightarrow> 'e + 'b) \<Rightarrow> 'e + 'b" where
  "rbind m f = (case m of Inl e \<Rightarrow> Inl e | Inr a \<Rightarrow> f a)"

lemma rbind_simps [simp]:
  "rbind (Inl e) f = Inl e"
  "rbind (Inr a) f = f a"
  by (simp_all add: rbind_def)

lemma rbind_eq_Inr_iff [simp]:
  "rbind m f = Inr b \<longleftrightarrow> (\<exists>a. m = Inr a \<and> f a = Inr b)"
  by (cases m) auto

lemma rbind_eq_Inl_iff:
  "rbind m f = Inl e \<longleftrightarrow> m = Inl e \<or> (\<exists>a. m = Inr a \<and> f a = Inl e)"
  by (cases m) auto

subsection \<open>Suffixes of concatenations\<close>

text \<open>
  Two concatenations that agree end in suffixes of each other. With a set of
  strings none of which is a proper suffix of another, the last component of a
  concatenation is thus determined: this is what makes the cache key preimage
  unambiguous although its string fields carry no length prefix.
\<close>

lemma append_eq_suffix_cases:
  "xs @ s1 = ys @ s2 \<Longrightarrow> suffix s1 s2 \<or> suffix s2 s1"
  by (metis suffix_appendI suffix_order.order_refl suffix_same_cases)

definition suffix_free :: "'a list set \<Rightarrow> bool" where
  "suffix_free S \<longleftrightarrow> (\<forall>a\<in>S. \<forall>b\<in>S. suffix a b \<longrightarrow> a = b)"

lemma suffix_free_append_eq:
  assumes "suffix_free S" "a \<in> S" "b \<in> S" "xs @ a = ys @ b"
  shows "a = b \<and> xs = ys"
proof -
  from assms(4) have "suffix a b \<or> suffix b a" by (rule append_eq_suffix_cases)
  with assms(1-3) have "a = b" unfolding suffix_free_def by blast
  with assms(4) show ?thesis by simp
qed

lemma append_eq_same_length_suffix:
  "length s1 = length s2 \<Longrightarrow> xs @ s1 = ys @ s2 \<longleftrightarrow> xs = ys \<and> s1 = s2"
  by (simp add: append_eq_append_conv)

subsection \<open>Sums over sublists\<close>

lemma sum_list_map_filter_split:
  fixes f :: "'a \<Rightarrow> nat"
  shows "sum_list (map f xs) =
         sum_list (map f (filter P xs)) + sum_list (map f (filter (\<lambda>x. \<not> P x) xs))"
  by (induction xs) auto

lemma sum_list_remove1_nat:
  fixes f :: "'a \<Rightarrow> nat"
  shows "x \<in> set xs \<Longrightarrow> sum_list (map f (remove1 x xs)) = sum_list (map f xs) - f x"
  by (simp add: sum_list_map_remove1)

lemma sum_list_filter_not_in:
  fixes f :: "'a \<Rightarrow> nat"
  assumes "distinct xs" "distinct R" "set R \<subseteq> set xs"
  shows "sum_list (map f (filter (\<lambda>x. x \<notin> set R) xs)) = sum_list (map f xs) - sum_list (map f R)"
proof -
  have "sum_list (map f (filter (\<lambda>x. x \<notin> set R) xs)) = sum f (set xs - set R)"
    using assms(1) by (simp add: sum_list_distinct_conv_sum_set set_diff_eq)
  also have "\<dots> = sum f (set xs) - sum f (set R)"
    using assms(3) by (simp add: sum_diff_nat)
  finally show ?thesis
    using assms(1,2) by (simp add: sum_list_distinct_conv_sum_set)
qed

lemma sum_list_take_drop_nat:
  fixes f :: "'a \<Rightarrow> nat"
  shows "sum_list (map f xs) - sum_list (map f (take k xs)) = sum_list (map f (drop k xs))"
  by (metis add_diff_cancel_left' append_take_drop_id map_append sum_list_append)

subsection \<open>Sorted lists\<close>

lemma sum_list_map_sort_key:
  fixes f :: "'a \<Rightarrow> 'b::comm_monoid_add"
  shows "sum_list (map f (sort_key g xs)) = sum_list (map f xs)"
proof -
  have "mset (map f (sort_key g xs)) = mset (map f xs)"
    by (simp add: mset_sort)
  then show ?thesis by (metis sum_mset_sum_list)
qed

lemma sorted_key_take_drop_le:
  assumes "sorted (map f xs)" "x \<in> set (take k xs)" "y \<in> set (drop k xs)"
  shows "f x \<le> f y"
proof -
  have "sorted (map f (take k xs) @ map f (drop k xs))"
    using assms(1) by (metis append_take_drop_id map_append)
  with assms(2,3) show ?thesis by (auto simp: sorted_append)
qed

lemma sorted_key_max_not_in_take:
  assumes "sorted (map f xs)" "distinct xs" "x \<in> set xs"
    and "\<forall>y\<in>set xs. y \<noteq> x \<longrightarrow> f y < f x" "k < length xs"
  shows "x \<notin> set (take k xs)"
proof
  assume x: "x \<in> set (take k xs)"
  from assms(5) obtain y where y: "y \<in> set (drop k xs)"
    by (metis Cons_nth_drop_Suc list.set_intros(1))
  with x assms(2) have "y \<noteq> x"
    by (metis append_take_drop_id disjoint_iff distinct_append)
  moreover have "y \<in> set xs" using y by (rule in_set_dropD)
  moreover have "f x \<le> f y" using assms(1) x y by (rule sorted_key_take_drop_le)
  ultimately show False using assms(4) by fastforce
qed

end
