(* ===== verification/Cache_Store.thy ===== *)
theory Cache_Store
  imports Prelude
begin

text \<open>
  The disk cache of rendered images (\<^verbatim>\<open>src/main.rs\<close>: the cache branches of
  \<open>render_image\<close> and \<open>enforce_cache_limit\<close>). The cache directory is a list of
  directory entries in the order \<open>fs::read_dir\<close> lists them; a cache entry is a
  file whose name is the cache key. Every file-system call that can fail returns
  \<open>io_error + _\<close>. Which calls fail is decided by the state: a directory entry
  cannot be read or removed as a file, and the \<open>readable\<close>/\<open>writable\<close> flags
  stand for the permissions of the cache directory. The clock stamps every write
  with a modification time later than all earlier ones.
\<close>

section \<open>State\<close>

datatype io_error =
    ReadCacheDir    \<comment> \<open>\<open>fs::read_dir\<close> failed\<close>
  | ReadEntry       \<comment> \<open>\<open>fs::read_to_string\<close> failed\<close>
  | WriteEntry      \<comment> \<open>\<open>fs::write\<close> or \<open>File::create\<close> failed\<close>
  | CreateCacheDir  \<comment> \<open>\<open>fs::create_dir_all\<close> failed\<close>
  | RemoveEntry     \<comment> \<open>\<open>fs::remove_file\<close> failed\<close>

record dir_entry =
  ename :: string
  edata :: string
  esize :: nat
  emtime :: nat
  edir :: bool

record cache_fs =
  dir_exists :: bool
  files :: "dir_entry list"
  readable :: bool
  writable :: bool
  clock :: nat

definition dir_total :: "cache_fs \<Rightarrow> nat" where
  "dir_total fs = sum_list (map esize (files fs))"

definition cache_inv :: "cache_fs \<Rightarrow> bool" where
  "cache_inv fs \<longleftrightarrow>
     distinct (map ename (files fs))
   \<and> (\<forall>e\<in>set (files fs). \<not> edir e \<longrightarrow> esize e = length (edata e))
   \<and> (\<forall>e\<in>set (files fs). emtime e < clock fs)
   \<and> (\<not> dir_exists fs \<longrightarrow> files fs = [])"

section \<open>File-system calls\<close>

definition lookup_entry :: "string \<Rightarrow> cache_fs \<Rightarrow> dir_entry option" where
  "lookup_entry n fs = find (\<lambda>e. ename e = n) (files fs)"

definition path_exists :: "string \<Rightarrow> cache_fs \<Rightarrow> bool" where
  "path_exists n fs \<longleftrightarrow> lookup_entry n fs \<noteq> None"

definition read_to_string :: "string \<Rightarrow> cache_fs \<Rightarrow> io_error + string" where
  "read_to_string n fs =
     (case lookup_entry n fs of
        None \<Rightarrow> Inl ReadEntry
      | Some e \<Rightarrow> if edir e \<or> \<not> readable fs then Inl ReadEntry else Inr (edata e))"

definition write_file :: "string \<Rightarrow> string \<Rightarrow> cache_fs \<Rightarrow> io_error + cache_fs" where
  "write_file n d fs =
     (if \<not> dir_exists fs \<or> \<not> writable fs then Inl WriteEntry
      else case lookup_entry n fs of
        None \<Rightarrow> Inr (fs\<lparr>files := files fs @
                   [\<lparr>ename = n, edata = d, esize = length d, emtime = clock fs, edir = False\<rparr>],
                   clock := Suc (clock fs)\<rparr>)
      | Some e \<Rightarrow>
          if edir e then Inl WriteEntry
          else Inr (fs\<lparr>files := map (\<lambda>x. if ename x = n
                         then x\<lparr>edata := d, esize := length d, emtime := clock fs\<rparr> else x) (files fs),
                       clock := Suc (clock fs)\<rparr>))"

definition create_dir_all :: "cache_fs \<Rightarrow> io_error + cache_fs" where
  "create_dir_all fs =
     (if dir_exists fs then Inr fs
      else if writable fs then Inr (fs\<lparr>dir_exists := True, files := []\<rparr>)
      else Inl CreateCacheDir)"

definition removable :: "cache_fs \<Rightarrow> dir_entry \<Rightarrow> bool" where
  "removable fs e \<longleftrightarrow> \<not> edir e \<and> writable fs"

definition remove_file :: "string \<Rightarrow> cache_fs \<Rightarrow> io_error + cache_fs" where
  "remove_file n fs =
     (case lookup_entry n fs of
        None \<Rightarrow> Inl RemoveEntry
      | Some e \<Rightarrow> if removable fs e then Inr (fs\<lparr>files := filter (\<lambda>x. ename x \<noteq> n) (files fs)\<rparr>)
                  else Inl RemoveEntry)"

section \<open>Cache operations\<close>

text \<open>
  The hit branch of \<open>render_image\<close>: read the entry, rewrite it unchanged to
  refresh its modification time, return the contents. \<open>None\<close> is a miss.
\<close>

definition cache_lookup :: "string \<Rightarrow> cache_fs \<Rightarrow> io_error + string option \<times> cache_fs" where
  "cache_lookup n fs =
     (if path_exists n fs then
        rbind (read_to_string n fs) (\<lambda>c.
        rbind (write_file n c fs) (\<lambda>fs'. Inr (Some c, fs')))
      else Inr (None, fs))"

text \<open>The store branch: create the directory, then create and write the file.\<close>

definition cache_store :: "string \<Rightarrow> string \<Rightarrow> cache_fs \<Rightarrow> io_error + cache_fs" where
  "cache_store n out fs = rbind (create_dir_all fs) (write_file n out)"

text \<open>
  The eviction loop of \<open>enforce_cache_limit\<close>: stop once the running total is
  within the budget; otherwise try to remove the next entry, and subtract its size
  (saturating) only when the removal succeeded.
\<close>

fun evict :: "nat \<Rightarrow> dir_entry list \<Rightarrow> nat \<times> cache_fs \<Rightarrow> nat \<times> cache_fs" where
  "evict max_bytes [] st = st"
| "evict max_bytes (e # es) (total_size, fs) =
     (if total_size \<le> max_bytes then (total_size, fs)
      else case remove_file (ename e) fs of
             Inl _ \<Rightarrow> evict max_bytes es (total_size, fs)
           | Inr fs' \<Rightarrow> evict max_bytes es (total_size - esize e, fs'))"

definition enforce_cache_limit :: "u64 \<Rightarrow> cache_fs \<Rightarrow> io_error + cache_fs" where
  "enforce_cache_limit max_bytes fs =
     (if \<not> dir_exists fs then Inr fs
      else if \<not> readable fs then Inl ReadCacheDir
      else let entries = files fs; total_size = sum_list (map esize entries) in
        if total_size \<le> unat max_bytes then Inr fs
        else Inr (snd (evict (unat max_bytes) (sort_key emtime entries) (total_size, fs))))"

text \<open>The directory holds an entry \<open>n\<close> with contents \<open>out\<close> that a lookup
  can read and touch.\<close>

definition holds_entry :: "string \<Rightarrow> string \<Rightarrow> cache_fs \<Rightarrow> bool" where
  "holds_entry n out fs \<longleftrightarrow>
     (case lookup_entry n fs of Some e \<Rightarrow> edata e = out \<and> \<not> edir e | None \<Rightarrow> False)
     \<and> cache_inv fs \<and> readable fs \<and> writable fs"

section \<open>A concrete cache directory\<close>

text \<open>
  Three files, nine bytes in all, written at times 3, 1 and 2 and listed in that
  order; the witnesses below run the operations on it.
\<close>

definition demo_cache :: cache_fs where
  "demo_cache =
     \<lparr>dir_exists = True,
      files = [\<lparr>ename = ''a.txt'', edata = ''aaaa'', esize = 4, emtime = 3, edir = False\<rparr>,
               \<lparr>ename = ''b.txt'', edata = ''bb'', esize = 2, emtime = 1, edir = False\<rparr>,
               \<lparr>ename = ''c.txt'', edata = ''ccc'', esize = 3, emtime = 2, edir = False\<rparr>],
      readable = True, writable = True, clock = 4\<rparr>"

abbreviation demo_trimmed :: cache_fs where
  "demo_trimmed \<equiv> demo_cache\<lparr>files := [hd (files demo_cache)]\<rparr>"

abbreviation demo_touched :: cache_fs where
  "demo_touched \<equiv> demo_cache\<lparr>files := [hd (files demo_cache),
      \<lparr>ename = ''b.txt'', edata = ''bb'', esize = 2, emtime = 4, edir = False\<rparr>,
      files demo_cache ! 2], clock := 5\<rparr>"

section \<open>Lookup by name in a directory with distinct names\<close>

lemma find_ename_Some_iff:
  "distinct (map ename xs) \<Longrightarrow>
     find (\<lambda>e. ename e = n) xs = Some e \<longleftrightarrow> e \<in> set xs \<and> ename e = n"
  by (induction xs) (auto simp: image_iff)

lemma lookup_entry_Some_iff:
  "distinct (map ename (files fs)) \<Longrightarrow>
     lookup_entry n fs = Some e \<longleftrightarrow> e \<in> set (files fs) \<and> ename e = n"
  unfolding lookup_entry_def by (rule find_ename_Some_iff)

lemma lookup_entry_None_iff:
  "lookup_entry n fs = None \<longleftrightarrow> n \<notin> ename ` set (files fs)"
  by (auto simp: lookup_entry_def find_None_iff)

lemma filter_ename_neq:
  assumes "distinct (map ename xs)" "e \<in> set xs"
  shows "filter (\<lambda>x. ename x \<noteq> ename e) xs = filter (\<lambda>x. x \<noteq> e) xs"
proof (rule filter_cong [OF refl])
  fix x assume "x \<in> set xs"
  with assms show "(ename x \<noteq> ename e) = (x \<noteq> e)"
    by (auto dest: inj_onD [OF distinct_map [THEN iffD1, THEN conjunct2, OF assms(1)]])
qed

lemma removable_files_update [simp]:
  "removable (fs\<lparr>files := xs\<rparr>) = removable fs"
  by (simp add: removable_def fun_eq_iff)

lemma remove_file_present:
  assumes "distinct (map ename (files fs))" "e \<in> set (files fs)"
  shows "remove_file (ename e) fs =
           (if removable fs e then Inr (fs\<lparr>files := filter (\<lambda>x. x \<noteq> e) (files fs)\<rparr>)
            else Inl RemoveEntry)"
proof -
  from assms have "lookup_entry (ename e) fs = Some e"
    by (simp add: lookup_entry_Some_iff)
  with assms show ?thesis by (simp add: remove_file_def filter_ename_neq)
qed

section \<open>The eviction loop in closed form\<close>

text \<open>
  Over a list of distinct entries of the directory, the loop visits a prefix of
  length \<open>k\<close>: it removes exactly the removable entries of that prefix, every
  running total before the stop is over the budget, and it stops early only with a
  total within the budget.
\<close>

abbreviation evicted :: "cache_fs \<Rightarrow> nat \<Rightarrow> dir_entry list \<Rightarrow> dir_entry list" where
  "evicted fs k es \<equiv> filter (removable fs) (take k es)"

lemma evict_closed_form:
  assumes "distinct (map ename (files fs))" "distinct es" "set es \<subseteq> set (files fs)"
  shows "\<exists>k\<le>length es.
     evict m es (t, fs) =
       (t - sum_list (map esize (evicted fs k es)),
        fs\<lparr>files := filter (\<lambda>x. x \<notin> set (evicted fs k es)) (files fs)\<rparr>)
   \<and> (\<forall>j<k. m < t - sum_list (map esize (evicted fs j es)))
   \<and> (k < length es \<longrightarrow> t - sum_list (map esize (evicted fs k es)) \<le> m)"
  using assms
proof (induction es arbitrary: t fs)
  case Nil
  show ?case by simp
next
  case (Cons e es)
  have e: "e \<in> set (files fs)" and es: "set es \<subseteq> set (files fs)" and "e \<notin> set es"
    using Cons.prems by auto
  show ?case
  proof (cases "t \<le> m")
    case True
    then show ?thesis by (intro exI [of _ 0]) simp
  next
    case over: False
    show ?thesis
    proof (cases "removable fs e")
      case True
      let ?fs1 = "fs\<lparr>files := filter (\<lambda>x. x \<noteq> e) (files fs)\<rparr>"
      have "distinct (map ename (files ?fs1))" "set es \<subseteq> set (files ?fs1)"
        using Cons.prems \<open>e \<notin> set es\<close> by (auto simp: distinct_map_filter)
      from Cons.IH [OF this(1) _ this(2), where t = "t - esize e"] Cons.prems obtain k where
        k: "k \<le> length es"
           "evict m es (t - esize e, ?fs1) =
              (t - esize e - sum_list (map esize (evicted ?fs1 k es)),
               ?fs1\<lparr>files := filter (\<lambda>x. x \<notin> set (evicted ?fs1 k es)) (files ?fs1)\<rparr>)"
           "\<forall>j<k. m < t - esize e - sum_list (map esize (evicted ?fs1 j es))"
           "k < length es \<longrightarrow> t - esize e - sum_list (map esize (evicted ?fs1 k es)) \<le> m"
        by auto
      show ?thesis
      proof (intro exI [of _ "Suc k"] conjI allI impI)
        show "Suc k \<le> length (e # es)" using k(1) by simp
        show "evict m (e # es) (t, fs) =
          (t - sum_list (map esize (evicted fs (Suc k) (e # es))),
           fs\<lparr>files := filter (\<lambda>x. x \<notin> set (evicted fs (Suc k) (e # es))) (files fs)\<rparr>)"
          using over True k(2) Cons.prems(1) e by (simp add: remove_file_present conj_commute)
      next
        fix j assume "j < Suc k"
        then show "m < t - sum_list (map esize (evicted fs j (e # es)))"
          using over True k(3) by (cases j) auto
      next
        assume "Suc k < length (e # es)"
        then show "t - sum_list (map esize (evicted fs (Suc k) (e # es))) \<le> m"
          using True k(4) by simp
      qed
    next
      case False
      from Cons.IH [OF Cons.prems(1) _ es, where t = t] Cons.prems obtain k where
        k: "k \<le> length es"
           "evict m es (t, fs) =
              (t - sum_list (map esize (evicted fs k es)),
               fs\<lparr>files := filter (\<lambda>x. x \<notin> set (evicted fs k es)) (files fs)\<rparr>)"
           "\<forall>j<k. m < t - sum_list (map esize (evicted fs j es))"
           "k < length es \<longrightarrow> t - sum_list (map esize (evicted fs k es)) \<le> m"
        by auto
      show ?thesis
      proof (intro exI [of _ "Suc k"] conjI allI impI)
        show "Suc k \<le> length (e # es)" using k(1) by simp
        show "evict m (e # es) (t, fs) =
          (t - sum_list (map esize (evicted fs (Suc k) (e # es))),
           fs\<lparr>files := filter (\<lambda>x. x \<notin> set (evicted fs (Suc k) (e # es))) (files fs)\<rparr>)"
          using over False k(2) Cons.prems(1) e by (simp add: remove_file_present)
      next
        fix j assume "j < Suc k"
        then show "m < t - sum_list (map esize (evicted fs j (e # es)))"
          using over False k(3) by (cases j) auto
      next
        assume "Suc k < length (e # es)"
        then show "t - sum_list (map esize (evicted fs (Suc k) (e # es))) \<le> m"
          using False k(4) by simp
      qed
    qed
  qed
qed

section \<open>Eviction: what enforce\_cache\_limit leaves behind\<close>

abbreviation age_order :: "cache_fs \<Rightarrow> dir_entry list" where
  "age_order fs \<equiv> sort_key emtime (files fs)"

lemma cache_inv_distinct:
  "cache_inv fs \<Longrightarrow> distinct (files fs)"
  by (simp add: cache_inv_def distinct_map)

lemma distinct_evicted:
  "distinct es \<Longrightarrow> distinct (evicted fs k es)"
  by simp

lemma set_evicted_age_order:
  "set (evicted fs k (age_order fs)) \<subseteq> set (files fs)"
  by (auto dest: in_set_takeD)

lemma dir_total_evicted:
  assumes "cache_inv fs"
  shows "sum_list (map esize (filter (\<lambda>x. x \<notin> set (evicted fs k (age_order fs))) (files fs)))
           = dir_total fs - sum_list (map esize (evicted fs k (age_order fs)))"
  using assms unfolding dir_total_def
  by (intro sum_list_filter_not_in)
     (auto simp: cache_inv_distinct distinct_sort dest: in_set_takeD)

text \<open>
  Every successful run of \<open>enforce_cache_limit\<close> is the eviction loop run over
  a prefix of the entries sorted by age; this covers the two early returns too
  (no cache directory, total already within the budget) with an empty prefix.
\<close>

lemma enforce_cache_limit_Inr:
  assumes "cache_inv fs" "enforce_cache_limit max_bytes fs = Inr fs'"
  shows "\<exists>k\<le>length (age_order fs).
     fs' = fs\<lparr>files := filter (\<lambda>x. x \<notin> set (evicted fs k (age_order fs))) (files fs)\<rparr>
   \<and> (\<forall>j<k. unat max_bytes < dir_total fs - sum_list (map esize (evicted fs j (age_order fs))))
   \<and> (k < length (age_order fs) \<longrightarrow>
        dir_total fs - sum_list (map esize (evicted fs k (age_order fs))) \<le> unat max_bytes)"
proof (cases "dir_exists fs \<and> readable fs \<and> \<not> dir_total fs \<le> unat max_bytes")
  case True
  have "distinct (map ename (files fs))" "distinct (age_order fs)"
       "set (age_order fs) \<subseteq> set (files fs)"
    using assms(1) by (auto simp: cache_inv_def distinct_sort distinct_map)
  from evict_closed_form [OF this, where m = "unat max_bytes" and t = "dir_total fs"]
  obtain k where "k \<le> length (age_order fs)"
    "evict (unat max_bytes) (age_order fs) (dir_total fs, fs) =
       (dir_total fs - sum_list (map esize (evicted fs k (age_order fs))),
        fs\<lparr>files := filter (\<lambda>x. x \<notin> set (evicted fs k (age_order fs))) (files fs)\<rparr>)"
    "\<forall>j<k. unat max_bytes < dir_total fs - sum_list (map esize (evicted fs j (age_order fs)))"
    "k < length (age_order fs) \<longrightarrow>
       dir_total fs - sum_list (map esize (evicted fs k (age_order fs))) \<le> unat max_bytes"
    by blast
  with True assms(2) show ?thesis
    by (intro exI [of _ k]) (auto simp: enforce_cache_limit_def dir_total_def Let_def)
next
  case False
  with assms have "fs' = fs" "\<not> dir_exists fs \<longrightarrow> files fs = []"
    by (auto simp: enforce_cache_limit_def cache_inv_def dir_total_def Let_def split: if_splits)
  with False assms(2) show ?thesis
    by (intro exI [of _ 0]) (auto simp: enforce_cache_limit_def dir_total_def split: if_splits)
qed

lemma evicted_all_removable:
  "\<forall>e\<in>set es. removable fs e \<Longrightarrow> evicted fs k es = take k es"
  by (auto intro: filter_True dest: in_set_takeD)

lemma survivor_in_drop:
  assumes "s \<in> set (files fs)" "s \<notin> set (evicted fs k (age_order fs))" "removable fs s"
  shows "s \<in> set (drop k (age_order fs))"
proof -
  have "s \<in> set (age_order fs)" using assms(1) by simp
  then have "s \<in> set (take k (age_order fs)) \<or> s \<in> set (drop k (age_order fs))"
    by (metis Un_iff append_take_drop_id set_append)
  with assms(2,3) show ?thesis by auto
qed

lemma enforce_total_or_stuck:
  assumes "cache_inv fs" "enforce_cache_limit max_bytes fs = Inr fs'"
  shows "dir_total fs' \<le> unat max_bytes \<or> (\<forall>e\<in>set (files fs'). \<not> removable fs' e)"
proof -
  from enforce_cache_limit_Inr [OF assms] obtain k where k:
    "k \<le> length (age_order fs)"
    "fs' = fs\<lparr>files := filter (\<lambda>x. x \<notin> set (evicted fs k (age_order fs))) (files fs)\<rparr>"
    "k < length (age_order fs) \<longrightarrow>
       dir_total fs - sum_list (map esize (evicted fs k (age_order fs))) \<le> unat max_bytes"
    by blast
  show ?thesis
  proof (cases "k < length (age_order fs)")
    case True
    from k(2) have "dir_total fs' =
        sum_list (map esize (filter (\<lambda>x. x \<notin> set (evicted fs k (age_order fs))) (files fs)))"
      by (simp add: dir_total_def del: set_filter)
    also have "\<dots> = dir_total fs - sum_list (map esize (evicted fs k (age_order fs)))"
      using assms(1) by (rule dir_total_evicted)
    finally show ?thesis using True k(3) by simp
  next
    case False
    with k(1) have "take k (age_order fs) = age_order fs" by simp
    with k(2) show ?thesis by auto
  qed
qed

text \<open>C1: after eviction the cache is within its byte budget, or no entry that is
  left can be removed (a directory entry, or a directory that refuses removals).\<close>

theorem enforce_within_budget:
  assumes "cache_inv fs" "enforce_cache_limit max_bytes fs = Inr fs'"
  shows "dir_total fs' \<le> unat max_bytes \<or> (\<forall>e\<in>set (files fs'). \<not> removable fs' e)"
  using enforce_total_or_stuck [OF assms] .

text \<open>C19: eviction goes oldest first: every removed entry is at least as old as
  every removable entry that survives.\<close>

theorem enforce_evicts_oldest_first:
  assumes "cache_inv fs" "enforce_cache_limit max_bytes fs = Inr fs'"
    and "r \<in> set (files fs)" "r \<notin> set (files fs')"
    and "s \<in> set (files fs')" "removable fs s"
  shows "emtime r \<le> emtime s"
proof -
  from enforce_cache_limit_Inr [OF assms(1,2)] obtain k where k:
    "fs' = fs\<lparr>files := filter (\<lambda>x. x \<notin> set (evicted fs k (age_order fs))) (files fs)\<rparr>"
    by blast
  with assms(3,4) have "r \<in> set (take k (age_order fs))" by auto
  moreover from k assms(5,6) have "s \<in> set (drop k (age_order fs))"
    by (auto intro: survivor_in_drop)
  ultimately show ?thesis
    by (rule sorted_key_take_drop_le [OF sorted_sort_key])
qed

text \<open>C5: when every entry can be removed, eviction refines least-recently-used
  trimming: it deletes the shortest prefix of the entries in order of age whose
  removal brings the total within the budget, and keeps the rest in directory order.\<close>

theorem enforce_refines_lru:
  assumes "cache_inv fs" "enforce_cache_limit max_bytes fs = Inr fs'"
    and "\<forall>e\<in>set (files fs). removable fs e"
  shows "\<exists>k. files fs' = filter (\<lambda>x. x \<notin> set (take k (age_order fs))) (files fs)
            \<and> sum_list (map esize (drop k (age_order fs))) \<le> unat max_bytes
            \<and> (\<forall>j<k. unat max_bytes < sum_list (map esize (drop j (age_order fs))))"
proof -
  have all: "\<forall>e\<in>set (age_order fs). removable fs e" using assms(3) by simp
  from enforce_cache_limit_Inr [OF assms(1,2)] obtain k where k:
    "k \<le> length (age_order fs)"
    "fs' = fs\<lparr>files := filter (\<lambda>x. x \<notin> set (evicted fs k (age_order fs))) (files fs)\<rparr>"
    "\<forall>j<k. unat max_bytes < dir_total fs - sum_list (map esize (evicted fs j (age_order fs)))"
    "k < length (age_order fs) \<longrightarrow>
       dir_total fs - sum_list (map esize (evicted fs k (age_order fs))) \<le> unat max_bytes"
    by blast
  have total: "dir_total fs = sum_list (map esize (age_order fs))"
    by (simp add: dir_total_def sum_list_map_sort_key)
  have drop: "dir_total fs - sum_list (map esize (take j (age_order fs)))
                = sum_list (map esize (drop j (age_order fs)))" for j
    unfolding total by (rule sum_list_take_drop_nat)
  show ?thesis
  proof (intro exI [of _ k] conjI)
    show "files fs' = filter (\<lambda>x. x \<notin> set (take k (age_order fs))) (files fs)"
      using k(2) by (simp add: evicted_all_removable [OF all])
    show "sum_list (map esize (drop k (age_order fs))) \<le> unat max_bytes"
      using k(1,4) by (cases "k < length (age_order fs)")
        (simp_all add: evicted_all_removable [OF all] drop)
    show "\<forall>j<k. unat max_bytes < sum_list (map esize (drop j (age_order fs)))"
      using k(3) by (simp add: evicted_all_removable [OF all] drop)
  qed
qed

section \<open>The invariant is kept by every operation\<close>

lemma create_dir_all_inv [fs_inv_rules]:
  "cache_inv fs \<Longrightarrow> create_dir_all fs = Inr fs' \<Longrightarrow> cache_inv fs'"
  by (auto simp: create_dir_all_def cache_inv_def split: if_splits)

lemma write_file_inv [fs_inv_rules]:
  assumes inv: "cache_inv fs" and w: "write_file n d fs = Inr fs'"
  shows "cache_inv fs'"
proof (cases "lookup_entry n fs")
  case None
  let ?new = "\<lparr>ename = n, edata = d, esize = length d, emtime = clock fs, edir = False\<rparr>"
  from w None have fs': "fs' = fs\<lparr>files := files fs @ [?new], clock := Suc (clock fs)\<rparr>"
    and ex: "dir_exists fs"
    by (simp_all add: write_file_def split: if_splits)
  from None have "n \<notin> ename ` set (files fs)" by (simp add: lookup_entry_None_iff)
  with inv ex show ?thesis
    unfolding fs' cache_inv_def by (auto intro: less_SucI)
next
  case (Some e)
  let ?upd = "\<lambda>x. if ename x = n then x\<lparr>edata := d, esize := length d, emtime := clock fs\<rparr> else x"
  from w Some have fs': "fs' = fs\<lparr>files := map ?upd (files fs), clock := Suc (clock fs)\<rparr>"
    and ex: "dir_exists fs"
    by (simp_all add: write_file_def split: if_splits)
  have names: "map ename (map ?upd (files fs)) = map ename (files fs)"
    by (induction "files fs") auto
  have files': "files fs' = map ?upd (files fs)" and clock': "clock fs' = Suc (clock fs)"
    and ex': "dir_exists fs'"
    using fs' ex by simp_all
  have "distinct (map ename (files fs'))"
    using inv names unfolding files' cache_inv_def by (simp del: map_map)
  moreover have "\<forall>x\<in>set (files fs'). \<not> edir x \<longrightarrow> esize x = length (edata x)"
    using inv unfolding files' by (auto simp: cache_inv_def)
  moreover have "\<forall>x\<in>set (files fs'). emtime x < clock fs'"
    using inv unfolding files' clock' by (auto simp: cache_inv_def less_SucI)
  ultimately show ?thesis
    using ex' by (simp add: cache_inv_def)
qed

lemma remove_file_inv [fs_inv_rules]:
  "cache_inv fs \<Longrightarrow> remove_file n fs = Inr fs' \<Longrightarrow> cache_inv fs'"
  by (auto simp: remove_file_def cache_inv_def distinct_map_filter
           split: option.splits if_splits)

lemma enforce_cache_limit_inv [fs_inv_rules]:
  assumes "cache_inv fs" "enforce_cache_limit max_bytes fs = Inr fs'"
  shows "cache_inv fs'"
proof -
  from enforce_cache_limit_Inr [OF assms] obtain k where
    "fs' = fs\<lparr>files := filter (\<lambda>x. x \<notin> set (evicted fs k (age_order fs))) (files fs)\<rparr>"
    by blast
  with assms(1) show ?thesis
    by (auto simp: cache_inv_def distinct_map_filter)
qed

lemma cache_lookup_inv [fs_inv_rules]:
  "cache_inv fs \<Longrightarrow> cache_lookup n fs = Inr (r, fs') \<Longrightarrow> cache_inv fs'"
  by (auto simp: cache_lookup_def intro: write_file_inv split: if_splits)

lemma cache_store_inv [fs_inv_rules]:
  "cache_inv fs \<Longrightarrow> cache_store n out fs = Inr fs' \<Longrightarrow> cache_inv fs'"
  by (auto simp: cache_store_def intro: write_file_inv create_dir_all_inv)

section \<open>Lookup and store\<close>

lemma cache_lookup_miss:
  "\<not> path_exists n fs \<Longrightarrow> cache_lookup n fs = Inr (None, fs)"
  by (simp add: cache_lookup_def)

lemma write_file_lookup:
  assumes inv: "cache_inv fs" and w: "write_file n d fs = Inr fs'"
  shows "\<exists>e'. lookup_entry n fs' = Some e' \<and> edata e' = d \<and> emtime e' = clock fs
              \<and> \<not> edir e' \<and> clock fs' = Suc (clock fs)"
proof -
  have inv': "cache_inv fs'" using inv w by (rule write_file_inv)
  then have names': "distinct (map ename (files fs'))" by (simp add: cache_inv_def)
  show ?thesis
  proof (cases "lookup_entry n fs")
    case None
    let ?new = "\<lparr>ename = n, edata = d, esize = length d, emtime = clock fs, edir = False\<rparr>"
    from w None have "fs' = fs\<lparr>files := files fs @ [?new], clock := Suc (clock fs)\<rparr>"
      by (simp add: write_file_def split: if_splits)
    then have "?new \<in> set (files fs')" "clock fs' = Suc (clock fs)" by simp_all
    with names' show ?thesis
      by (intro exI [of _ ?new]) (simp add: lookup_entry_Some_iff)
  next
    case (Some e)
    let ?e' = "e\<lparr>edata := d, esize := length d, emtime := clock fs\<rparr>"
    from inv Some have e: "e \<in> set (files fs)" "ename e = n"
      by (auto simp: lookup_entry_Some_iff cache_inv_def)
    from w Some have "fs' = fs\<lparr>files := map (\<lambda>x. if ename x = n
          then x\<lparr>edata := d, esize := length d, emtime := clock fs\<rparr> else x) (files fs),
          clock := Suc (clock fs)\<rparr>" and "\<not> edir e"
      by (simp_all add: write_file_def split: if_splits)
    then have "?e' \<in> set (files fs')" "clock fs' = Suc (clock fs)"
      using e by (auto intro: image_eqI [of _ _ e])
    with names' e \<open>\<not> edir e\<close> show ?thesis
      by (intro exI [of _ ?e']) (simp add: lookup_entry_Some_iff)
  qed
qed

lemma write_file_frame:
  "write_file n d fs = Inr fs' \<Longrightarrow>
     dir_exists fs \<and> writable fs \<and> dir_exists fs' = dir_exists fs \<and>
     readable fs' = readable fs \<and> writable fs' = writable fs"
  by (auto simp: write_file_def split: if_splits option.splits)

lemma write_file_others:
  assumes "write_file n d fs = Inr fs'" "x \<in> set (files fs')" "ename x \<noteq> n"
  shows "x \<in> set (files fs)"
  using assms by (auto simp: write_file_def split: if_splits option.splits)

lemma create_dir_all_frame:
  "create_dir_all fs = Inr fs' \<Longrightarrow>
     readable fs' = readable fs \<and> writable fs' = writable fs \<and> clock fs' = clock fs"
  by (auto simp: create_dir_all_def split: if_splits)

lemma cache_lookup_hit:
  assumes "cache_inv fs" "lookup_entry n fs = Some e" "\<not> edir e" "readable fs" "writable fs"
  shows "\<exists>fs'. cache_lookup n fs = Inr (Some (edata e), fs')"
proof -
  from assms(1,2) have "dir_exists fs"
    by (auto simp: cache_inv_def lookup_entry_def dest: find_Some_iff [THEN iffD1])
  with assms show ?thesis
    by (simp add: cache_lookup_def path_exists_def read_to_string_def write_file_def)
qed

text \<open>A payload stored under a key is what the next lookup of that key
  returns.\<close>

theorem store_then_lookup:
  assumes "cache_inv fs" "cache_store n out fs = Inr fs'" "readable fs"
  shows "\<exists>fs''. cache_lookup n fs' = Inr (Some out, fs'')"
proof -
  from assms(2) obtain fs1 where c: "create_dir_all fs = Inr fs1" and w: "write_file n out fs1 = Inr fs'"
    by (auto simp: cache_store_def)
  have inv1: "cache_inv fs1" using assms(1) c by (rule create_dir_all_inv)
  from write_file_lookup [OF inv1 w] obtain e' where
    e': "lookup_entry n fs' = Some e'" "edata e' = out" "\<not> edir e'" by blast
  have "cache_inv fs'" using inv1 w by (rule write_file_inv)
  moreover have "readable fs'" "writable fs'"
    using write_file_frame [OF w] create_dir_all_frame [OF c] assms(3) by simp_all
  ultimately show ?thesis using cache_lookup_hit e' by metis
qed

text \<open>A cache hit returns the stored contents unchanged and makes the entry
  the most recently modified one (the touch used as the recency signal).\<close>

theorem lookup_hit_touches:
  assumes "cache_inv fs" "cache_lookup n fs = Inr (Some c, fs')"
  shows "\<exists>e e'. lookup_entry n fs = Some e \<and> edata e = c \<and>
            lookup_entry n fs' = Some e' \<and> edata e' = c \<and>
            (\<forall>x\<in>set (files fs'). x \<noteq> e' \<longrightarrow> emtime x < emtime e')"
proof -
  from assms(2) obtain e where e: "lookup_entry n fs = Some e" "edata e = c"
    and w: "write_file n c fs = Inr fs'"
    by (auto simp: cache_lookup_def read_to_string_def path_exists_def
             split: if_splits option.splits)
  from write_file_lookup [OF assms(1) w] obtain e' where
    e': "lookup_entry n fs' = Some e'" "edata e' = c" "emtime e' = clock fs" by blast
  have inv': "cache_inv fs'" using assms(1) w by (rule write_file_inv)
  have "emtime x < emtime e'" if "x \<in> set (files fs')" "x \<noteq> e'" for x
  proof -
    from inv' e' that have "ename x \<noteq> n"
      by (auto simp: lookup_entry_Some_iff cache_inv_def dest: inj_onD [OF distinct_map [THEN iffD1, THEN conjunct2]])
    with w that(1) have "x \<in> set (files fs)" by (rule write_file_others)
    with assms(1) e'(3) show ?thesis by (simp add: cache_inv_def)
  qed
  with e e' show ?thesis by blast
qed

lemma fresh_entry_survives_enforce:
  assumes inv0: "cache_inv fs0" and w: "write_file n out fs0 = Inr fs1"
    and en: "enforce_cache_limit max_bytes fs1 = Inr fs2"
    and fits: "length out \<le> unat max_bytes" and rm: "\<forall>e\<in>set (files fs1). removable fs1 e"
  shows "\<exists>e'. lookup_entry n fs2 = Some e' \<and> edata e' = out \<and> \<not> edir e' \<and> cache_inv fs2 \<and>
              readable fs2 = readable fs0 \<and> writable fs2 = writable fs0"
proof -
  have inv1: "cache_inv fs1" using inv0 w by (rule write_file_inv)
  from write_file_lookup [OF inv0 w] obtain e' where e':
    "lookup_entry n fs1 = Some e'" "edata e' = out" "emtime e' = clock fs0" "\<not> edir e'" by blast
  from inv1 e'(1) have e'_in: "e' \<in> set (files fs1)" "ename e' = n"
    by (auto simp: lookup_entry_Some_iff cache_inv_def)
  have newest: "\<forall>y\<in>set (age_order fs1). y \<noteq> e' \<longrightarrow> emtime y < emtime e'"
  proof (intro ballI impI)
    fix y assume "y \<in> set (age_order fs1)" "y \<noteq> e'"
    with inv1 e'_in have "y \<in> set (files fs1)" "ename y \<noteq> n"
      by (auto simp: cache_inv_def dest: inj_onD [OF distinct_map [THEN iffD1, THEN conjunct2]])
    with w have "y \<in> set (files fs0)" by (blast intro: write_file_others)
    with inv0 e'(3) show "emtime y < emtime e'" by (simp add: cache_inv_def)
  qed
  have sorted: "sorted (map emtime (age_order fs1))" by (rule sorted_sort_key)
  have dist: "distinct (age_order fs1)" using inv1 by (simp add: distinct_sort cache_inv_distinct)
  have e'_S: "e' \<in> set (age_order fs1)" using e'_in by simp
  have all: "\<forall>e\<in>set (age_order fs1). removable fs1 e" using rm by simp
  from enforce_cache_limit_Inr [OF inv1 en] obtain k where k:
    "k \<le> length (age_order fs1)"
    "fs2 = fs1\<lparr>files := filter (\<lambda>x. x \<notin> set (evicted fs1 k (age_order fs1))) (files fs1)\<rparr>"
    "\<forall>j<k. unat max_bytes < dir_total fs1 - sum_list (map esize (evicted fs1 j (age_order fs1)))"
    by blast
  let ?L = "length (age_order fs1)"
  have "e' \<notin> set (take k (age_order fs1))"
  proof
    assume in_take: "e' \<in> set (take k (age_order fs1))"
    have "k = ?L"
    proof (rule ccontr)
      assume "k \<noteq> ?L"
      with k(1) have "k < ?L" by simp
      from sorted_key_max_not_in_take [OF sorted dist e'_S newest this] in_take
      show False by simp
    qed
    have L: "?L - 1 < ?L" using e'_S by (cases "age_order fs1") auto
    have "e' \<notin> set (take (?L - 1) (age_order fs1))"
      by (rule sorted_key_max_not_in_take [OF sorted dist e'_S newest L])
    then have "e' \<in> set (drop (?L - 1) (age_order fs1))"
      using e'_S by (metis Un_iff append_take_drop_id set_append)
    moreover have "length (drop (?L - 1) (age_order fs1)) = 1" using L by simp
    ultimately have drop1: "drop (?L - 1) (age_order fs1) = [e']"
      by (metis length_0_conv length_Suc_conv One_nat_def set_ConsD empty_iff list.set(1))
    have total: "dir_total fs1 = sum_list (map esize (age_order fs1))"
      by (simp add: dir_total_def sum_list_map_sort_key)
    from k(3) \<open>k = ?L\<close> L have "unat max_bytes < dir_total fs1 - sum_list (map esize (take (?L - 1) (age_order fs1)))"
      by (simp add: evicted_all_removable [OF all])
    also have "\<dots> = esize e'"
      unfolding total sum_list_take_drop_nat drop1 by simp
    also have "\<dots> = length out" using inv1 e'_in e'(2,4) by (simp add: cache_inv_def)
    finally show False using fits by simp
  qed
  then have "e' \<in> set (files fs2)" using k(2) e'_in by (simp add: evicted_all_removable [OF all])
  moreover have inv2: "cache_inv fs2" using inv1 en by (rule enforce_cache_limit_inv)
  ultimately have "lookup_entry n fs2 = Some e'"
    using e'_in by (simp add: lookup_entry_Some_iff cache_inv_def)
  moreover have "readable fs2 = readable fs0" "writable fs2 = writable fs0"
    using k(2) write_file_frame [OF w] by simp_all
  ultimately show ?thesis using inv2 e'(2,4) by blast
qed

text \<open>C8: storing a payload and then enforcing the budget keeps the new entry
  when the payload alone fits the budget and every entry can be removed: the new
  entry is the newest, so it is the last one eviction would reach.\<close>

theorem store_survives_eviction:
  assumes inv: "cache_inv fs" and st: "cache_store n out fs = Inr fs1"
    and en: "enforce_cache_limit max_bytes fs1 = Inr fs2"
    and fits: "length out \<le> unat max_bytes" and rm: "\<forall>e\<in>set (files fs1). removable fs1 e"
    and rd: "readable fs"
  shows "\<exists>fs3. cache_lookup n fs2 = Inr (Some out, fs3)"
proof -
  from st obtain fs0 where c: "create_dir_all fs = Inr fs0" and w: "write_file n out fs0 = Inr fs1"
    by (auto simp: cache_store_def)
  have inv0: "cache_inv fs0" using inv c by (rule create_dir_all_inv)
  from fresh_entry_survives_enforce [OF inv0 w en fits rm] obtain e' where e':
    "lookup_entry n fs2 = Some e'" "edata e' = out" "\<not> edir e'" "cache_inv fs2"
    "readable fs2 = readable fs0" "writable fs2 = writable fs0" by blast
  moreover have "readable fs2" "writable fs2"
    using e'(5,6) write_file_frame [OF w] create_dir_all_frame [OF c] rd by simp_all
  ultimately show ?thesis using cache_lookup_hit by metis
qed

lemma cache_lookup_Some_entry:
  assumes "cache_inv fs" "cache_lookup n fs = Inr (Some c, fs')"
  shows "\<exists>e'. lookup_entry n fs' = Some e' \<and> edata e' = c \<and> \<not> edir e' \<and> cache_inv fs' \<and>
              readable fs' = readable fs \<and> writable fs' = writable fs \<and> writable fs"
proof -
  from assms(2) have w: "write_file n c fs = Inr fs'"
    by (auto simp: cache_lookup_def split: if_splits)
  from write_file_lookup [OF assms(1) w] write_file_inv [OF assms(1) w] write_file_frame [OF w]
  show ?thesis by blast
qed

lemma write_file_no_dirs:
  "write_file n d fs = Inr fs' \<Longrightarrow> \<forall>x\<in>set (files fs). \<not> edir x \<Longrightarrow> \<forall>x\<in>set (files fs'). \<not> edir x"
  by (auto simp: write_file_def split: if_splits option.splits)

lemma create_dir_all_files:
  "create_dir_all fs = Inr fs' \<Longrightarrow> set (files fs') \<subseteq> set (files fs)"
  by (auto simp: create_dir_all_def split: if_splits)

lemma enforce_cache_limit_frame:
  assumes "cache_inv fs" "enforce_cache_limit max_bytes fs = Inr fs'"
  shows "set (files fs') \<subseteq> set (files fs) \<and> writable fs' = writable fs \<and> readable fs' = readable fs"
proof -
  from enforce_cache_limit_Inr [OF assms] obtain k where
    "fs' = fs\<lparr>files := filter (\<lambda>x. x \<notin> set (evicted fs k (age_order fs))) (files fs)\<rparr>"
    by blast
  then show ?thesis by auto
qed

lemma enforce_cache_limit_Inl: "enforce_cache_limit m fs = Inl err \<Longrightarrow> \<not> readable fs"
  by (auto simp: enforce_cache_limit_def Let_def split: if_splits)

lemma enforce_within_budget_files:
  assumes "cache_inv fs" "enforce_cache_limit m fs = Inr fs'"
    and "writable fs" "\<forall>x\<in>set (files fs). \<not> edir x"
  shows "dir_total fs' \<le> unat m \<and> (\<forall>x\<in>set (files fs'). \<not> edir x)"
proof -
  from enforce_cache_limit_frame [OF assms(1,2)] assms(3,4)
  have w: "writable fs'" and nd: "\<forall>x\<in>set (files fs'). \<not> edir x" by auto
  then have "\<forall>e\<in>set (files fs'). removable fs' e" by (simp add: removable_def)
  with enforce_total_or_stuck [OF assms(1,2)] have "dir_total fs' \<le> unat m \<or> files fs' = []"
    by (cases "files fs'") auto
  with nd show ?thesis by (auto simp: dir_total_def)
qed

lemma cache_lookup_total:
  assumes "cache_inv fs" "cache_lookup n fs = Inr (Some c, fs')"
  shows "dir_total fs' = dir_total fs \<and> set (map edir (files fs')) = set (map edir (files fs))"
proof -
  from assms(2) obtain e where e: "lookup_entry n fs = Some e" "\<not> edir e" "readable fs" "c = edata e"
    and w: "write_file n c fs = Inr fs'"
    by (auto simp: cache_lookup_def path_exists_def read_to_string_def split: if_splits option.splits)
  have inj: "inj_on ename (set (files fs))" using assms(1) by (simp add: cache_inv_def distinct_map)
  have ein: "e \<in> set (files fs)" "ename e = n"
    using e(1) assms(1) by (simp_all add: lookup_entry_Some_iff cache_inv_def)
  have x: "x = e" if "x \<in> set (files fs)" "ename x = n" for x
    using inj_onD [OF inj _ that(1) ein(1)] that(2) ein(2) by simp
  have sz: "esize e = length c" using e assms(1) by (auto simp: lookup_entry_Some_iff cache_inv_def)
  define f :: "dir_entry \<Rightarrow> dir_entry" where "f = (\<lambda>x. if ename x = n then x\<lparr>edata := c, esize := length c, emtime := clock fs\<rparr> else x)"
  from w e have fs': "files fs' = map f (files fs)"
    by (auto simp: write_file_def f_def split: if_splits)
  have m1: "map (esize \<circ> f) (files fs) = map esize (files fs)"
    by (rule map_cong [OF refl]) (use x sz in \<open>auto simp: f_def\<close>)
  have m2: "map (edir \<circ> f) (files fs) = map edir (files fs)"
    by (rule map_cong [OF refl]) (simp add: f_def)
  show ?thesis unfolding dir_total_def fs' map_map by (simp only: m1 m2)
qed

lemma holds_entry_hit:
  assumes "holds_entry n out fs"
  shows "\<exists>fs'. cache_lookup n fs = Inr (Some out, fs') \<and> holds_entry n out fs'"
proof -
  from assms obtain e where e: "lookup_entry n fs = Some e" "edata e = out" "\<not> edir e"
    and f: "cache_inv fs" "readable fs" "writable fs"
    by (auto simp: holds_entry_def split: option.splits)
  from cache_lookup_hit [OF f(1) e(1,3) f(2,3)] e(2) obtain fs' where
    l: "cache_lookup n fs = Inr (Some out, fs')" by auto
  from cache_lookup_Some_entry [OF f(1) l] f(2) have "holds_entry n out fs'"
    by (auto simp: holds_entry_def)
  with l show ?thesis by blast
qed

section \<open>Witnesses\<close>

lemma demo_cache_inv: "cache_inv demo_cache"
  by (simp add: demo_cache_def cache_inv_def)

lemma demo_enforce:
  "enforce_cache_limit 5 demo_cache =
     Inr (demo_cache\<lparr>files := [hd (files demo_cache)]\<rparr>)"
  by (simp add: demo_cache_def enforce_cache_limit_def remove_file_def lookup_entry_def
                removable_def)

theorem enforce_within_budget_witness:
  "enforce_cache_limit 5 demo_cache = Inr demo_trimmed \<and> dir_total demo_trimmed \<le> unat (5::u64)"
proof -
  have "dir_total demo_trimmed \<le> unat (5::u64) \<or>
        (\<forall>e\<in>set (files demo_trimmed). \<not> removable demo_trimmed e)"
    by (rule enforce_within_budget [OF demo_cache_inv demo_enforce])
  moreover have "hd (files demo_cache) \<in> set (files demo_trimmed)"
    "removable demo_trimmed (hd (files demo_cache))"
    by (simp_all add: demo_cache_def removable_def)
  ultimately show ?thesis using demo_enforce by blast
qed

lemma demo_all_removable: "\<forall>e\<in>set (files demo_cache). removable demo_cache e"
  by (simp add: demo_cache_def removable_def)

theorem enforce_evicts_oldest_first_witness:
  "enforce_cache_limit 5 demo_cache = Inr demo_trimmed \<and>
   files demo_cache ! 1 \<notin> set (files demo_trimmed) \<and>
   emtime (files demo_cache ! 1) \<le> emtime (hd (files demo_cache))"
proof -
  have h: "files demo_cache ! 1 \<in> set (files demo_cache)"
          "files demo_cache ! 1 \<notin> set (files demo_trimmed)"
          "hd (files demo_cache) \<in> set (files demo_trimmed)"
          "removable demo_cache (hd (files demo_cache))"
    by (simp_all add: demo_cache_def removable_def)
  show ?thesis
    using demo_enforce h(2) enforce_evicts_oldest_first [OF demo_cache_inv demo_enforce h] by blast
qed

theorem enforce_refines_lru_witness:
  "enforce_cache_limit 5 demo_cache = Inr demo_trimmed \<and>
   (\<exists>k. files demo_trimmed = filter (\<lambda>x. x \<notin> set (take k (age_order demo_cache))) (files demo_cache)
      \<and> sum_list (map esize (drop k (age_order demo_cache))) \<le> unat (5::u64))"
  using demo_enforce enforce_refines_lru [OF demo_cache_inv demo_enforce demo_all_removable] by blast

lemma demo_store:
  "\<exists>fs'. cache_store ''d.txt'' ''dd'' demo_cache = Inr fs'"
  by (simp add: demo_cache_def cache_store_def create_dir_all_def write_file_def lookup_entry_def)

theorem store_then_lookup_witness:
  "\<exists>fs' fs''. cache_store ''d.txt'' ''dd'' demo_cache = Inr fs' \<and>
     cache_lookup ''d.txt'' fs' = Inr (Some ''dd'', fs'')"
proof -
  obtain fs' where st: "cache_store ''d.txt'' ''dd'' demo_cache = Inr fs'" using demo_store by blast
  have rd: "readable demo_cache" by (simp add: demo_cache_def)
  show ?thesis using st store_then_lookup [OF demo_cache_inv st rd] by blast
qed

lemma demo_lookup:
  "cache_lookup ''b.txt'' demo_cache = Inr (Some ''bb'', demo_touched)"
  by (simp add: demo_cache_def cache_lookup_def path_exists_def read_to_string_def write_file_def
                lookup_entry_def)

theorem lookup_hit_touches_witness:
  "cache_lookup ''b.txt'' demo_cache = Inr (Some ''bb'', demo_touched) \<and>
   (\<exists>e'. lookup_entry ''b.txt'' demo_touched = Some e' \<and> edata e' = ''bb'' \<and>
         emtime (hd (files demo_touched)) < emtime e')"
proof -
  from lookup_hit_touches [OF demo_cache_inv demo_lookup] obtain e' where
    e': "lookup_entry ''b.txt'' demo_touched = Some e'" "edata e' = ''bb''"
        "\<forall>x\<in>set (files demo_touched). x \<noteq> e' \<longrightarrow> emtime x < emtime e'"
    by blast
  from e'(1) have "hd (files demo_touched) \<noteq> e'" "hd (files demo_touched) \<in> set (files demo_touched)"
    by (auto simp: demo_cache_def lookup_entry_def)
  with e' demo_lookup show ?thesis by blast
qed

lemma demo_store_enforce:
  "\<exists>fs1 fs2. cache_store ''d.txt'' ''dd'' demo_cache = Inr fs1 \<and>
     enforce_cache_limit 5 fs1 = Inr fs2 \<and> (\<forall>e\<in>set (files fs1). removable fs1 e)"
  by (simp add: demo_cache_def cache_store_def create_dir_all_def write_file_def lookup_entry_def
                enforce_cache_limit_def remove_file_def removable_def)

theorem store_survives_eviction_witness:
  "\<exists>fs1 fs2 fs3. cache_store ''d.txt'' ''dd'' demo_cache = Inr fs1 \<and>
     enforce_cache_limit 5 fs1 = Inr fs2 \<and> cache_lookup ''d.txt'' fs2 = Inr (Some ''dd'', fs3)"
proof -
  obtain fs1 fs2 where h: "cache_store ''d.txt'' ''dd'' demo_cache = Inr fs1"
    "enforce_cache_limit 5 fs1 = Inr fs2" "\<forall>e\<in>set (files fs1). removable fs1 e"
    using demo_store_enforce by blast
  have fits: "length ''dd'' \<le> unat (5::u64)" and rd: "readable demo_cache"
    by (simp_all add: demo_cache_def)
  show ?thesis
    using h store_survives_eviction [OF demo_cache_inv h(1,2) fits h(3) rd] by blast
qed

end
