(* ===== verification/Renderer.thy ===== *)
theory Renderer
  imports Prelude
begin

text \<open>
  The external renderer (\<^verbatim>\<open>src/main.rs\<close>: \<open>ChafaFormat\<close>, \<open>ChafaColors\<close>,
  their \<open>as_arg\<close>, \<open>run_chafa_once\<close> and \<open>run_chafa\<close>). Spawning chafa is a
  \<open>runner\<close>: a function from the program and its argument vector to the
  process's \<open>Output\<close>, or \<open>None\<close> when the process cannot be spawned. The
  runner is a parameter of every definition, so every property below holds for
  every behaviour of chafa. \<open>run_chafa\<close> returns, besides its result, the
  argument vectors it spawned, in order: the retry policy is a property of that
  trace. Standard output is taken as already decoded text
  (\<open>String::from_utf8_lossy\<close> is not modelled).
\<close>

section \<open>Options\<close>

datatype chafa_format = Format_Auto | Unicode | Kitty | Iterm2 | Sixel

datatype chafa_colors = Colors_Auto | Truecolor | C256 | C16

fun format_as_arg :: "chafa_format \<Rightarrow> string" where
  "format_as_arg Format_Auto = ''auto''"
| "format_as_arg Unicode = ''symbols''"
| "format_as_arg Kitty = ''kitty''"
| "format_as_arg Iterm2 = ''iterm''"
| "format_as_arg Sixel = ''sixels''"

fun colors_as_arg :: "chafa_colors \<Rightarrow> string" where
  "colors_as_arg Colors_Auto = ''auto''"
| "colors_as_arg Truecolor = ''full''"
| "colors_as_arg C256 = ''256''"
| "colors_as_arg C16 = ''16''"

section \<open>The size argument\<close>

text \<open>Rust's \<open>Display\<close> of an unsigned integer: decimal digits, no sign, no padding.\<close>

definition digit_char :: "nat \<Rightarrow> char" where
  "digit_char d = char_of (48 + d)"

fun dec_string :: "nat \<Rightarrow> string" where
  "dec_string n = (if n < 10 then [digit_char n] else dec_string (n div 10) @ [digit_char (n mod 10)])"

declare dec_string.simps [simp del]

definition size_arg :: "usize \<Rightarrow> usize \<Rightarrow> string" where
  "size_arg cols rows = dec_string (unat cols) @ ''x'' @ dec_string (unat rows)"

text \<open>
  The renderer's reading of \<open>--size <cols>x<rows>\<close> (the contract of the spec,
  section 6): two non-empty runs of decimal digits around the first \<open>x\<close>.
\<close>

definition digit_val :: "char \<Rightarrow> nat option" where
  "digit_val c = (let k = of_char c :: nat in if 48 \<le> k \<and> k \<le> 57 then Some (k - 48) else None)"

fun parse_dec_acc :: "nat \<Rightarrow> string \<Rightarrow> nat option" where
  "parse_dec_acc acc [] = Some acc"
| "parse_dec_acc acc (c # cs) =
     (case digit_val c of None \<Rightarrow> None | Some d \<Rightarrow> parse_dec_acc (10 * acc + d) cs)"

definition parse_dec :: "string \<Rightarrow> nat option" where
  "parse_dec s = (if s = [] then None else parse_dec_acc 0 s)"

definition parse_size :: "string \<Rightarrow> (nat \<times> nat) option" where
  "parse_size s =
     (case dropWhile (\<lambda>c. c \<noteq> CHR ''x'') s of
        [] \<Rightarrow> None
      | _ # r \<Rightarrow>
          (case (parse_dec (takeWhile (\<lambda>c. c \<noteq> CHR ''x'') s), parse_dec r) of
             (Some c, Some w) \<Rightarrow> Some (c, w)
           | _ \<Rightarrow> None))"

section \<open>Spawning chafa\<close>

record process_output =
  status_success :: bool
  stdout :: string
  stderr :: string

type_synonym runner = "string \<Rightarrow> argv \<Rightarrow> process_output option"

datatype chafa_error =
    Running_Chafa          \<comment> \<open>\<open>cmd.output()\<close> failed: \<open>"running chafa"\<close>\<close>
  | Chafa_Failed string    \<comment> \<open>\<open>"chafa failed: {last_err}"\<close>\<close>

definition chafa_args ::
  "string \<Rightarrow> usize \<Rightarrow> usize \<Rightarrow> chafa_format \<Rightarrow> chafa_colors \<Rightarrow> bool \<Rightarrow> argv" where
  "chafa_args image_path cols rows format colors animate =
     [image_path, ''--format'', format_as_arg format, ''--colors'', colors_as_arg colors,
      ''--size'', size_arg cols rows] @ (if animate then [''--animate''] else [])"

definition run_chafa_once ::
  "runner \<Rightarrow> string \<Rightarrow> string \<Rightarrow> usize \<Rightarrow> usize \<Rightarrow> chafa_format \<Rightarrow> chafa_colors \<Rightarrow> bool
   \<Rightarrow> chafa_error + process_output" where
  "run_chafa_once run chafa image_path cols rows format colors animate =
     (case run chafa (chafa_args image_path cols rows format colors animate) of
        None \<Rightarrow> Inl Running_Chafa
      | Some out \<Rightarrow> Inr out)"

definition fallback_format :: "chafa_format \<Rightarrow> chafa_format" where
  "fallback_format format = (if format = Format_Auto then Unicode else format)"

definition fallback_colors :: "chafa_colors \<Rightarrow> chafa_colors" where
  "fallback_colors colors = (if colors = Colors_Auto then Truecolor else colors)"

text \<open>
  \<open>run_chafa\<close>: one run; on a failed exit status one retry with the automatic
  settings replaced, only if that changes an argument; the error of a failed retry
  carries the retry's diagnostics. The first component lists the spawned argument
  vectors.
\<close>

definition run_chafa ::
  "runner \<Rightarrow> string \<Rightarrow> string \<Rightarrow> usize \<Rightarrow> usize \<Rightarrow> chafa_format \<Rightarrow> chafa_colors \<Rightarrow> bool
   \<Rightarrow> argv list \<times> (chafa_error + string)" where
  "run_chafa run chafa image_path cols rows format colors animate =
     (let a1 = chafa_args image_path cols rows format colors animate in
      case run_chafa_once run chafa image_path cols rows format colors animate of
        Inl e \<Rightarrow> ([a1], Inl e)
      | Inr output \<Rightarrow>
          if status_success output then ([a1], Inr (stdout output))
          else
            let last_err = stderr output;
                ff = fallback_format format;
                fc = fallback_colors colors
            in if ff \<noteq> format \<or> fc \<noteq> colors then
                 let a2 = chafa_args image_path cols rows ff fc animate in
                 (case run_chafa_once run chafa image_path cols rows ff fc animate of
                    Inl e \<Rightarrow> ([a1, a2], Inl e)
                  | Inr retry \<Rightarrow>
                      if status_success retry then ([a1, a2], Inr (stdout retry))
                      else ([a1, a2], Inl (Chafa_Failed (stderr retry))))
               else ([a1], Inl (Chafa_Failed last_err)))"

section \<open>Specification: attempts in order\<close>

text \<open>
  The contract of section 4.2 of the spec as a generic loop over a list of
  (format, colors) attempts: the first successful exit wins, a spawn failure ends
  the loop, and when every attempt fails the diagnostics of the last one are
  reported. The invoker's attempts are the requested settings and, only when it
  differs, their fallback.
\<close>

definition attempts :: "chafa_format \<Rightarrow> chafa_colors \<Rightarrow> (chafa_format \<times> chafa_colors) list" where
  "attempts format colors =
     (format, colors) #
     (if fallback_format format \<noteq> format \<or> fallback_colors colors \<noteq> colors
      then [(fallback_format format, fallback_colors colors)] else [])"

fun try_in_order ::
  "runner \<Rightarrow> string \<Rightarrow> string \<Rightarrow> usize \<Rightarrow> usize \<Rightarrow> bool \<Rightarrow> (chafa_format \<times> chafa_colors) list
   \<Rightarrow> argv list \<times> (chafa_error + string)" where
  "try_in_order run chafa image_path cols rows animate [] = ([], Inl (Chafa_Failed []))"
| "try_in_order run chafa image_path cols rows animate ((f, c) # rest) =
     (let a = chafa_args image_path cols rows f c animate in
      case run chafa a of
        None \<Rightarrow> ([a], Inl Running_Chafa)
      | Some out \<Rightarrow>
          if status_success out then ([a], Inr (stdout out))
          else if rest = [] then ([a], Inl (Chafa_Failed (stderr out)))
          else let (tr, res) = try_in_order run chafa image_path cols rows animate rest
               in (a # tr, res))"

text \<open>Test doubles for chafa: one that always exits with failure, and one whose
  diagnostics tell the automatic run from the retry.\<close>

abbreviation always_fails :: runner where
  "always_fails \<equiv> \<lambda>_ _. Some \<lparr>status_success = False, stdout = [], stderr = ''no image''\<rparr>"

abbreviation fails_twice :: runner where
  "fails_twice \<equiv> \<lambda>_ a. Some \<lparr>status_success = False, stdout = [],
      stderr = (if ''auto'' \<in> set a then ''auto failed'' else ''retry failed'')\<rparr>"

section \<open>Properties of the invoker\<close>

lemma fallback_concrete [simp]:
  "fallback_format f \<noteq> Format_Auto" "fallback_colors c \<noteq> Colors_Auto"
  by (simp_all add: fallback_format_def fallback_colors_def)

lemma fallback_changes_iff:
  "(fallback_format f \<noteq> f \<or> fallback_colors c \<noteq> c) \<longleftrightarrow> f = Format_Auto \<or> c = Colors_Auto"
  by (auto simp: fallback_format_def fallback_colors_def)

lemma run_chafa_once_eq:
  "run_chafa_once run chafa image_path cols rows f c animate =
     (case run chafa (chafa_args image_path cols rows f c animate) of
        None \<Rightarrow> Inl Running_Chafa | Some out \<Rightarrow> Inr out)"
  by (simp add: run_chafa_once_def)

text \<open>C18: the invoker is the attempts-in-order loop over the requested settings
  followed by their fallback, the latter only when it changes an argument.\<close>

theorem run_chafa_refines_attempts:
  "run_chafa run chafa image_path cols rows format colors animate =
     try_in_order run chafa image_path cols rows animate (attempts format colors)"
  by (simp add: run_chafa_def run_chafa_once_eq attempts_def Let_def
           split: option.splits if_splits)

text \<open>C3: when the first run exits with failure and both settings were automatic,
  exactly one retry is spawned, with the symbols format and full colors and all
  other arguments unchanged.\<close>

theorem run_chafa_retries_once_on_auto:
  assumes "run chafa (chafa_args image_path cols rows Format_Auto Colors_Auto animate) = Some out"
    and "\<not> status_success out"
  shows "fst (run_chafa run chafa image_path cols rows Format_Auto Colors_Auto animate) =
           [chafa_args image_path cols rows Format_Auto Colors_Auto animate,
            chafa_args image_path cols rows Unicode Truecolor animate]"
  using assms
  by (simp add: run_chafa_def run_chafa_once_eq fallback_format_def fallback_colors_def Let_def
           split: option.splits sum.splits)

text \<open>C7: when neither setting was automatic, a failed run is not retried and its
  own diagnostics are reported.\<close>

theorem run_chafa_no_retry_without_auto:
  assumes "format \<noteq> Format_Auto" "colors \<noteq> Colors_Auto"
    and "run chafa (chafa_args image_path cols rows format colors animate) = Some out"
    and "\<not> status_success out"
  shows "run_chafa run chafa image_path cols rows format colors animate =
           ([chafa_args image_path cols rows format colors animate], Inl (Chafa_Failed (stderr out)))"
  using assms
  by (simp add: run_chafa_def run_chafa_once_eq fallback_format_def fallback_colors_def)

text \<open>When the retry fails too, the error carries the retry's diagnostics, not
  the first run's.\<close>

theorem run_chafa_reports_retry_error:
  assumes "format = Format_Auto \<or> colors = Colors_Auto"
    and "run chafa (chafa_args image_path cols rows format colors animate) = Some out"
    and "\<not> status_success out"
    and "run chafa (chafa_args image_path cols rows (fallback_format format) (fallback_colors colors) animate)
           = Some retry"
    and "\<not> status_success retry"
  shows "snd (run_chafa run chafa image_path cols rows format colors animate) =
           Inl (Chafa_Failed (stderr retry))"
  using assms(2-5) fallback_changes_iff [of format colors] assms(1)
  by (simp add: run_chafa_def run_chafa_once_eq Let_def)

text \<open>The invoker spawns chafa once or twice, never more; it returns the
  standard output of a successful run only, and a spawn failure ends it at once.\<close>

theorem run_chafa_bounded_attempts:
  "let (tr, res) = run_chafa run chafa image_path cols rows format colors animate in
     1 \<le> length tr \<and> length tr \<le> 2 \<and>
     hd tr = chafa_args image_path cols rows format colors animate \<and>
     (res = Inl Running_Chafa \<longleftrightarrow> run chafa (last tr) = None) \<and>
     (\<forall>s. res = Inr s \<longleftrightarrow> (\<exists>out. run chafa (last tr) = Some out \<and> status_success out \<and> stdout out = s))"
  by (auto simp: run_chafa_def run_chafa_once_eq Let_def split: option.splits if_splits)

lemma run_chafa_first_spawn:
  "fst (run_chafa run chafa image_path cols rows format colors animate) \<noteq> [] \<and>
   hd (fst (run_chafa run chafa image_path cols rows format colors animate)) =
     chafa_args image_path cols rows format colors animate"
  by (auto simp: run_chafa_def run_chafa_once_eq Let_def split: option.splits if_splits sum.splits)

section \<open>The size argument reads back\<close>

lemma digit_val_digit_char:
  "d < 10 \<Longrightarrow> digit_val (digit_char d) = Some d"
  by (simp add: digit_val_def digit_char_def of_char_of)

lemma dec_string_digits:
  "c \<in> set (dec_string n) \<Longrightarrow> \<exists>d<10. c = digit_char d"
proof (induction n rule: dec_string.induct)
  case (1 n)
  show ?case
  proof (cases "n < 10")
    case True
    with "1.prems" show ?thesis by (auto simp: dec_string.simps [of n])
  next
    case False
    with "1.prems" have "c \<in> set (dec_string (n div 10)) \<or> c = digit_char (n mod 10)"
      by (auto simp: dec_string.simps [of n])
    with "1.IH" False show ?thesis by (metis mod_less_divisor zero_less_numeral)
  qed
qed

lemma dec_string_no_x:
  "CHR ''x'' \<notin> set (dec_string n)"
proof
  assume "CHR ''x'' \<in> set (dec_string n)"
  then obtain d where "d < 10" "CHR ''x'' = digit_char d" by (blast dest: dec_string_digits)
  then have "of_char (CHR ''x'') = (of_char (digit_char d) :: nat)" by simp
  with \<open>d < 10\<close> show False by (simp add: digit_char_def of_char_of)
qed

lemma dec_string_nonempty [simp]: "dec_string n \<noteq> []"
  by (simp add: dec_string.simps [of n])

lemma parse_dec_acc_append:
  "parse_dec_acc acc (xs @ ys) = (case parse_dec_acc acc xs of None \<Rightarrow> None | Some a \<Rightarrow> parse_dec_acc a ys)"
  by (induction acc xs rule: parse_dec_acc.induct) (auto split: option.splits)

lemma parse_dec_acc_dec_string:
  "parse_dec_acc acc (dec_string n) = Some (acc * 10 ^ length (dec_string n) + n)"
proof (induction n arbitrary: acc rule: dec_string.induct)
  case (1 n)
  show ?case
  proof (cases "n < 10")
    case True
    then show ?thesis by (simp add: dec_string.simps [of n] digit_val_digit_char)
  next
    case False
    then have "dec_string n = dec_string (n div 10) @ [digit_char (n mod 10)]"
      by (simp add: dec_string.simps [of n])
    moreover have "10 * (acc * 10 ^ length (dec_string (n div 10)) + n div 10) + n mod 10
                     = acc * 10 ^ Suc (length (dec_string (n div 10))) + n"
      by simp
    ultimately show ?thesis
      using "1" False by (simp add: parse_dec_acc_append digit_val_digit_char)
  qed
qed

lemma parse_dec_dec_string [simp]: "parse_dec (dec_string n) = Some n"
  by (simp add: parse_dec_def parse_dec_acc_dec_string)

text \<open>The size argument passed to chafa reads back as the requested columns
  and rows.\<close>

theorem size_arg_roundtrip:
  "parse_size (size_arg cols rows) = Some (unat cols, unat rows)"
proof -
  have all: "\<And>c. c \<in> set (dec_string (unat cols)) \<Longrightarrow> c \<noteq> CHR ''x''"
    using dec_string_no_x by blast
  have "takeWhile (\<lambda>c. c \<noteq> CHR ''x'') (size_arg cols rows) = dec_string (unat cols)"
       "dropWhile (\<lambda>c. c \<noteq> CHR ''x'') (size_arg cols rows) = CHR ''x'' # dec_string (unat rows)"
    by (simp_all add: size_arg_def takeWhile_append2 [OF all] dropWhile_append2 [OF all])
  then show ?thesis by (simp add: parse_size_def)
qed

section \<open>Witnesses\<close>


theorem run_chafa_retries_once_on_auto_witness:
  "fst (run_chafa always_fails ''chafa'' ''cat.png'' 40 10 Format_Auto Colors_Auto False) =
     [chafa_args ''cat.png'' 40 10 Format_Auto Colors_Auto False,
      chafa_args ''cat.png'' 40 10 Unicode Truecolor False]"
proof (rule run_chafa_retries_once_on_auto)
  show "always_fails ''chafa'' (chafa_args ''cat.png'' 40 10 Format_Auto Colors_Auto False) =
          Some \<lparr>status_success = False, stdout = [], stderr = ''no image''\<rparr>"
    by (rule refl)
  show "\<not> status_success \<lparr>status_success = False, stdout = [], stderr = ''no image''\<rparr>"
    by simp
qed

theorem run_chafa_no_retry_without_auto_witness:
  "run_chafa always_fails ''chafa'' ''cat.png'' 40 10 Kitty C256 False =
     ([chafa_args ''cat.png'' 40 10 Kitty C256 False], Inl (Chafa_Failed ''no image''))"
  using run_chafa_no_retry_without_auto
          [where run = always_fails and format = Kitty and colors = C256 and chafa = "''chafa''"
             and image_path = "''cat.png''" and cols = 40 and rows = 10 and animate = False
             and out = "\<lparr>status_success = False, stdout = [], stderr = ''no image''\<rparr>"]
  by simp

theorem run_chafa_reports_retry_error_witness:
  "snd (run_chafa fails_twice ''chafa'' ''cat.png'' 40 10 Format_Auto C16 True) =
     Inl (Chafa_Failed ''retry failed'')"
proof -
  have "snd (run_chafa fails_twice ''chafa'' ''cat.png'' 40 10 Format_Auto C16 True) =
          Inl (Chafa_Failed (stderr \<lparr>status_success = False, stdout = [], stderr = ''retry failed''\<rparr>))"
    by (rule run_chafa_reports_retry_error
          [where out = "\<lparr>status_success = False, stdout = [], stderr = ''auto failed''\<rparr>"])
       (simp_all add: chafa_args_def fallback_format_def fallback_colors_def size_arg_def dec_string.simps digit_char_def)
  then show ?thesis by simp
qed

theorem run_chafa_bounded_attempts_witness:
  "length (fst (run_chafa fails_twice ''chafa'' ''cat.png'' 40 10 Format_Auto C16 True)) \<le> 2 \<and>
   hd (fst (run_chafa fails_twice ''chafa'' ''cat.png'' 40 10 Format_Auto C16 True)) =
     chafa_args ''cat.png'' 40 10 Format_Auto C16 True"
  using run_chafa_bounded_attempts [of fails_twice "''chafa''" "''cat.png''" 40 10 Format_Auto C16 True]
  by (simp add: case_prod_beta Let_def)

end
