(* ===== verification/Cache_Key.thy ===== *)
theory Cache_Key
  imports Renderer
begin

text \<open>
  The cache key (\<^verbatim>\<open>src/main.rs\<close>: \<open>cache_key\<close> and the cache file name in
  \<open>render_image\<close>). The key is the lowercase hexadecimal BLAKE3 digest of the
  bytes fed to the hasher: the image path, the image's modification time in whole
  seconds, the columns and rows (each as eight little-endian bytes), the format
  and colors arguments, and one byte for the animation flag. BLAKE3 itself is a
  parameter \<open>digest\<close>: successive \<open>update\<close> calls hash their concatenation, so
  the model hashes \<open>key_input\<close> in one piece. The image metadata is an
  environment function \<open>image_meta\<close>: \<open>None\<close> when \<open>fs::metadata\<close> fails,
  otherwise the modification time in nanoseconds since the epoch, if the platform
  reports one. The path is taken after \<open>to_string_lossy\<close>.
\<close>

section \<open>Bytes\<close>

definition string_bytes :: "string \<Rightarrow> byte list" where
  "string_bytes s = map (\<lambda>c. word_of_nat (of_char c)) s"

fun le_digits :: "nat \<Rightarrow> nat \<Rightarrow> nat list" where
  "le_digits 0 n = []"
| "le_digits (Suc k) n = n mod 256 # le_digits k (n div 256)"

definition to_le_bytes :: "u64 \<Rightarrow> byte list" where
  "to_le_bytes w = map word_of_nat (le_digits 8 (unat w))"

fun of_le_digits :: "nat list \<Rightarrow> nat" where
  "of_le_digits [] = 0"
| "of_le_digits (d # ds) = d + 256 * of_le_digits ds"

definition from_le_bytes :: "byte list \<Rightarrow> u64" where
  "from_le_bytes bs = word_of_nat (of_le_digits (map unat bs))"

section \<open>The key\<close>

record file_meta =
  modified_ns :: "int option"

definition mtime_secs :: "file_meta \<Rightarrow> u64" where
  "mtime_secs m =
     (case modified_ns m of
        None \<Rightarrow> 0
      | Some t \<Rightarrow> if t < 0 then 0 else word_of_nat (nat (t div 1000000000)))"

definition key_input ::
  "string \<Rightarrow> u64 \<Rightarrow> usize \<Rightarrow> usize \<Rightarrow> chafa_format \<Rightarrow> chafa_colors \<Rightarrow> bool \<Rightarrow> byte list" where
  "key_input image_path mtime cols rows format colors animate =
     string_bytes image_path @ to_le_bytes mtime @ to_le_bytes cols @ to_le_bytes rows @
     string_bytes (format_as_arg format) @ string_bytes (colors_as_arg colors) @
     [if animate then 1 else 0]"

definition hex_digit :: "nat \<Rightarrow> char" where
  "hex_digit d = (if d < 10 then char_of (48 + d) else char_of (87 + d))"

definition to_hex :: "byte list \<Rightarrow> string" where
  "to_hex bs = concat (map (\<lambda>b. [hex_digit (unat b div 16), hex_digit (unat b mod 16)]) bs)"

datatype key_error = Image_Metadata  \<comment> \<open>\<open>"reading image metadata"\<close>\<close>

type_synonym hasher = "byte list \<Rightarrow> byte list"

definition cache_key ::
  "hasher \<Rightarrow> (string \<Rightarrow> file_meta option) \<Rightarrow> string \<Rightarrow> usize \<Rightarrow> usize \<Rightarrow> chafa_format
   \<Rightarrow> chafa_colors \<Rightarrow> bool \<Rightarrow> key_error + string" where
  "cache_key digest image_meta image_path cols rows format colors animate =
     (case image_meta image_path of
        None \<Rightarrow> Inl Image_Metadata
      | Some m \<Rightarrow>
          Inr (to_hex (digest (key_input image_path (mtime_secs m) cols rows format colors animate))))"

definition cache_file_ext :: string where
  "cache_file_ext = ''txt''"

definition cache_file_name :: "string \<Rightarrow> string" where
  "cache_file_name key = key @ ''.'' @ cache_file_ext"

text \<open>Reading a hexadecimal name back, for the round trip of the file name.\<close>

definition hex_val :: "char \<Rightarrow> nat option" where
  "hex_val c = (let k = of_char c :: nat in
     if 48 \<le> k \<and> k \<le> 57 then Some (k - 48)
     else if 97 \<le> k \<and> k \<le> 102 then Some (k - 87) else None)"

fun of_hex :: "string \<Rightarrow> byte list option" where
  "of_hex [] = Some []"
| "of_hex [c] = None"
| "of_hex (h # l # rest) =
     (case (hex_val h, hex_val l, of_hex rest) of
        (Some a, Some b, Some bs) \<Rightarrow> Some (word_of_nat (16 * a + b) # bs)
      | _ \<Rightarrow> None)"

abbreviation demo_meta :: "string \<Rightarrow> file_meta option" where
  "demo_meta \<equiv> \<lambda>_. Some \<lparr>modified_ns = Some 1700000000500000000\<rparr>"

section \<open>Round trips of the encodings\<close>

lemma length_le_digits [simp]: "length (le_digits k n) = k"
  by (induction k arbitrary: n) auto

lemma le_digits_small: "d \<in> set (le_digits k n) \<Longrightarrow> d < 256"
  by (induction k arbitrary: n) auto

lemma of_le_digits_le_digits: "of_le_digits (le_digits k n) = n mod 256 ^ k"
proof (induction k arbitrary: n)
  case 0
  then show ?case by simp
next
  case (Suc k)
  have "n mod 256 + 256 * (n div 256 mod 256 ^ k) = n mod (256 * 256 ^ k)"
    by (simp add: mod_mult2_eq)
  with Suc show ?case by simp
qed

lemma map_unat_le_digits:
  "map (unat \<circ> (word_of_nat :: nat \<Rightarrow> byte)) (le_digits k n) = le_digits k n"
  by (induction k arbitrary: n) (simp_all add: unat_of_nat)

lemma length_to_le_bytes [simp]: "length (to_le_bytes w) = 8"
  by (simp add: to_le_bytes_def)

lemma from_le_bytes_to_le_bytes [simp]: "from_le_bytes (to_le_bytes w) = w"
proof -
  have "unat w < 256 ^ 8" using unsigned_less [of w] by simp
  then show ?thesis
    by (simp add: from_le_bytes_def to_le_bytes_def map_unat_le_digits of_le_digits_le_digits)
qed

lemma to_le_bytes_inj: "to_le_bytes a = to_le_bytes b \<longleftrightarrow> a = b"
  by (metis from_le_bytes_to_le_bytes)

lemma string_bytes_append [simp]: "string_bytes (a @ b) = string_bytes a @ string_bytes b"
  by (simp add: string_bytes_def)

lemma length_string_bytes [simp]: "length (string_bytes s) = length s"
  by (simp add: string_bytes_def)

lemma byte_of_char_inj: "inj (\<lambda>c. (word_of_nat (of_char c) :: byte))"
proof (rule injI)
  fix a b :: char
  assume "(word_of_nat (of_char a) :: byte) = word_of_nat (of_char b)"
  then have "unat (word_of_nat (of_char a) :: byte) = unat (word_of_nat (of_char b) :: byte)" by simp
  then have "(of_char a :: nat) = of_char b" by (simp add: unat_of_nat nat_of_char_less_256)
  then show "a = b" by (metis char_of_char)
qed

lemma string_bytes_inj: "string_bytes a = string_bytes b \<longleftrightarrow> a = b"
  unfolding string_bytes_def using inj_map_eq_map [OF byte_of_char_inj] by blast

lemma format_arg_bytes_suffix_free:
  "suffix_free (range (\<lambda>f. string_bytes (format_as_arg f)))"
proof -
  have "suffix (string_bytes (format_as_arg f)) (string_bytes (format_as_arg g)) \<Longrightarrow> f = g" for f g
    by (cases f; cases g) (simp_all add: string_bytes_def suffix_to_prefix)
  then show ?thesis by (auto simp: suffix_free_def)
qed

lemma colors_arg_bytes_suffix_free:
  "suffix_free (range (\<lambda>c. string_bytes (colors_as_arg c)))"
proof -
  have "suffix (string_bytes (colors_as_arg c)) (string_bytes (colors_as_arg d)) \<Longrightarrow> c = d" for c d
    by (cases c; cases d) (simp_all add: string_bytes_def suffix_to_prefix)
  then show ?thesis by (auto simp: suffix_free_def)
qed

lemma format_as_arg_inj: "format_as_arg f = format_as_arg g \<longleftrightarrow> f = g"
  by (cases f; cases g) simp_all

lemma colors_as_arg_inj: "colors_as_arg c = colors_as_arg d \<longleftrightarrow> c = d"
  by (cases c; cases d) simp_all

section \<open>The hashed input determines the request\<close>

lemma key_input_eq_imp:
  assumes "key_input i1 m1 c1 r1 f1 k1 a1 = key_input i2 m2 c2 r2 f2 k2 a2"
  shows "i1 = i2 \<and> m1 = m2 \<and> c1 = c2 \<and> r1 = r2 \<and> f1 = f2 \<and> k1 = k2 \<and> a1 = a2"
proof -
  let ?A1 = "string_bytes i1 @ to_le_bytes m1 @ to_le_bytes c1 @ to_le_bytes r1"
  let ?A2 = "string_bytes i2 @ to_le_bytes m2 @ to_le_bytes c2 @ to_le_bytes r2"
  let ?F1 = "string_bytes (format_as_arg f1)" and ?F2 = "string_bytes (format_as_arg f2)"
  let ?K1 = "string_bytes (colors_as_arg k1)" and ?K2 = "string_bytes (colors_as_arg k2)"
  have "((?A1 @ ?F1) @ ?K1) @ [if a1 then 1 else 0] = ((?A2 @ ?F2) @ ?K2) @ [if a2 then 1 else 0]"
    using assms unfolding key_input_def by (simp only: append_assoc)
  then have last: "(?A1 @ ?F1) @ ?K1 = (?A2 @ ?F2) @ ?K2" and "a1 = a2"
    by (auto simp only: append1_eq_conv split: if_splits) simp_all
  from suffix_free_append_eq [OF colors_arg_bytes_suffix_free rangeI rangeI last]
  have "k1 = k2" and mid: "?A1 @ ?F1 = ?A2 @ ?F2"
    by (simp_all add: string_bytes_inj colors_as_arg_inj)
  from suffix_free_append_eq [OF format_arg_bytes_suffix_free rangeI rangeI mid]
  have "f1 = f2" and front: "?A1 = ?A2"
    by (simp_all add: string_bytes_inj format_as_arg_inj)
  have fixed: "xs @ to_le_bytes u = ys @ to_le_bytes v \<Longrightarrow> xs = ys \<and> u = v" for xs ys u v
    by (simp add: append_eq_same_length_suffix to_le_bytes_inj)
  from front have "(string_bytes i1 @ to_le_bytes m1 @ to_le_bytes c1) @ to_le_bytes r1 =
                   (string_bytes i2 @ to_le_bytes m2 @ to_le_bytes c2) @ to_le_bytes r2"
    by simp
  from fixed [OF this] have "r1 = r2" and "(string_bytes i1 @ to_le_bytes m1) @ to_le_bytes c1 =
                           (string_bytes i2 @ to_le_bytes m2) @ to_le_bytes c2"
    by simp_all
  from fixed [OF this(2)] have "c1 = c2" and "string_bytes i1 @ to_le_bytes m1 = string_bytes i2 @ to_le_bytes m2"
    by simp_all
  from fixed [OF this(2)] have "m1 = m2" and "i1 = i2"
    by (simp_all add: string_bytes_inj)
  with \<open>a1 = a2\<close> \<open>k1 = k2\<close> \<open>f1 = f2\<close> \<open>r1 = r2\<close> \<open>c1 = c2\<close> show ?thesis by simp
qed

section \<open>The file name reads back as the digest\<close>

lemma hex_val_hex_digit: "d < 16 \<Longrightarrow> hex_val (hex_digit d) = Some d"
  by (cases "d < 10") (simp_all add: hex_val_def hex_digit_def of_char_of)

lemma to_hex_Cons:
  "to_hex (b # bs) = hex_digit (unat b div 16) # hex_digit (unat b mod 16) # to_hex bs"
  by (simp add: to_hex_def)

lemma of_hex_to_hex: "of_hex (to_hex bs) = Some bs"
proof (induction bs)
  case Nil
  then show ?case by (simp add: to_hex_def)
next
  case (Cons b bs)
  have "unat b < 256" using unsigned_less [of b] by simp
  then have "unat b div 16 < 16" by simp
  moreover have "(word_of_nat (16 * (unat b div 16) + unat b mod 16) :: byte) = b"
    by simp
  ultimately show ?case
    using Cons by (simp add: to_hex_Cons hex_val_hex_digit)
qed

lemma length_to_hex: "length (to_hex bs) = 2 * length bs"
  by (induction bs) (simp_all add: to_hex_def)

text \<open>Cache file names are injective in the digest: two digests that name the
  same cache file are equal.\<close>

theorem cache_file_name_injective:
  "cache_file_name (to_hex d1) = cache_file_name (to_hex d2) \<Longrightarrow> d1 = d2"
  by (metis cache_file_name_def of_hex_to_hex option.inject append_same_eq)

text \<open>C4: the bytes fed to the hasher determine the image path, its modification
  time and every render parameter: two requests hash the same input exactly when
  they agree in every field, although the string fields carry no length prefix.\<close>

theorem key_input_injective:
  "key_input i1 m1 c1 r1 f1 k1 a1 = key_input i2 m2 c2 r2 f2 k2 a2 \<longleftrightarrow>
     i1 = i2 \<and> m1 = m2 \<and> c1 = c2 \<and> r1 = r2 \<and> f1 = f2 \<and> k1 = k2 \<and> a1 = a2"
  using key_input_eq_imp by blast

lemma to_hex_inj: "to_hex d1 = to_hex d2 \<Longrightarrow> d1 = d2"
  by (metis of_hex_to_hex option.inject)

text \<open>For a collision-free digest, two renders of the same image whose cache
  keys coincide asked for the same columns, rows, format, colors and animation.\<close>

theorem cache_key_sensitive:
  assumes "inj digest"
    and "cache_key digest image_meta p c1 r1 f1 k1 a1 = Inr key"
    and "cache_key digest image_meta p c2 r2 f2 k2 a2 = Inr key"
  shows "c1 = c2 \<and> r1 = r2 \<and> f1 = f2 \<and> k1 = k2 \<and> a1 = a2"
proof -
  from assms(2) obtain m where m: "image_meta p = Some m"
    by (auto simp: cache_key_def split: option.splits)
  with assms(2,3) have "to_hex (digest (key_input p (mtime_secs m) c1 r1 f1 k1 a1)) =
                        to_hex (digest (key_input p (mtime_secs m) c2 r2 f2 k2 a2))"
    by (simp add: cache_key_def)
  then have "key_input p (mtime_secs m) c1 r1 f1 k1 a1 = key_input p (mtime_secs m) c2 r2 f2 k2 a2"
    using assms(1) by (blast dest: to_hex_inj injD)
  then show ?thesis by (blast dest: key_input_eq_imp)
qed

text \<open>The key sees the image only through its path and its modification time in
  whole seconds.\<close>

lemma cache_key_same_second:
  "image_meta p = Some m1 \<Longrightarrow> image_meta' p = Some m2 \<Longrightarrow> mtime_secs m1 = mtime_secs m2 \<Longrightarrow>
     cache_key digest image_meta p c r f k a = cache_key digest image_meta' p c r f k a"
  by (simp add: cache_key_def)

lemma cache_key_Inl:
  "cache_key digest image_meta p c r f k a = Inl Image_Metadata \<longleftrightarrow> image_meta p = None"
  by (simp add: cache_key_def split: option.splits)

section \<open>Witnesses\<close>

theorem key_input_injective_witness:
  "key_input ''image.png'' 0 40 10 Format_Auto Colors_Auto False \<noteq>
   key_input ''image.png'' 0 80 10 Format_Auto Colors_Auto False"
  by (simp only: key_input_injective) simp

theorem cache_key_sensitive_witness:
  "cache_key id demo_meta ''image.png'' 40 10 Format_Auto Colors_Auto False \<noteq>
   cache_key id demo_meta ''image.png'' 80 10 Format_Auto Colors_Auto False"
proof
  obtain key where k: "cache_key id demo_meta ''image.png'' 40 10 Format_Auto Colors_Auto False = Inr key"
    by (simp add: cache_key_def)
  assume "cache_key id demo_meta ''image.png'' 40 10 Format_Auto Colors_Auto False =
          cache_key id demo_meta ''image.png'' 80 10 Format_Auto Colors_Auto False"
  with k have "cache_key id demo_meta ''image.png'' 80 10 Format_Auto Colors_Auto False = Inr key"
    by simp
  from cache_key_sensitive [OF inj_on_id k this] show False by simp
qed

theorem cache_file_name_injective_witness:
  "cache_file_name (to_hex [171, 1]) = ''ab01.txt'' \<and> [171, 1::byte] = [171, 1]"
proof
  show "cache_file_name (to_hex [171, 1]) = ''ab01.txt''"
    by (simp add: cache_file_name_def cache_file_ext_def to_hex_def hex_digit_def char_of_eq_iff)
  show "[171, 1::byte] = [171, 1]"
    by (rule cache_file_name_injective) (rule refl)
qed

end
