(* ===== verification/Pipeline.thy ===== *)
theory Pipeline
  imports Cache_Store Cache_Key
begin

text \<open>
  The render pipeline (\<^verbatim>\<open>src/main.rs\<close>: \<open>RenderOptions\<close> and
  \<open>render_image\<close>): compute the cache key, serve a cache hit (with its touch),
  otherwise run chafa and, when caching is on, create the cache directory, write
  the entry and enforce the byte budget. The environment bundles what the
  pipeline reads from outside: the process runner, the chafa path, the BLAKE3
  digest and the image metadata. The result is the rendered text or an error,
  the cache directory afterwards (a failed step leaves the effects of the steps
  before it), and the argument vectors of the chafa runs.
\<close>

record render_options =
  cols :: usize
  rows :: usize
  format :: chafa_format
  colors :: chafa_colors
  animate :: bool
  cache_enabled :: bool
  cache_max_mb :: u64

record env =
  run :: runner
  chafa_path :: string
  digest :: hasher
  image_meta :: "string \<Rightarrow> file_meta option"

datatype render_error =
    Key_Error key_error
  | Render_Error chafa_error
  | Cache_Error io_error

definition max_bytes :: "u64 \<Rightarrow> u64" where
  "max_bytes mb = mb * 1024 * 1024"

definition render_image ::
  "env \<Rightarrow> string \<Rightarrow> render_options \<Rightarrow> cache_fs
   \<Rightarrow> (render_error + string) \<times> cache_fs \<times> argv list" where
  "render_image e image_path options fs =
     (case cache_key (digest e) (image_meta e) image_path (cols options) (rows options)
             (format options) (colors options) (animate options) of
        Inl err \<Rightarrow> (Inl (Key_Error err), fs, [])
      | Inr key \<Rightarrow>
          let name = cache_file_name key;
              hit = (if cache_enabled options then cache_lookup name fs else Inr (None, fs))
          in case hit of
               Inl err \<Rightarrow> (Inl (Cache_Error err), fs, [])
             | Inr (Some contents, fs') \<Rightarrow> (Inr contents, fs', [])
             | Inr (None, _) \<Rightarrow>
                 (case run_chafa (run e) (chafa_path e) image_path (cols options) (rows options)
                         (format options) (colors options) (animate options) of
                    (spawned, Inl err) \<Rightarrow> (Inl (Render_Error err), fs, spawned)
                  | (spawned, Inr output) \<Rightarrow>
                      if cache_enabled options then
                        (case create_dir_all fs of
                           Inl err \<Rightarrow> (Inl (Cache_Error err), fs, spawned)
                         | Inr fs1 \<Rightarrow>
                             (case write_file name output fs1 of
                                Inl err \<Rightarrow> (Inl (Cache_Error err), fs1, spawned)
                              | Inr fs2 \<Rightarrow>
                                  (case enforce_cache_limit (max_bytes (cache_max_mb options)) fs2 of
                                     Inl err \<Rightarrow> (Inl (Cache_Error err), fs2, spawned)
                                   | Inr fs3 \<Rightarrow> (Inr output, fs3, spawned))))
                      else (Inr output, fs, spawned)))"

text \<open>
  A test-double environment: chafa always succeeds with the text \<open>IMG\<close>, the
  digest is the length of its input as one byte (so the demo request's key is
  \<open>28\<close>), and the image was last modified 0.2 s into a second. The second
  environment renders \<open>NEW\<close> for an image replaced 0.5 s later.
\<close>

abbreviation demo_env :: env where
  "demo_env \<equiv> \<lparr>run = (\<lambda>_ _. Some \<lparr>status_success = True, stdout = ''IMG'', stderr = []\<rparr>),
      chafa_path = ''chafa'', digest = (\<lambda>bs. [word_of_nat (length bs)]),
      image_meta = (\<lambda>_. Some \<lparr>modified_ns = Some 1700000000200000000\<rparr>)\<rparr>"

abbreviation replaced_env :: env where
  "replaced_env \<equiv> \<lparr>run = (\<lambda>_ _. Some \<lparr>status_success = True, stdout = ''NEW'', stderr = []\<rparr>),
      chafa_path = ''chafa'', digest = (\<lambda>bs. [word_of_nat (length bs)]),
      image_meta = (\<lambda>_. Some \<lparr>modified_ns = Some 1700000000700000000\<rparr>)\<rparr>"

abbreviation demo_opts :: render_options where
  "demo_opts \<equiv> \<lparr>cols = 40, rows = 10, format = Format_Auto, colors = Colors_Auto, animate = False,
      cache_enabled = True, cache_max_mb = 1\<rparr>"

abbreviation readonly_cache :: cache_fs where
  "readonly_cache \<equiv> demo_cache\<lparr>writable := False\<rparr>"

abbreviation stale_entry :: dir_entry where
  "stale_entry \<equiv> \<lparr>ename = ''28.txt'', edata = ''OLD'', esize = 3, emtime = 0, edir = False\<rparr>"

section \<open>Branches of render\_image\<close>

lemma render_image_hit:
  assumes "cache_enabled options"
    and "cache_key (digest e) (image_meta e) p (cols options) (rows options) (format options)
           (colors options) (animate options) = Inr key"
    and "cache_lookup (cache_file_name key) fs = Inr (Some c, fs')"
  shows "render_image e p options fs = (Inr c, fs', [])"
  using assms by (simp add: render_image_def)

lemma cache_lookup_None: "cache_lookup n fs = Inr (None, fs') \<Longrightarrow> fs' = fs"
  by (auto simp: cache_lookup_def split: if_splits)

lemma render_image_Inr_cached:
  assumes "render_image e p options fs = (Inr out, fs1, spawned)" "cache_enabled options"
  shows "\<exists>key. cache_key (digest e) (image_meta e) p (cols options) (rows options) (format options)
                 (colors options) (animate options) = Inr key \<and>
     (cache_lookup (cache_file_name key) fs = Inr (Some out, fs1) \<or>
      (cache_lookup (cache_file_name key) fs = Inr (None, fs) \<and>
       (\<exists>fs0 fs2. create_dir_all fs = Inr fs0 \<and> write_file (cache_file_name key) out fs0 = Inr fs2 \<and>
          enforce_cache_limit (max_bytes (cache_max_mb options)) fs2 = Inr fs1)))"
  using assms
  by (auto simp: render_image_def Let_def dest: cache_lookup_None
           split: sum.splits option.splits prod.splits if_splits)

text \<open>
  After a successful cached render, a render of the same image whose key is the
  same is a cache hit that returns the same text, provided the cache directory
  holds only files, may be written, and the text fits the budget.
\<close>

lemma render_then_holds:
  assumes inv: "cache_inv fs" and en: "cache_enabled options"
    and r1: "render_image e p options fs = (Inr out, fs1, spawned)"
    and nodirs: "\<forall>x\<in>set (files fs). \<not> edir x" and wr: "writable fs" and rd: "readable fs"
    and fits: "length out \<le> unat (max_bytes (cache_max_mb options))"
  shows "\<exists>key. cache_key (digest e) (image_meta e) p (cols options) (rows options) (format options)
                 (colors options) (animate options) = Inr key \<and> holds_entry (cache_file_name key) out fs1"
proof -
  from render_image_Inr_cached [OF r1 en] obtain key where
    key: "cache_key (digest e) (image_meta e) p (cols options) (rows options) (format options)
            (colors options) (animate options) = Inr key"
    and cases: "cache_lookup (cache_file_name key) fs = Inr (Some out, fs1) \<or>
      (cache_lookup (cache_file_name key) fs = Inr (None, fs) \<and>
       (\<exists>fs0 fs2. create_dir_all fs = Inr fs0 \<and> write_file (cache_file_name key) out fs0 = Inr fs2 \<and>
          enforce_cache_limit (max_bytes (cache_max_mb options)) fs2 = Inr fs1))"
    by blast
  have "\<exists>e''. lookup_entry (cache_file_name key) fs1 = Some e'' \<and> edata e'' = out \<and> \<not> edir e'' \<and>
           cache_inv fs1 \<and> readable fs1 \<and> writable fs1"
  proof (cases "cache_lookup (cache_file_name key) fs = Inr (Some out, fs1)")
    case True
    from cache_lookup_Some_entry [OF inv True] rd show ?thesis by auto
  next
    case False
    with cases obtain fs0 fs2 where c: "create_dir_all fs = Inr fs0"
      and w: "write_file (cache_file_name key) out fs0 = Inr fs2"
      and en2: "enforce_cache_limit (max_bytes (cache_max_mb options)) fs2 = Inr fs1"
      by blast
    have inv0: "cache_inv fs0" using inv c by (rule create_dir_all_inv)
    have "\<forall>x\<in>set (files fs0). \<not> edir x" using nodirs create_dir_all_files [OF c] by blast
    then have "\<forall>x\<in>set (files fs2). \<not> edir x" by (rule write_file_no_dirs [OF w])
    moreover have "writable fs2" using write_file_frame [OF w] create_dir_all_frame [OF c] wr by simp
    ultimately have rm: "\<forall>x\<in>set (files fs2). removable fs2 x" by (simp add: removable_def)
    from fresh_entry_survives_enforce [OF inv0 w en2 fits rm] create_dir_all_frame [OF c] rd wr
    show ?thesis by auto
  qed
  with key show ?thesis by (auto simp: holds_entry_def)
qed

lemma render_image_holds_hit:
  assumes "cache_enabled options"
    and "cache_key (digest e) (image_meta e) p (cols options) (rows options) (format options)
           (colors options) (animate options) = Inr key"
    and "holds_entry (cache_file_name key) out fs"
  shows "\<exists>fs'. render_image e p options fs = (Inr out, fs', []) \<and> holds_entry (cache_file_name key) out fs'"
  using holds_entry_hit [OF assms(3)] render_image_hit [OF assms(1,2)] by blast

lemma render_then_hit:
  assumes inv: "cache_inv fs" and en: "cache_enabled options"
    and r1: "render_image e p options fs = (Inr out, fs1, spawned)"
    and nodirs: "\<forall>x\<in>set (files fs). \<not> edir x" and wr: "writable fs" and rd: "readable fs"
    and fits: "length out \<le> unat (max_bytes (cache_max_mb options))"
    and same_key: "cache_key (digest e') (image_meta e') p (cols options) (rows options) (format options)
                     (colors options) (animate options) =
                   cache_key (digest e) (image_meta e) p (cols options) (rows options) (format options)
                     (colors options) (animate options)"
  shows "\<exists>fs2. render_image e' p options fs1 = (Inr out, fs2, [])"
proof -
  from render_then_holds [OF inv en r1 nodirs wr rd fits] obtain key where
    k: "cache_key (digest e) (image_meta e) p (cols options) (rows options) (format options)
          (colors options) (animate options) = Inr key" and h: "holds_entry (cache_file_name key) out fs1"
    by blast
  from render_image_holds_hit [OF en _ h, of e'] k same_key show ?thesis by auto
qed

lemma render_image_states:
  assumes "render_image e p options fs = (r, fs', spawned)"
  shows "fs' = fs \<or> (\<exists>n c. cache_lookup n fs = Inr (Some c, fs')) \<or> create_dir_all fs = Inr fs' \<or>
         (\<exists>fs0 n d err. create_dir_all fs = Inr fs0 \<and> write_file n d fs0 = Inr fs' \<and>
             enforce_cache_limit (max_bytes (cache_max_mb options)) fs' = Inl err) \<or>
         (\<exists>fs0 fs2 n d. create_dir_all fs = Inr fs0 \<and> write_file n d fs0 = Inr fs2 \<and>
             enforce_cache_limit (max_bytes (cache_max_mb options)) fs2 = Inr fs')"
proof (cases "cache_key (digest e) (image_meta e) p (cols options) (rows options) (format options)
                (colors options) (animate options)")
  case (Inl err)
  with assms show ?thesis by (simp add: render_image_def)
next
  case key: (Inr key)
  let ?n = "cache_file_name key"
  let ?hit = "if cache_enabled options then cache_lookup ?n fs else Inr (None, fs)"
  let ?rc = "run_chafa (run e) (chafa_path e) p (cols options) (rows options) (format options)
                (colors options) (animate options)"
  have unfold: "render_image e p options fs =
     (case ?hit of
        Inl err \<Rightarrow> (Inl (Cache_Error err), fs, [])
      | Inr (Some contents, fs') \<Rightarrow> (Inr contents, fs', [])
      | Inr (None, _) \<Rightarrow>
          (case ?rc of
             (spawned, Inl err) \<Rightarrow> (Inl (Render_Error err), fs, spawned)
           | (spawned, Inr output) \<Rightarrow>
               if cache_enabled options then
                 (case create_dir_all fs of
                    Inl err \<Rightarrow> (Inl (Cache_Error err), fs, spawned)
                  | Inr fs1 \<Rightarrow>
                      (case write_file ?n output fs1 of
                         Inl err \<Rightarrow> (Inl (Cache_Error err), fs1, spawned)
                       | Inr fs2 \<Rightarrow>
                           (case enforce_cache_limit (max_bytes (cache_max_mb options)) fs2 of
                              Inl err \<Rightarrow> (Inl (Cache_Error err), fs2, spawned)
                            | Inr fs3 \<Rightarrow> (Inr output, fs3, spawned))))
               else (Inr output, fs, spawned)))"
    using key by (simp add: render_image_def Let_def)
  show ?thesis
  proof (cases ?hit)
    case (Inl err)
    with assms unfold show ?thesis by simp
  next
    case hit: (Inr h)
    obtain c fsx where h: "h = (c, fsx)" by fastforce
    show ?thesis
    proof (cases c)
      case (Some contents)
      with assms unfold hit h show ?thesis by (auto split: if_splits)
    next
      case None
      obtain sp rr where rc: "?rc = (sp, rr)" by fastforce
      show ?thesis
      proof (cases rr)
        case (Inl err)
        with assms unfold hit h None rc show ?thesis by simp
      next
        case (Inr out)
        note run = assms unfold hit h None rc Inr
        show ?thesis
        proof (cases "cache_enabled options")
          case False
          with run show ?thesis by simp
        next
          case en: True
          show ?thesis
          proof (cases "create_dir_all fs")
            case (Inl err)
            with run en show ?thesis by simp
          next
            case c: (Inr fs1)
            show ?thesis
            proof (cases "write_file ?n out fs1")
              case (Inl err)
              with run en c show ?thesis by simp
            next
              case w: (Inr fs2)
              show ?thesis
              proof (cases "enforce_cache_limit (max_bytes (cache_max_mb options)) fs2")
                case (Inl err)
                with run en c w have "fs' = fs2" by simp
                with c w Inl show ?thesis by blast
              next
                case (Inr fs3)
                with run en c w have "fs' = fs3" by simp
                with c w Inr show ?thesis by blast
              qed
            qed
          qed
        qed
      qed
    qed
  qed
qed

text \<open>A render keeps a cache directory of files, readable and within the byte
  budget: a touch rewrites an entry with its own contents, and when a new entry
  is written, eviction can remove every entry.\<close>

lemma render_image_budget:
  assumes inv: "cache_inv fs" and rd: "readable fs" and nd: "\<forall>x\<in>set (files fs). \<not> edir x"
    and tot: "dir_total fs \<le> unat (max_bytes (cache_max_mb options))"
    and r: "render_image e p options fs = (res, fs', spawned)"
  shows "cache_inv fs' \<and> readable fs' \<and> (\<forall>x\<in>set (files fs'). \<not> edir x)
         \<and> dir_total fs' \<le> unat (max_bytes (cache_max_mb options))"
  using render_image_states [OF r]
proof (elim disjE exE conjE)
  assume "fs' = fs"
  with inv rd nd tot show ?thesis by simp
next
  fix n c assume l: "cache_lookup n fs = Inr (Some c, fs')"
  from cache_lookup_Some_entry [OF inv l] cache_lookup_total [OF inv l] nd rd tot show ?thesis
    by (auto simp: image_iff)
next
  assume c: "create_dir_all fs = Inr fs'"
  then have "files fs' = files fs \<and> readable fs' = readable fs"
    using inv by (auto simp: create_dir_all_def cache_inv_def split: if_splits)
  with create_dir_all_inv [OF inv c] rd nd tot show ?thesis by (simp add: dir_total_def)
next
  fix fs0 n d err
  assume c: "create_dir_all fs = Inr fs0" and w: "write_file n d fs0 = Inr fs'"
    and en: "enforce_cache_limit (max_bytes (cache_max_mb options)) fs' = Inl err"
  have "readable fs0 = readable fs" using c by (auto simp: create_dir_all_def split: if_splits)
  with write_file_frame [OF w] rd enforce_cache_limit_Inl [OF en] show ?thesis by simp
next
  fix fs0 fs2 n d
  assume c: "create_dir_all fs = Inr fs0" and w: "write_file n d fs0 = Inr fs2"
    and en: "enforce_cache_limit (max_bytes (cache_max_mb options)) fs2 = Inr fs'"
  have fs0: "files fs0 = files fs \<and> readable fs0 = readable fs"
    using c inv by (auto simp: create_dir_all_def cache_inv_def split: if_splits)
  have inv2: "cache_inv fs2" using write_file_inv [OF create_dir_all_inv [OF inv c] w] .
  have nd2: "\<forall>x\<in>set (files fs2). \<not> edir x" using write_file_no_dirs [OF w] nd fs0 by simp
  from enforce_within_budget_files [OF inv2 en _ nd2] write_file_frame [OF w]
    enforce_cache_limit_frame [OF inv2 en] enforce_cache_limit_inv [OF inv2 en] fs0 rd
  show ?thesis by simp
qed

section \<open>Properties of the pipeline\<close>

text \<open>C2: rendering the same request again after a successful cached render is a
  cache hit: it returns the same text and spawns no chafa process (when the cache
  directory holds only files, may be read and written, and the text fits the
  budget).\<close>

theorem render_second_call_hits:
  assumes "cache_inv fs" "cache_enabled options"
    and "render_image e p options fs = (Inr out, fs1, spawned)"
    and "\<forall>x\<in>set (files fs). \<not> edir x" "writable fs" "readable fs"
    and "length out \<le> unat (max_bytes (cache_max_mb options))"
  shows "\<exists>fs2. render_image e p options fs1 = (Inr out, fs2, [])"
  using render_then_hit [OF assms refl] .

text \<open>C25: the cache serves stale output when the image is replaced within the same
  second: the key sees only whole seconds of the modification time, so a render
  after the replacement returns the text cached for the old image, whatever chafa
  would now produce.\<close>

theorem render_serves_stale_within_second:
  assumes "cache_inv fs" "cache_enabled options"
    and "render_image e p options fs = (Inr out, fs1, spawned)"
    and "\<forall>x\<in>set (files fs). \<not> edir x" "writable fs" "readable fs"
    and "length out \<le> unat (max_bytes (cache_max_mb options))"
    and "image_meta e p = Some m" "image_meta e' p = Some m'"
    and "modified_ns m = Some t" "modified_ns m' = Some t'" "0 \<le> t" "0 \<le> t'"
    and "t div 1000000000 = t' div 1000000000"
    and "digest e' = digest e"
  shows "\<exists>fs2. render_image e' p options fs1 = (Inr out, fs2, [])"
proof -
  have secs: "mtime_secs m' = mtime_secs m" using assms(10-14) by (simp add: mtime_secs_def)
  have "cache_key (digest e') (image_meta e') p (cols options) (rows options) (format options)
          (colors options) (animate options) =
        cache_key (digest e) (image_meta e) p (cols options) (rows options) (format options)
          (colors options) (animate options)"
    using cache_key_same_second [of "image_meta e'" p m' "image_meta e" m "digest e'"] assms(8,9,15) secs
    by simp
  from render_then_hit [OF assms(1-7) this] show ?thesis .
qed

text \<open>When the image's metadata cannot be read, the render fails before it
  touches the cache or spawns chafa.\<close>

theorem render_missing_image:
  "image_meta e p = None \<Longrightarrow> render_image e p options fs = (Inl (Key_Error Image_Metadata), fs, [])"
  by (simp add: render_image_def cache_key_def)

text \<open>With caching disabled the cache directory is left untouched and the
  result is chafa's, errors included.\<close>

theorem render_uncached:
  assumes "\<not> cache_enabled options" "image_meta e p = Some m"
  shows "render_image e p options fs =
    (case run_chafa (run e) (chafa_path e) p (cols options) (rows options) (format options)
            (colors options) (animate options) of
       (spawned, Inl err) \<Rightarrow> (Inl (Render_Error err), fs, spawned)
     | (spawned, Inr out) \<Rightarrow> (Inr out, fs, spawned))"
  using assms by (simp add: render_image_def cache_key_def split: prod.splits sum.splits)

text \<open>C6: a cache write that fails after chafa succeeded fails the whole render,
  although the spec requires the rendered text to be returned regardless.\<close>

theorem render_fails_on_cache_write:
  assumes "cache_enabled options" "image_meta e p = Some m"
    and "\<not> path_exists (cache_file_name (to_hex (digest e (key_input p (mtime_secs m) (cols options)
            (rows options) (format options) (colors options) (animate options))))) fs"
    and "dir_exists fs" "\<not> writable fs"
    and "run_chafa (run e) (chafa_path e) p (cols options) (rows options) (format options)
           (colors options) (animate options) = (spawned, Inr out)"
  shows "render_image e p options fs = (Inl (Cache_Error WriteEntry), fs, spawned)"
  using assms
  by (simp add: render_image_def cache_key_def cache_lookup_def create_dir_all_def write_file_def)

text \<open>C26: on a cache hit in a directory that cannot be written, the failed touch
  fails the render although the cached text was read; chafa is not tried.\<close>

theorem render_fails_on_touch:
  assumes "cache_enabled options" "image_meta e p = Some m"
    and "lookup_entry (cache_file_name (to_hex (digest e (key_input p (mtime_secs m) (cols options)
            (rows options) (format options) (colors options) (animate options))))) fs = Some x"
    and "\<not> edir x" "readable fs" "\<not> writable fs"
  shows "render_image e p options fs = (Inl (Cache_Error WriteEntry), fs, [])"
  using assms
  by (simp add: render_image_def cache_key_def cache_lookup_def path_exists_def read_to_string_def
                write_file_def)

text \<open>The byte budget is the configured number of mebibytes times 1048576 as
  long as that product fits in 64 bits.\<close>

theorem max_bytes_exact:
  assumes "unat mb < 2 ^ 44"
  shows "unat (max_bytes mb) = unat mb * 1048576"
proof -
  have "unat mb * 1024 < 2 ^ 64" "unat mb * 1024 * 1024 < 2 ^ 64" using assms by simp_all
  then show ?thesis by (simp add: max_bytes_def unat_word_ariths)
qed

text \<open>C23: a configured cache size of 2 to the 44 mebibytes wraps the byte budget to
  zero, so a render that misses the cache deletes the entry it has just written.\<close>

theorem render_huge_budget_evicts_output:
  assumes inv: "cache_inv fs" and en: "cache_enabled options"
    and mb: "cache_max_mb options = 17592186044416"
    and r: "render_image e p options fs = (Inr out, fs1, spawned)"
    and key: "cache_key (digest e) (image_meta e) p (cols options) (rows options) (format options)
                (colors options) (animate options) = Inr key"
    and miss: "\<not> path_exists (cache_file_name key) fs"
    and ne: "out \<noteq> []" and nodirs: "\<forall>x\<in>set (files fs). \<not> edir x" and wr: "writable fs"
  shows "\<not> path_exists (cache_file_name key) fs1"
proof
  assume ex: "path_exists (cache_file_name key) fs1"
  have zero: "max_bytes (cache_max_mb options) = 0" by (simp add: mb max_bytes_def)
  from miss have lk: "cache_lookup (cache_file_name key) fs = Inr (None, fs)" by (rule cache_lookup_miss)
  from render_image_Inr_cached [OF r en] key lk obtain fs0 fs2 where c: "create_dir_all fs = Inr fs0"
    and w: "write_file (cache_file_name key) out fs0 = Inr fs2"
    and en': "enforce_cache_limit (max_bytes (cache_max_mb options)) fs2 = Inr fs1"
    by auto
  from en' have en2: "enforce_cache_limit 0 fs2 = Inr fs1" by (simp only: zero)
  have inv0: "cache_inv fs0" using inv c by (rule create_dir_all_inv)
  have inv2: "cache_inv fs2" using inv0 w by (rule write_file_inv)
  from write_file_lookup [OF inv0 w] obtain y where y: "lookup_entry (cache_file_name key) fs2 = Some y"
    "edata y = out" "\<not> edir y" by blast
  have "\<forall>x\<in>set (files fs0). \<not> edir x" using nodirs create_dir_all_files [OF c] by blast
  then have "\<forall>x\<in>set (files fs2). \<not> edir x" by (rule write_file_no_dirs [OF w])
  moreover have "writable fs2" using write_file_frame [OF w] create_dir_all_frame [OF c] wr by simp
  moreover note fr = enforce_cache_limit_frame [OF inv2 en2]
  ultimately have rm: "\<forall>x\<in>set (files fs1). removable fs1 x"
    unfolding removable_def by blast
  from ex obtain z where z: "lookup_entry (cache_file_name key) fs1 = Some z"
    by (auto simp: path_exists_def)
  have inv1: "cache_inv fs1" using inv2 en2 by (rule enforce_cache_limit_inv)
  have z_in: "z \<in> set (files fs1)" "ename z = cache_file_name key"
    using z lookup_entry_Some_iff [of fs1] inv1 by (simp_all add: cache_inv_def)
  have y_in: "y \<in> set (files fs2)" "ename y = cache_file_name key"
    using y(1) lookup_entry_Some_iff [of fs2] inv2 by (simp_all add: cache_inv_def)
  have inj: "inj_on ename (set (files fs2))" using inv2 by (simp add: cache_inv_def distinct_map)
  have "z \<in> set (files fs2)" using fr z_in(1) by blast
  from inj_onD [OF inj _ this y_in(1)] z_in(2) y_in(2) have "z = y" by simp
  from enforce_total_or_stuck [OF inv2 en2] rm z_in have "dir_total fs1 \<le> 0" by auto
  moreover have "esize z \<le> dir_total fs1"
    using z_in(1) by (simp add: dir_total_def member_le_sum_list)
  moreover have "esize z = length out" using inv1 z_in(1) \<open>z = y\<close> y(2,3)
    by (simp add: cache_inv_def)
  ultimately show False using ne by simp
qed

section \<open>Witnesses\<close>

lemma eq_char_of_iff: "(c = char_of n) = (take_bit 8 n = (of_char c :: nat))"
  by (metis char_of_eq_iff)

lemmas demo_render_defs = eq_char_of_iff render_image_def cache_key_def key_input_def cache_file_name_def
  cache_file_ext_def to_hex_def hex_digit_def char_of_eq_iff cache_lookup_def path_exists_def
  lookup_entry_def demo_cache_def run_chafa_def run_chafa_once_def create_dir_all_def
  write_file_def enforce_cache_limit_def max_bytes_def string_bytes_def read_to_string_def

lemma demo_first_render:
  "\<exists>fs1 sp. render_image demo_env ''cat.png'' demo_opts demo_cache = (Inr ''IMG'', fs1, sp)"
  by (simp add: demo_render_defs)

lemma demo_cache_facts:
  "\<forall>x\<in>set (files demo_cache). \<not> edir x" "writable demo_cache" "readable demo_cache"
  "length ''IMG'' \<le> unat (max_bytes (cache_max_mb demo_opts))"
  by (simp_all add: demo_cache_def max_bytes_def)

theorem render_second_call_hits_witness:
  "\<exists>fs1 sp fs2. render_image demo_env ''cat.png'' demo_opts demo_cache = (Inr ''IMG'', fs1, sp) \<and>
     render_image demo_env ''cat.png'' demo_opts fs1 = (Inr ''IMG'', fs2, [])"
proof -
  obtain fs1 sp where r: "render_image demo_env ''cat.png'' demo_opts demo_cache = (Inr ''IMG'', fs1, sp)"
    using demo_first_render by blast
  from render_second_call_hits [OF demo_cache_inv _ r demo_cache_facts] r show ?thesis by auto
qed

theorem render_serves_stale_within_second_witness:
  "\<exists>fs1 sp fs2. render_image demo_env ''cat.png'' demo_opts demo_cache = (Inr ''IMG'', fs1, sp) \<and>
     render_image replaced_env ''cat.png'' demo_opts fs1 = (Inr ''IMG'', fs2, []) \<and>
     snd (run_chafa (run replaced_env) ''chafa'' ''cat.png'' 40 10 Format_Auto Colors_Auto False) = Inr ''NEW''"
proof -
  obtain fs1 sp where r: "render_image demo_env ''cat.png'' demo_opts demo_cache = (Inr ''IMG'', fs1, sp)"
    using demo_first_render by blast
  have "\<exists>fs2. render_image replaced_env ''cat.png'' demo_opts fs1 = (Inr ''IMG'', fs2, [])"
    by (rule render_serves_stale_within_second [where t = 1700000000200000000 and t' = 1700000000700000000
          and m = "\<lparr>modified_ns = Some 1700000000200000000\<rparr>" and m' = "\<lparr>modified_ns = Some 1700000000700000000\<rparr>",
          OF demo_cache_inv _ r demo_cache_facts]) simp_all
  with r show ?thesis by (auto simp: run_chafa_def run_chafa_once_def)
qed

theorem render_missing_image_witness:
  "render_image (demo_env\<lparr>image_meta := (\<lambda>_. None)\<rparr>) ''gone.png'' demo_opts demo_cache =
     (Inl (Key_Error Image_Metadata), demo_cache, [])"
  by (rule render_missing_image) simp

theorem render_uncached_witness:
  "render_image demo_env ''cat.png'' (demo_opts\<lparr>cache_enabled := False\<rparr>) demo_cache =
     (Inr ''IMG'', demo_cache, [chafa_args ''cat.png'' 40 10 Format_Auto Colors_Auto False])"
proof -
  have "render_image demo_env ''cat.png'' (demo_opts\<lparr>cache_enabled := False\<rparr>) demo_cache =
    (case run_chafa (run demo_env) (chafa_path demo_env) ''cat.png'' 40 10 Format_Auto Colors_Auto False of
       (spawned, Inl err) \<Rightarrow> (Inl (Render_Error err), demo_cache, spawned)
     | (spawned, Inr out) \<Rightarrow> (Inr out, demo_cache, spawned))"
    using render_uncached [where options = "demo_opts\<lparr>cache_enabled := False\<rparr>" and e = demo_env
        and p = "''cat.png''" and m = "\<lparr>modified_ns = Some 1700000000200000000\<rparr>" and fs = demo_cache]
    by simp
  then show ?thesis by (simp add: run_chafa_def run_chafa_once_def)
qed

theorem render_fails_on_cache_write_witness:
  "\<exists>sp. render_image demo_env ''cat.png'' demo_opts readonly_cache = (Inl (Cache_Error WriteEntry), readonly_cache, sp)"
proof -
  have "render_image demo_env ''cat.png'' demo_opts readonly_cache =
     (Inl (Cache_Error WriteEntry), readonly_cache,
      fst (run_chafa (run demo_env) ''chafa'' ''cat.png'' 40 10 Format_Auto Colors_Auto False))"
    by (rule render_fails_on_cache_write [where m = "\<lparr>modified_ns = Some 1700000000200000000\<rparr>"])
       (simp_all add: demo_render_defs)
  then show ?thesis by blast
qed

theorem render_fails_on_touch_witness:
  "render_image demo_env ''cat.png'' demo_opts (readonly_cache\<lparr>files := [stale_entry]\<rparr>) =
     (Inl (Cache_Error WriteEntry), readonly_cache\<lparr>files := [stale_entry]\<rparr>, [])"
  by (rule render_fails_on_touch [where m = "\<lparr>modified_ns = Some 1700000000200000000\<rparr>" and x = stale_entry])
     (simp_all add: demo_render_defs)

theorem max_bytes_exact_witness:
  "unat (max_bytes 64) = 67108864"
  using max_bytes_exact [of 64] by simp

lemma demo_huge_render:
  "\<exists>fs1 sp. render_image demo_env ''cat.png'' (demo_opts\<lparr>cache_max_mb := 17592186044416\<rparr>) demo_cache
     = (Inr ''IMG'', fs1, sp)"
  by (simp add: demo_render_defs remove_file_def removable_def)

theorem render_huge_budget_evicts_output_witness:
  "\<exists>fs1 sp. render_image demo_env ''cat.png'' (demo_opts\<lparr>cache_max_mb := 17592186044416\<rparr>) demo_cache
     = (Inr ''IMG'', fs1, sp) \<and> \<not> path_exists ''28.txt'' fs1"
proof -
  obtain fs1 sp where r: "render_image demo_env ''cat.png'' (demo_opts\<lparr>cache_max_mb := 17592186044416\<rparr>)
      demo_cache = (Inr ''IMG'', fs1, sp)"
    using demo_huge_render by blast
  have key: "cache_key (digest demo_env) (image_meta demo_env) ''cat.png'' 40 10 Format_Auto Colors_Auto False
               = Inr ''28''"
    by (simp add: cache_key_def key_input_def to_hex_def hex_digit_def char_of_eq_iff string_bytes_def)
  have name: "cache_file_name ''28'' = ''28.txt''" by (simp add: cache_file_name_def cache_file_ext_def)
  have miss: "\<not> path_exists (cache_file_name ''28'') demo_cache"
    by (simp add: name path_exists_def lookup_entry_def demo_cache_def)
  from render_huge_budget_evicts_output [OF demo_cache_inv _ _ r _ miss _ demo_cache_facts(1,2)] key r name
  show ?thesis by auto
qed

end
