(* ===== verification/Bubble.thy ===== *)
theory Bubble
  imports Prelude
begin

text \<open>
  The speech bubble of \<^verbatim>\<open>src/main.rs\<close>: \<open>render_bubble\<close> and \<open>pad_line\<close>.
  A Rust \<open>&str\<close> is its UTF-8 byte sequence, here a \<open>string\<close> whose
  characters are bytes, so that \<open>length\<close> is Rust's \<open>str::len\<close>. The
  terminal width is a \<open>usize\<close> taken as \<open>nat\<close>: the code only compares it and
  subtracts with \<open>saturating_sub\<close>, which is truncated subtraction on \<open>nat\<close>.
  The word wrapper \<open>textwrap::wrap\<close> is a library the code calls; it is a
  parameter \<open>wrap\<close>, with the contract \<open>wrap_within\<close> that no line exceeds the
  requested display width, which is its byte length on printable ASCII text, and \<open>wrap_greedy\<close> is a first-fit wrapper that meets the
  contract and instantiates the lemmas.
\<close>

section \<open>Layout of the bubble\<close>

definition padding :: nat where
  "padding = 4"

definition DEFAULT_BUBBLE_MAX_WIDTH :: nat where
  "DEFAULT_BUBBLE_MAX_WIDTH = 60"

type_synonym wrapper = "string \<Rightarrow> nat \<Rightarrow> string list"

definition pad_line :: "string \<Rightarrow> nat \<Rightarrow> string" where
  "pad_line line width =
     (if length line < width then line @ replicate (width - length line) (CHR '' '') else line)"

text \<open>The side characters of line \<open>idx\<close> of a bubble of \<open>len > 1\<close> lines; the
  backslash is \<open>CHR 0x5C\<close>.\<close>

definition side_chars :: "nat \<Rightarrow> nat \<Rightarrow> char \<times> char" where
  "side_chars idx len =
     (if idx = 0 then (CHR ''/'', CHR 0x5C)
      else if idx + 1 = len then (CHR 0x5C, CHR ''/'')
      else (CHR ''|'', CHR ''|''))"

text \<open>\<open>format!("{left} {} {right}", pad_line(line, max_line_len))\<close>\<close>

definition framed :: "char \<Rightarrow> string \<Rightarrow> nat \<Rightarrow> char \<Rightarrow> string" where
  "framed left line m right = left # CHR '' '' # pad_line line m @ [CHR '' '', right]"

definition max_line_len :: "string list \<Rightarrow> nat" where
  "max_line_len wrapped = foldr max (map length wrapped) 0"

definition border :: "char \<Rightarrow> nat \<Rightarrow> string" where
  "border c m = CHR '' '' # replicate (m + 2) c"

text \<open>The content lines: \<open>< line >\<close> for a single wrapped line, otherwise
  framed by the side characters of each position.\<close>

definition bubble_body :: "string list \<Rightarrow> nat \<Rightarrow> string list" where
  "bubble_body wrapped m =
     (if length wrapped = 1 then [framed (CHR ''<'') (hd wrapped) m (CHR ''>'')]
      else map (\<lambda>(idx, line). case side_chars idx (length wrapped) of (l, r) \<Rightarrow> framed l line m r)
             (enumerate 0 wrapped))"

definition render_bubble :: "wrapper \<Rightarrow> string \<Rightarrow> nat \<Rightarrow> string list" where
  "render_bubble wrap msg term_cols =
     (if term_cols \<le> padding + 10 then [msg]
      else
        let bubble_width = min (term_cols - padding) DEFAULT_BUBBLE_MAX_WIDTH;
            wrapped = wrap msg bubble_width
        in if wrapped = [] then []
           else
             let m = max_line_len wrapped
             in border (CHR ''_'') m # bubble_body wrapped m @ [border (CHR ''-'') m])"

text \<open>The side characters of content line \<open>i\<close> of a bubble of \<open>n\<close> lines.\<close>

definition line_sides :: "nat \<Rightarrow> nat \<Rightarrow> char \<times> char" where
  "line_sides n i = (if n = 1 then (CHR ''<'', CHR ''>'') else side_chars i n)"

text \<open>Display width of a UTF-8 byte string for text without wide characters: the
  number of bytes that start a code point (continuation bytes are 0x80 to 0xBF).\<close>

definition utf8_width :: "string \<Rightarrow> nat" where
  "utf8_width s = length (filter (\<lambda>c. of_char c < (128::nat) \<or> 192 \<le> (of_char c :: nat)) s)"

section \<open>The wrapper's contract and a first-fit wrapper\<close>

text \<open>Printable ASCII: every byte is a character of display width one, so that
  the display width textwrap measures is the byte length render_bubble measures.\<close>

definition ascii_printable :: "string \<Rightarrow> bool" where
  "ascii_printable s \<longleftrightarrow> list_all (\<lambda>c. 32 \<le> (of_char c :: nat) \<and> (of_char c :: nat) < 127) s"

text \<open>\<open>textwrap::wrap\<close> keeps the display width of every line within the width
  it is given. Its lines are pieces of the text, so on printable ASCII text, where
  display width and byte length agree, every line is at most that many bytes long;
  on other text the contract says nothing about byte lengths (a line of twenty
  two-byte characters is 20 columns but 40 bytes).\<close>

definition wrap_within :: "wrapper \<Rightarrow> bool" where
  "wrap_within wrap \<longleftrightarrow>
     (\<forall>msg w. 0 < w \<longrightarrow> ascii_printable msg \<longrightarrow> (\<forall>l\<in>set (wrap msg w). length l \<le> w))"

text \<open>\<open>textwrap::wrap\<close> returns at least one line, an empty one for an empty text.\<close>

definition wrap_nonempty :: "wrapper \<Rightarrow> bool" where
  "wrap_nonempty wrap \<longleftrightarrow> (\<forall>msg w. wrap msg w \<noteq> [])"

fun split_words :: "string \<Rightarrow> string \<Rightarrow> string list" where
  "split_words cur [] = (if cur = [] then [] else [cur])"
| "split_words cur (c # cs) =
     (if c = CHR '' '' then (if cur = [] then split_words [] cs else cur # split_words [] cs)
      else split_words (cur @ [c]) cs)"

function chunks :: "nat \<Rightarrow> string \<Rightarrow> string list" where
  "chunks w s = (if w = 0 \<or> length s \<le> w then [s] else take w s # chunks w (drop w s))"
  by pat_completeness auto
termination
  by (relation "measure (\<lambda>(w, s). length s)") auto

declare chunks.simps [simp del]

fun fill :: "nat \<Rightarrow> string \<Rightarrow> string list \<Rightarrow> string list" where
  "fill w cur [] = [cur]"
| "fill w cur (x # xs) =
     (if cur = [] then fill w x xs
      else if length cur + 1 + length x \<le> w then fill w (cur @ CHR '' '' # x) xs
      else cur # fill w x xs)"

definition wrap_greedy :: wrapper where
  "wrap_greedy msg w = fill w [] (concat (map (chunks w) (split_words [] msg)))"

text \<open>Five two-byte UTF-8 characters (e with acute accent, bytes 0xC3 0xA9).\<close>

abbreviation e_acute5 :: string where
  "e_acute5 \<equiv> concat (replicate 5 [CHR 0xC3, CHR 0xA9])"

section \<open>Lemmas on the layout\<close>

lemma max_line_len_ge: "l \<in> set ws \<Longrightarrow> length l \<le> max_line_len ws"
  by (induction ws) (auto simp: max_line_len_def)

lemma max_line_len_le: "\<forall>l\<in>set ws. length l \<le> k \<Longrightarrow> max_line_len ws \<le> k"
  by (induction ws) (auto simp: max_line_len_def)

lemma pad_line_eq: "length l \<le> m \<Longrightarrow> pad_line l m = l @ replicate (m - length l) (CHR '' '')"
  by (simp add: pad_line_def)

lemma length_framed: "length l \<le> m \<Longrightarrow> length (framed a l m b) = m + 4"
  by (simp add: framed_def pad_line_eq)

lemma length_border [simp]: "length (border c m) = m + 3"
  by (simp add: border_def)

lemma bubble_body_nth:
  "i < length ws \<Longrightarrow>
     bubble_body ws m ! i = framed (fst (line_sides (length ws) i)) (ws ! i) m (snd (line_sides (length ws) i))"
  by (cases "length ws = 1")
     (auto simp: bubble_body_def line_sides_def nth_enumerate_eq length_Suc_conv split: prod.splits)

lemma length_bubble_body [simp]: "ws \<noteq> [] \<Longrightarrow> length (bubble_body ws m) = length ws"
  by (auto simp: bubble_body_def length_Suc_conv)

lemma set_bubble_body:
  "ws \<noteq> [] \<Longrightarrow> l \<in> set (bubble_body ws m) \<Longrightarrow> \<exists>i<length ws. l = bubble_body ws m ! i"
  by (metis in_set_conv_nth length_bubble_body)

lemma render_bubble_wide:
  assumes "padding + 10 < term_cols" "wrap msg (min (term_cols - padding) DEFAULT_BUBBLE_MAX_WIDTH) = ws"
    and "ws \<noteq> []"
  shows "render_bubble wrap msg term_cols =
           border (CHR ''_'') (max_line_len ws) # bubble_body ws (max_line_len ws) @
           [border (CHR ''-'') (max_line_len ws)]"
  using assms by (simp add: render_bubble_def Let_def)

lemma render_bubble_nth_body:
  assumes "padding + 10 < term_cols" "wrap msg (min (term_cols - padding) DEFAULT_BUBBLE_MAX_WIDTH) = ws"
    and "ws \<noteq> []" "i < length ws"
  shows "render_bubble wrap msg term_cols ! Suc i = bubble_body ws (max_line_len ws) ! i"
  using assms by (simp add: render_bubble_wide nth_append)

lemma length_bubble_body_nth:
  "i < length ws \<Longrightarrow> length (bubble_body ws (max_line_len ws) ! i) = max_line_len ws + 4"
  by (simp add: bubble_body_nth length_framed max_line_len_ge)

lemma max_line_len_mem: "ws \<noteq> [] \<Longrightarrow> \<exists>l\<in>set ws. length l = max_line_len ws"
proof (induction ws)
  case (Cons w ws)
  then show ?case by (cases "ws = []") (auto simp: max_line_len_def max_def)
qed simp

lemma render_bubble_lines:
  assumes "padding + 10 < term_cols" "wrap msg (min (term_cols - padding) DEFAULT_BUBBLE_MAX_WIDTH) = ws"
    and "l \<in> set (render_bubble wrap msg term_cols)"
  shows "ws \<noteq> [] \<and> (length l = max_line_len ws + 3 \<or> length l = max_line_len ws + 4)"
proof -
  have ne: "ws \<noteq> []" using assms by (auto simp: render_bubble_def Let_def)
  with assms have "l = border (CHR ''_'') (max_line_len ws) \<or> l = border (CHR ''-'') (max_line_len ws)
      \<or> l \<in> set (bubble_body ws (max_line_len ws))"
    by (auto simp: render_bubble_wide)
  with ne show ?thesis by (auto dest!: set_bubble_body simp: length_bubble_body_nth)
qed

subsection \<open>The first-fit wrapper meets the contract\<close>

lemma chunks_within: "0 < w \<Longrightarrow> p \<in> set (chunks w s) \<Longrightarrow> length p \<le> w"
proof (induction w s rule: chunks.induct)
  case (1 w s)
  then show ?case by (subst (asm) chunks.simps) (auto split: if_splits)
qed

lemma fill_within:
  "length cur \<le> w \<Longrightarrow> \<forall>x\<in>set xs. length x \<le> w \<Longrightarrow> l \<in> set (fill w cur xs) \<Longrightarrow> length l \<le> w"
proof (induction xs arbitrary: cur)
  case (Cons x xs)
  then show ?case
    using Cons.IH [of x] Cons.IH [of "cur @ CHR '' '' # x"] by (auto split: if_splits)
qed simp

lemma wrap_greedy_within: "wrap_within wrap_greedy"
  unfolding wrap_within_def
proof (intro allI impI ballI)
  fix msg w l
  assume w: "0 < w" and l: "l \<in> set (wrap_greedy msg w)"
  have "\<forall>x\<in>set (concat (map (chunks w) (split_words [] msg))). length x \<le> w"
    using chunks_within [OF w] by auto
  then show "length l \<le> w"
    using fill_within [of "[]" w "concat (map (chunks w) (split_words [] msg))" l] l
    by (simp add: wrap_greedy_def)
qed

lemma fill_nonempty: "fill w cur xs \<noteq> []"
  by (induction xs arbitrary: cur) auto

lemma wrap_greedy_nonempty: "wrap_nonempty wrap_greedy"
  by (simp add: wrap_nonempty_def wrap_greedy_def fill_nonempty)

section \<open>Properties of the bubble\<close>

lemma render_bubble_within:
  assumes "wrap_within wrap" "padding + 10 < term_cols" "ascii_printable msg"
    and "l \<in> set (render_bubble wrap msg term_cols)"
  shows "length l \<le> term_cols"
proof -
  define ws where "ws = wrap msg (min (term_cols - padding) DEFAULT_BUBBLE_MAX_WIDTH)"
  have "0 < min (term_cols - padding) DEFAULT_BUBBLE_MAX_WIDTH"
    using assms(2) by (simp add: padding_def DEFAULT_BUBBLE_MAX_WIDTH_def)
  with assms(1,3) have "\<forall>l\<in>set ws. length l \<le> min (term_cols - padding) DEFAULT_BUBBLE_MAX_WIDTH"
    unfolding wrap_within_def ws_def by blast
  then have "max_line_len ws + 4 \<le> term_cols"
    using assms(2) max_line_len_le by (fastforce simp: padding_def)
  with render_bubble_lines [OF assms(2) ws_def [symmetric] assms(4)] show ?thesis by auto
qed

lemma render_bubble_nonempty: "wrap_nonempty wrap \<Longrightarrow> render_bubble wrap msg term_cols \<noteq> []"
  by (simp add: render_bubble_def wrap_nonempty_def Let_def)

text \<open>When the wrapper keeps every line within the width it is given, the
  message is printable ASCII and the terminal is wider than padding plus 10
  columns, every line of the bubble fits the terminal.\<close>

theorem render_bubble_fits:
  assumes "wrap_within wrap" "padding + 10 < term_cols" "ascii_printable msg"
    and "l \<in> set (render_bubble wrap msg term_cols)"
  shows "length l \<le> term_cols"
  using render_bubble_within [OF assms] .

text \<open>C10: on a wide terminal with a non-empty wrapping the bubble has two border
  lines around one content line per wrapped line; its width is the longest wrapped
  line's length m: the borders are a space and m + 2 underscores (top) or dashes
  (bottom), and every content line is m + 4 bytes long.\<close>

theorem render_bubble_shape:
  assumes "padding + 10 < term_cols" "wrap msg (min (term_cols - padding) DEFAULT_BUBBLE_MAX_WIDTH) = ws"
    and "ws \<noteq> []" "render_bubble wrap msg term_cols = b"
  shows "length b = length ws + 2
       \<and> (\<exists>l\<in>set ws. length l = max_line_len ws) \<and> (\<forall>l\<in>set ws. length l \<le> max_line_len ws)
       \<and> hd b = CHR '' '' # replicate (max_line_len ws + 2) (CHR ''_'')
       \<and> last b = CHR '' '' # replicate (max_line_len ws + 2) (CHR ''-'')
       \<and> (\<forall>i<length ws. length (b ! Suc i) = max_line_len ws + 4)"
proof -
  have b: "b = border (CHR ''_'') (max_line_len ws) # bubble_body ws (max_line_len ws) @
               [border (CHR ''-'') (max_line_len ws)]"
    using assms by (simp add: render_bubble_wide)
  have "\<forall>i<length ws. length (b ! Suc i) = max_line_len ws + 4"
    using b assms(3) by (simp add: nth_append length_bubble_body_nth)
  then show ?thesis
    using b assms(3) by (simp add: max_line_len_mem max_line_len_ge border_def)
qed

text \<open>Content line i of the bubble shows wrapped line i intact after its left
  side character and a space, padded with spaces to the longest line, then a space
  and the right side character: angle brackets for a single line, slash and
  backslash on the first line, backslash and slash on the last, bars between.\<close>

theorem render_bubble_line_content:
  assumes "padding + 10 < term_cols" "wrap msg (min (term_cols - padding) DEFAULT_BUBBLE_MAX_WIDTH) = ws"
    and "i < length ws"
  shows "render_bubble wrap msg term_cols ! Suc i =
           fst (line_sides (length ws) i) # CHR '' '' # ws ! i @
           replicate (max_line_len ws - length (ws ! i)) (CHR '' '') @
           [CHR '' '', snd (line_sides (length ws) i)]"
proof -
  have "ws \<noteq> []" using assms(3) by auto
  from render_bubble_nth_body [of term_cols wrap msg ws i, OF assms(1,2) this assms(3)] assms(3) show ?thesis
    by (simp add: bubble_body_nth framed_def pad_line_eq max_line_len_ge)
qed

text \<open>On a terminal at most padding plus 10 columns wide the message is returned
  as its single line, unwrapped and unframed.\<close>

theorem render_bubble_narrow:
  assumes "term_cols \<le> padding + 10"
  shows "render_bubble wrap msg term_cols = [msg]"
  using assms by (simp add: render_bubble_def)

text \<open>C34: widths are counted in bytes, so a wrapped line with multi-byte characters
  is padded too little: on a 15-column terminal a line of five accented letters and
  a line of ten ASCII letters (both ten bytes) give content lines 9 and 14 columns
  wide, and the right border no longer lines up.\<close>

theorem render_bubble_utf8_misaligned:
  assumes "wrap msg 11 = [e_acute5, ''abcdefghij'']"
  shows "utf8_width (render_bubble wrap msg 15 ! 1) = 9 \<and> utf8_width (render_bubble wrap msg 15 ! 2) = 14"
proof -
  have "min (15 - padding) DEFAULT_BUBBLE_MAX_WIDTH = 11"
    by (simp add: padding_def DEFAULT_BUBBLE_MAX_WIDTH_def)
  then have w: "wrap msg (min (15 - padding) DEFAULT_BUBBLE_MAX_WIDTH) = [e_acute5, ''abcdefghij'']"
    using assms by simp
  have c: "padding + 10 < (15::nat)" by (simp add: padding_def)
  have m: "max_line_len [e_acute5, ''abcdefghij''] = 10" by code_simp
  have l1: "render_bubble wrap msg 15 ! 1 = framed (CHR ''/'') e_acute5 10 (CHR 0x5C)"
    using render_bubble_nth_body [of 15 wrap msg "[e_acute5, ''abcdefghij'']" 0, OF c w]
    by (simp add: bubble_body_nth m line_sides_def side_chars_def)
  have l2: "render_bubble wrap msg 15 ! 2 = framed (CHR 0x5C) ''abcdefghij'' 10 (CHR ''/'')"
    using render_bubble_nth_body [of 15 wrap msg "[e_acute5, ''abcdefghij'']" 1, OF c w]
    by (simp add: bubble_body_nth m line_sides_def side_chars_def numeral_2_eq_2)
  have "utf8_width (framed (CHR ''/'') e_acute5 10 (CHR 0x5C)) = 9" by code_simp
  moreover have "utf8_width (framed (CHR 0x5C) ''abcdefghij'' 10 (CHR ''/'')) = 14" by code_simp
  ultimately show ?thesis unfolding l1 l2 ..
qed

section \<open>Witnesses\<close>

lemma wrap_greedy_hello: "wrap_greedy ''hello world from leftysay'' 36 = [''hello world from leftysay'']"
  by code_simp

lemma wrap_greedy_accents: "wrap_greedy (e_acute5 @ '' abcdefghij'') 11 = [e_acute5, ''abcdefghij'']"
  by code_simp

lemmas bubble_consts = padding_def DEFAULT_BUBBLE_MAX_WIDTH_def

theorem render_bubble_fits_witness:
  "length (last (render_bubble wrap_greedy ''hello world from leftysay'' 40)) \<le> 40"
proof (rule render_bubble_fits [OF wrap_greedy_within])
  show "padding + 10 < (40::nat)" by (simp add: padding_def)
  show "ascii_printable ''hello world from leftysay''" by (simp add: ascii_printable_def)
  show "last (render_bubble wrap_greedy ''hello world from leftysay'' 40)
          \<in> set (render_bubble wrap_greedy ''hello world from leftysay'' 40)"
    by (simp add: render_bubble_def Let_def bubble_consts wrap_greedy_hello)
qed

theorem render_bubble_shape_witness:
  "length (render_bubble wrap_greedy ''hello world from leftysay'' 40) = 3
   \<and> hd (render_bubble wrap_greedy ''hello world from leftysay'' 40) = '' ___________________________''
   \<and> last (render_bubble wrap_greedy ''hello world from leftysay'' 40) = '' ---------------------------''"
  using render_bubble_shape [OF _ _ _ refl, of 40 wrap_greedy "''hello world from leftysay''" "[''hello world from leftysay'']"]
  by (simp add: bubble_consts wrap_greedy_hello max_line_len_def)

theorem render_bubble_line_content_witness:
  "render_bubble wrap_greedy ''hello world from leftysay'' 40 ! 1 = ''< hello world from leftysay >''"
  using render_bubble_line_content [of 40 wrap_greedy "''hello world from leftysay''" "[''hello world from leftysay'']" 0]
  by (simp add: bubble_consts wrap_greedy_hello max_line_len_def line_sides_def)

theorem render_bubble_narrow_witness:
  "render_bubble wrap_greedy ''hello world from leftysay'' 14 = [''hello world from leftysay'']"
  by (rule render_bubble_narrow) (simp add: padding_def)

theorem render_bubble_utf8_misaligned_witness:
  "utf8_width (render_bubble wrap_greedy (e_acute5 @ '' abcdefghij'') 15 ! 1) = 9
   \<and> utf8_width (render_bubble wrap_greedy (e_acute5 @ '' abcdefghij'') 15 ! 2) = 14"
  by (rule render_bubble_utf8_misaligned) (rule wrap_greedy_accents)

end
