(* ===== verification/Row_Budget.thy ===== *)
theory Row_Budget
  imports Prelude "HOL-Library.Code_Target_Nat"
begin

text \<open>
  The height given to the image (\<^verbatim>\<open>src/main.rs\<close>, \<open>main\<close>): the cap
  \<open>((term_rows as f32) * max_height_ratio).floor() as usize\<close>, the rows left
  below the bubble and a separator line, and the result
  \<open>min(max_image_rows, remaining_rows).max(1)\<close>; with it the validation of the
  configured ratio in \<open>load_config\<close>.

  The ratio is an \<open>f32\<close>, and the cap depends on its rounding, so \<open>f32\<close> is
  modelled exactly: a finite value \<open>Finite m e\<close> is \<open>m * 2^e\<close>, and the
  product is rounded to nearest, ties to even, to a 24-bit significand with the
  least exponent -149 of the subnormals; a product of 2^128 or more is an
  infinity. \<open>as usize\<close> saturates: NaN and negative values give 0, large values
  \<open>usize::MAX\<close>. The sign of zero is not kept: no operation here observes it.
  Row counts are \<open>usize\<close> taken as \<open>nat\<close>; the only subtraction is
  \<open>saturating_sub\<close>, truncated subtraction on \<open>nat\<close>, and \<open>bubble_height + 1\<close>
  cannot overflow since a vector's length is below \<open>isize::MAX\<close>.
\<close>

section \<open>Single-precision floats\<close>

datatype f32 = Finite int int | Infinity bool | NaN

text \<open>Number of binary digits of a natural number.\<close>

fun nbits :: "nat \<Rightarrow> nat" where
  "nbits n = (if n = 0 then 0 else Suc (nbits (n div 2)))"

declare nbits.simps [simp del]

text \<open>\<open>p\<close> rounded to the nearest multiple of \<open>2^s\<close>, ties to an even quotient;
  the result is the quotient.\<close>

definition round_shift :: "nat \<Rightarrow> nat \<Rightarrow> nat" where
  "round_shift p s =
     (let q = p div 2 ^ s; r = p mod 2 ^ s
      in if 2 ^ s < 2 * r \<or> (2 * r = 2 ^ s \<and> odd q) then q + 1 else q)"

text \<open>The \<open>f32\<close> nearest to \<open>\<plusminus>p * 2^e\<close>.\<close>

definition f32_round :: "bool \<Rightarrow> nat \<Rightarrow> int \<Rightarrow> f32" where
  "f32_round neg p e =
     (let s = max (nbits p - 24) (nat (- 149 - e));
          q = round_shift p s;
          e' = e + int s
      in if 0 \<le> e' \<and> 2 ^ 128 \<le> q * 2 ^ nat e' then Infinity neg
         else Finite (if neg then - int q else int q) e')"

text \<open>\<open>n as f32\<close> for a \<open>usize\<close> \<open>n\<close>.\<close>

definition f32_of_nat :: "nat \<Rightarrow> f32" where
  "f32_of_nat n = f32_round False n 0"

fun f32_mul :: "f32 \<Rightarrow> f32 \<Rightarrow> f32" where
  "f32_mul (Finite m1 e1) (Finite m2 e2) = f32_round (m1 * m2 < 0) (nat \<bar>m1 * m2\<bar>) (e1 + e2)"
| "f32_mul NaN y = NaN"
| "f32_mul x NaN = NaN"
| "f32_mul (Infinity s) (Finite m e) = (if m = 0 then NaN else Infinity (s \<noteq> (m < 0)))"
| "f32_mul (Finite m e) (Infinity s) = (if m = 0 then NaN else Infinity (s \<noteq> (m < 0)))"
| "f32_mul (Infinity s1) (Infinity s2) = Infinity (s1 \<noteq> s2)"

definition usize_max :: nat where
  "usize_max = 2 ^ 64 - 1"

text \<open>\<open>x.floor() as usize\<close>.\<close>

definition f32_floor_to_usize :: "f32 \<Rightarrow> nat" where
  "f32_floor_to_usize x =
     (case x of
        NaN \<Rightarrow> 0
      | Infinity neg \<Rightarrow> (if neg then 0 else usize_max)
      | Finite m e \<Rightarrow>
          if m \<le> 0 then 0
          else min usize_max (if 0 \<le> e then nat m * 2 ^ nat e else nat m div 2 ^ nat (- e)))"

text \<open>\<open>x <= 0.0\<close> and \<open>x > 1.0\<close>: every comparison with NaN is false.\<close>

definition f32_le_zero :: "f32 \<Rightarrow> bool" where
  "f32_le_zero x = (case x of Finite m e \<Rightarrow> m \<le> 0 | Infinity neg \<Rightarrow> neg | NaN \<Rightarrow> False)"

definition f32_gt_one :: "f32 \<Rightarrow> bool" where
  "f32_gt_one x =
     (case x of
        Finite m e \<Rightarrow> (if 0 \<le> e then 1 < m * 2 ^ nat e else 2 ^ nat (- e) < m)
      | Infinity neg \<Rightarrow> \<not> neg
      | NaN \<Rightarrow> False)"

text \<open>A well-formed \<open>f32\<close>: significand of at most 24 bits, exponent at least
  -149, value below 2^128.\<close>

definition f32_wf :: "f32 \<Rightarrow> bool" where
  "f32_wf x =
     (case x of
        Finite m e \<Rightarrow> \<bar>m\<bar> \<le> 2 ^ 24 \<and> - 149 \<le> e \<and> (0 \<le> e \<longrightarrow> nat \<bar>m\<bar> * 2 ^ nat e < 2 ^ 128)
      | _ \<Rightarrow> True)"

section \<open>The ratio and the image height\<close>

text \<open>\<open>DEFAULT_MAX_HEIGHT_RATIO: f32 = 0.55\<close>: 0.55 rounded to \<open>9227469 * 2^-24\<close>.\<close>

definition DEFAULT_MAX_HEIGHT_RATIO :: f32 where
  "DEFAULT_MAX_HEIGHT_RATIO = Finite 9227469 (- 24)"

text \<open>\<open>load_config\<close>: a ratio outside (0, 1] is replaced by the default.\<close>

definition validate_ratio :: "f32 \<Rightarrow> f32" where
  "validate_ratio r = (if f32_le_zero r \<or> f32_gt_one r then DEFAULT_MAX_HEIGHT_RATIO else r)"

text \<open>\<open>cli.max_height_ratio.unwrap_or(config.max_height_ratio)\<close>: the command
  line value is used as given.\<close>

definition effective_ratio :: "f32 option \<Rightarrow> f32 \<Rightarrow> f32" where
  "effective_ratio cli_ratio config_ratio = (case cli_ratio of Some r \<Rightarrow> r | None \<Rightarrow> config_ratio)"

definition max_image_rows :: "nat \<Rightarrow> f32 \<Rightarrow> nat" where
  "max_image_rows term_rows ratio = f32_floor_to_usize (f32_mul (f32_of_nat term_rows) ratio)"

definition image_rows :: "nat \<Rightarrow> nat \<Rightarrow> f32 \<Rightarrow> nat" where
  "image_rows term_rows bubble_height ratio =
     (let remaining_rows = term_rows - (bubble_height + 1)
      in max (min (max_image_rows term_rows ratio) remaining_rows) 1)"

text \<open>0.7 as an \<open>f32\<close>: \<open>11744051 * 2^-24\<close>, slightly below 0.7.\<close>

abbreviation ratio_07 :: f32 where
  "ratio_07 \<equiv> Finite 11744051 (- 24)"

section \<open>Lemmas on rounding\<close>

lemma nbits_le_iff: "nbits n \<le> j \<longleftrightarrow> n < 2 ^ j"
proof (induction n arbitrary: j rule: nbits.induct)
  case (1 n)
  show ?case
  proof (cases "n = 0")
    case False
    then show ?thesis
      using 1 [OF False, of "j - 1"] by (cases j) (auto simp: nbits.simps [of n])
  qed (simp add: nbits.simps)
qed

lemma less_pow_nbits: "n < 2 ^ nbits n"
  using nbits_le_iff by blast

lemma round_shift_le_pow:
  assumes "p < 2 ^ (s + k)"
  shows "round_shift p s \<le> 2 ^ k"
proof -
  have "p div 2 ^ s < 2 ^ k"
    using assms by (simp add: less_mult_imp_div_less power_add mult.commute)
  then show ?thesis by (simp add: round_shift_def Let_def)
qed

lemma round_shift_mult_le:
  assumes "2 ^ s dvd T" "p \<le> T"
  shows "round_shift p s * 2 ^ s \<le> T"
proof -
  obtain c where T: "T = c * 2 ^ s" using assms(1) by (auto simp: mult.commute elim: dvdE)
  have q: "p div 2 ^ s * 2 ^ s + p mod 2 ^ s = p" by (rule div_mult_mod_eq)
  show ?thesis
  proof (cases "p mod 2 ^ s = 0")
    case True
    then show ?thesis using q assms(2) by (simp add: round_shift_def Let_def)
  next
    case False
    then have "p div 2 ^ s * 2 ^ s < c * 2 ^ s" using q assms(2) T by linarith
    then have "p div 2 ^ s + 1 \<le> c" by simp
    then have "(p div 2 ^ s + 1) * 2 ^ s \<le> T" using T by (metis mult_le_mono1)
    moreover have "p div 2 ^ s * 2 ^ s \<le> T" using q assms(2) by linarith
    ultimately show ?thesis by (simp add: round_shift_def Let_def)
  qed
qed

lemma f32_round_wf: "f32_wf (f32_round neg p e)"
proof -
  define s where "s = max (nbits p - 24) (nat (- 149 - e))"
  have "p < 2 ^ (s + 24)"
    using less_pow_nbits [of p] by (rule less_le_trans) (simp add: s_def)
  then have "round_shift p s \<le> 2 ^ 24" by (rule round_shift_le_pow)
  moreover have "- 149 \<le> e + int s" by (simp add: s_def)
  ultimately show ?thesis
    by (auto simp: f32_round_def f32_wf_def Let_def s_def [symmetric] nat_mult_distrib
          split: f32.splits)
qed

lemma f32_of_nat_small: "n < 2 ^ 24 \<Longrightarrow> f32_of_nat n = Finite (int n) 0"
proof -
  assume n: "n < 2 ^ 24"
  then have "nbits n \<le> 24" by (simp add: nbits_le_iff)
  moreover have "n < 2 ^ 128" using n by (rule less_le_trans) simp
  ultimately show ?thesis by (simp add: f32_of_nat_def f32_round_def round_shift_def)
qed

lemma f32_mul_NaN_right [simp]: "f32_mul x NaN = NaN"
  by (cases x) simp_all

lemma f32_wf_NaN: "f32_wf NaN" and f32_wf_Infinity: "f32_wf (Infinity neg)"
  by (simp_all add: f32_wf_def)

lemma floor_round_neg: "f32_floor_to_usize (f32_round True p e) = 0"
  by (simp add: f32_round_def Let_def f32_floor_to_usize_def)

lemma floor_round_zero: "f32_floor_to_usize (f32_round neg 0 e) = 0"
  by (simp add: f32_round_def Let_def f32_floor_to_usize_def round_shift_def)

lemma floor_round_nonpos: "neg \<or> p = 0 \<Longrightarrow> f32_floor_to_usize (f32_round neg p e) = 0"
  by (cases neg) (auto simp: floor_round_neg floor_round_zero)

lemma f32_of_nat_cases: "f32_of_nat n = Infinity False \<or> (\<exists>q e. f32_of_nat n = Finite (int q) e)"
  by (auto simp: f32_of_nat_def f32_round_def Let_def)

lemma max_image_rows_le_zero:
  assumes "f32_le_zero r"
  shows "max_image_rows t r = 0"
proof (cases r)
  case (Finite m e)
  then have m: "m \<le> 0" using assms by (simp add: f32_le_zero_def)
  from f32_of_nat_cases [of t] show ?thesis
  proof (elim disjE exE)
    assume "f32_of_nat t = Infinity False"
    with Finite m show ?thesis by (simp add: max_image_rows_def f32_floor_to_usize_def)
  next
    fix q e'
    assume t: "f32_of_nat t = Finite (int q) e'"
    have "int q * m < 0 \<or> nat \<bar>int q * m\<bar> = 0"
      using m by (cases "q = 0 \<or> m = 0") (auto simp: mult_less_0_iff)
    then show ?thesis by (simp add: max_image_rows_def Finite t floor_round_nonpos)
  qed
next
  case (Infinity neg)
  with assms f32_of_nat_cases [of t] show ?thesis
    by (auto simp: max_image_rows_def f32_le_zero_def f32_floor_to_usize_def)
qed (simp add: max_image_rows_def f32_floor_to_usize_def)

lemma image_rows_eq: "image_rows t b r = max (min (max_image_rows t r) (t - (b + 1))) 1"
  by (simp add: image_rows_def)

lemma image_rows_below: "b + 2 \<le> r \<Longrightarrow> b + 1 + image_rows r b ratio \<le> r"
  by (simp add: image_rows_eq)

lemma unit_ratio_cases:
  assumes "f32_wf (Finite m e)" "\<not> f32_le_zero (Finite m e)" "\<not> f32_gt_one (Finite m e)"
  shows "(m = 1 \<and> e = 0) \<or> (e < 0 \<and> 0 < m \<and> m \<le> 2 ^ nat (- e) \<and> - 149 \<le> e)"
proof (cases "0 \<le> e")
  case True
  have m: "0 < m" "m * 2 ^ nat e \<le> 1"
    using assms(2,3) True by (auto simp: f32_le_zero_def f32_gt_one_def)
  have x: "(1::int) \<le> 2 ^ nat e" by simp
  have "m \<le> m * 2 ^ nat e" using m(1) x by (simp add: mult_le_cancel_left1)
  moreover have "2 ^ nat e \<le> m * 2 ^ nat e" using m(1) by (simp add: mult_le_cancel_right1)
  ultimately have "m = 1" "(2::int) ^ nat e = 1" using m x by linarith+
  moreover have "nat e = 0"
  proof (rule ccontr)
    assume "nat e \<noteq> 0"
    then have "(2::int) ^ 1 \<le> 2 ^ nat e" by (intro power_increasing) simp_all
    with \<open>(2::int) ^ nat e = 1\<close> show False by simp
  qed
  ultimately show ?thesis using True by simp
next
  case False
  with assms show ?thesis by (auto simp: f32_le_zero_def f32_gt_one_def f32_wf_def)
qed

lemma floor_round_le:
  assumes m: "0 < m" "m \<le> 2 ^ k" and e: "e = - int k" "- 149 \<le> e" and t: "t < 2 ^ 24"
  shows "f32_floor_to_usize (f32_round False (t * m) e) \<le> t"
proof -
  define p where "p = t * m"
  define T where "T = t * 2 ^ k"
  have pT: "p \<le> T" using m by (simp add: p_def T_def)
  have "T < 2 ^ (24 + k)" using t by (simp add: T_def power_add)
  then have "nbits p \<le> 24 + k" using pT by (simp add: nbits_le_iff)
  define s where "s = nbits p - 24"
  have s_eq: "max (nbits p - 24) (nat (- 149 - e)) = s" using e by (simp add: s_def)
  have sk: "s \<le> k" using \<open>nbits p \<le> 24 + k\<close> by (simp add: s_def)
  have T_split: "T = t * 2 ^ (k - s) * 2 ^ s" using sk by (simp add: T_def power_add [symmetric])
  have "round_shift p s * 2 ^ s \<le> T"
    using pT T_split by (intro round_shift_mult_le) simp_all
  then have qle: "round_shift p s \<le> t * 2 ^ (k - s)" using T_split by simp
  have e': "e + int s = - int (k - s)" using e sk by simp
  have "\<not> (0 \<le> e + int s \<and> 2 ^ 128 \<le> round_shift p s * 2 ^ nat (e + int s))"
  proof
    assume "0 \<le> e + int s \<and> 2 ^ 128 \<le> round_shift p s * 2 ^ nat (e + int s)"
    then have "k - s = 0" "2 ^ 128 \<le> round_shift p s" using e' by auto
    with qle t show False by simp
  qed
  then have r: "f32_round False p e = Finite (int (round_shift p s)) (- int (k - s))"
    by (simp add: f32_round_def Let_def s_eq e')
  have "f32_floor_to_usize (Finite (int (round_shift p s)) (- int (k - s))) \<le> t"
  proof (cases "k = s")
    case True
    with qle show ?thesis by (simp add: f32_floor_to_usize_def min_le_iff_disj)
  next
    case False
    have "round_shift p s div 2 ^ (k - s) \<le> t"
      using div_le_mono [OF qle, of "2 ^ (k - s)"] by simp
    moreover have "nat (int k - int s) = k - s" using sk by simp
    ultimately show ?thesis using False sk by (simp add: f32_floor_to_usize_def min_le_iff_disj)
  qed
  then show ?thesis by (simp add: p_def [symmetric] r)
qed

section \<open>Properties of the row budget\<close>

text \<open>For a ratio in (0, 1], the range load_config enforces, the cap
  ((term_rows as f32) * ratio).floor() as usize never exceeds the terminal height:
  rounding the product to the nearest f32 can raise it, but never above the
  height itself (for heights below 2^24, which as f32 represents exactly).\<close>

theorem max_image_rows_le_rows:
  assumes "f32_wf r" "\<not> f32_le_zero r" "\<not> f32_gt_one r" "term_rows < 2 ^ 24"
  shows "max_image_rows term_rows r \<le> term_rows"
proof (cases r)
  case (Finite m e)
  from unit_ratio_cases [OF assms(1-3) [unfolded Finite]] show ?thesis
  proof (elim disjE conjE)
    assume "m = 1" "e = 0"
    with Finite assms(4) show ?thesis
      by (simp add: max_image_rows_def f32_of_nat_small f32_of_nat_def [symmetric] f32_floor_to_usize_def)
  next
    assume "e < 0" "0 < m" "m \<le> 2 ^ nat (- e)" "- 149 \<le> e"
    then have "f32_floor_to_usize (f32_round False (term_rows * nat m) e) \<le> term_rows"
      by (intro floor_round_le [where k = "nat (- e)"]) (use assms(4) in \<open>simp_all add: nat_le_iff\<close>)
    with Finite \<open>0 < m\<close> assms(4) show ?thesis
      by (simp add: max_image_rows_def f32_of_nat_small nat_mult_distrib mult_less_0_iff)
  qed
next
  case (Infinity neg)
  with assms(2,3) show ?thesis by (cases neg) (simp_all add: f32_le_zero_def f32_gt_one_def)
qed (simp add: max_image_rows_def f32_floor_to_usize_def)

text \<open>C11: when the terminal has room for the bubble, the separator line and one
  image row, the three together fit the terminal's height.\<close>

theorem image_rows_fit:
  assumes "bubble_height + 2 \<le> term_rows"
  shows "bubble_height + 1 + image_rows term_rows bubble_height ratio \<le> term_rows"
  using image_rows_below [OF assms] .

text \<open>The examples of the specification, with the default ratio 0.55: 24 rows
  and a 4-line bubble give 13 image rows; 10 rows and an 8-line bubble give 1.\<close>

theorem image_rows_spec_examples:
  "image_rows 24 4 DEFAULT_MAX_HEIGHT_RATIO = 13 \<and> image_rows 10 8 DEFAULT_MAX_HEIGHT_RATIO = 1"
  by code_simp

text \<open>Every product of the model is a well-formed f32: a significand of
  at most 24 bits, an exponent of at least -149 and a finite value below 2^128.\<close>

theorem f32_mul_wf: "f32_wf (f32_mul x y)"
  by (cases x; cases y) (simp_all add: f32_round_wf f32_wf_NaN f32_wf_Infinity)

lemma validate_ratio_in_unit:
  assumes "r \<noteq> NaN"
  shows "\<not> f32_le_zero (validate_ratio r) \<and> \<not> f32_gt_one (validate_ratio r)"
  using assms
  by (cases r) (auto simp: validate_ratio_def DEFAULT_MAX_HEIGHT_RATIO_def f32_le_zero_def f32_gt_one_def)

text \<open>C28: a NaN ratio in the configuration passes the validation, since both
  comparisons with NaN are false, and every image is then one row high.\<close>

theorem validate_ratio_keeps_nan:
  "validate_ratio NaN = NaN \<and> image_rows term_rows bubble_height (validate_ratio NaN) = 1"
  by (simp add: validate_ratio_def f32_le_zero_def f32_gt_one_def image_rows_eq max_image_rows_def
        f32_floor_to_usize_def)

text \<open>C33: the ratio given on the command line is not validated: a ratio of zero or
  below makes every image one row high.\<close>

theorem cli_ratio_unvalidated:
  assumes "f32_le_zero r"
  shows "image_rows term_rows bubble_height (effective_ratio (Some r) config_ratio) = 1"
  using assms by (simp add: image_rows_eq effective_ratio_def max_image_rows_le_zero)

section \<open>Witnesses\<close>

theorem max_image_rows_le_rows_witness: "max_image_rows 10 ratio_07 \<le> 10"
  by (rule max_image_rows_le_rows) (simp_all add: f32_wf_def f32_le_zero_def f32_gt_one_def)

theorem image_rows_fit_witness: "4 + 1 + image_rows 24 4 DEFAULT_MAX_HEIGHT_RATIO \<le> 24"
  by (rule image_rows_fit) simp

theorem cli_ratio_unvalidated_witness:
  "image_rows 24 4 (effective_ratio (Some (Finite (- 1) 0)) DEFAULT_MAX_HEIGHT_RATIO) = 1"
  by (rule cli_ratio_unvalidated) (simp add: f32_le_zero_def)

end
