(* ===== verification/Screen.thy ===== *)
theory Screen
  imports Bubble Row_Budget Pipeline
begin

text \<open>
  The composition in \<^verbatim>\<open>src/main.rs\<close>: the configuration (\<open>Config\<close>, its
  \<open>Default\<close>, the validation of \<open>load_config\<close>), the command line
  (\<open>Cli\<close>), \<open>terminal_dimensions\<close>, and the body of \<open>main\<close> from the
  merging of options to the printing of the image. \<open>leftysay_main\<close> takes the
  message and image path that \<open>resolve_message\<close> and \<open>resolve_image\<close> chose,
  and starts after the early exits for \<open>--doctor\<close> and \<open>--list\<close> and after
  \<open>find_chafa\<close> succeeded. It returns the lines printed with \<open>println!\<close>, the
  result (\<open>Inr s\<close>: \<open>s\<close> was then printed with \<open>print!\<close>), the cache
  directory and the chafa invocations.
\<close>

section \<open>Configuration and command line\<close>

record cli =
  cli_text :: "string option"
  cli_image :: "string option"
  cli_pack :: "string option"
  cli_list :: bool
  cli_doctor :: bool
  cli_no_bubble :: bool
  cli_seed :: "u64 option"
  cli_format :: "chafa_format option"
  cli_colors :: "chafa_colors option"
  cli_max_height_ratio :: "f32 option"
  cli_animate :: bool

record config =
  enabled :: bool
  default_pack :: string
  cfg_format :: chafa_format
  cfg_colors :: chafa_colors
  max_height_ratio :: f32
  bubble_style :: string
  cache :: bool
  cfg_animate :: bool
  cfg_cache_max_mb :: u64

definition DEFAULT_CACHE_MAX_MB :: u64 where
  "DEFAULT_CACHE_MAX_MB = 64"

definition default_config :: config where
  "default_config =
     \<lparr>enabled = True, default_pack = ''default'', cfg_format = Format_Auto, cfg_colors = Colors_Auto,
      max_height_ratio = DEFAULT_MAX_HEIGHT_RATIO, bubble_style = ''classic'', cache = True,
      cfg_animate = False, cfg_cache_max_mb = DEFAULT_CACHE_MAX_MB\<rparr>"

text \<open>What \<open>load_config\<close> finds: no project directories, no config file, a file
  it cannot read, a file that is not a valid configuration, or a parsed one
  (fields the file omits already set to their defaults by \<open>serde(default)\<close>).\<close>

datatype config_source = No_Project_Dirs | No_Config_File | Unreadable | Unparsable | Parsed config

datatype config_error = Reading_Config | Parsing_Config

definition validate_config :: "config \<Rightarrow> config" where
  "validate_config c =
     (let c1 = c\<lparr>max_height_ratio := validate_ratio (max_height_ratio c)\<rparr>
      in if cfg_cache_max_mb c1 = 0 then c1\<lparr>cfg_cache_max_mb := DEFAULT_CACHE_MAX_MB\<rparr> else c1)"

definition load_config :: "config_source \<Rightarrow> config_error + config" where
  "load_config src =
     (case src of
        No_Project_Dirs \<Rightarrow> Inr default_config
      | No_Config_File \<Rightarrow> Inr default_config
      | Unreadable \<Rightarrow> Inl Reading_Config
      | Unparsable \<Rightarrow> Inl Parsing_Config
      | Parsed c \<Rightarrow> Inr (validate_config c))"

text \<open>\<open>terminal_size()\<close> reports the width and height as \<open>u16\<close>; without a
  terminal the size is 80 by 24.\<close>

definition terminal_dimensions :: "(16 word \<times> 16 word) option \<Rightarrow> nat \<times> nat" where
  "terminal_dimensions ts = (case ts of Some (w, h) \<Rightarrow> (unat w, unat h) | None \<Rightarrow> (80, 24))"

section \<open>The body of main\<close>

definition main_bubble :: "wrapper \<Rightarrow> cli \<Rightarrow> string \<Rightarrow> nat \<Rightarrow> string list" where
  "main_bubble wrap cl message term_cols =
     (if cli_no_bubble cl then [] else render_bubble wrap message term_cols)"

text \<open>The options of the render: command-line values override the configuration,
  \<open>--animate\<close> can only switch animation on.\<close>

definition main_options :: "cli \<Rightarrow> config \<Rightarrow> nat \<Rightarrow> nat \<Rightarrow> render_options" where
  "main_options cl cfg term_cols irows =
     \<lparr>cols = of_nat term_cols, rows = of_nat irows,
      format = (case cli_format cl of Some f \<Rightarrow> f | None \<Rightarrow> cfg_format cfg),
      colors = (case cli_colors cl of Some c \<Rightarrow> c | None \<Rightarrow> cfg_colors cfg),
      animate = (if cli_animate cl then True else cfg_animate cfg),
      cache_enabled = cache cfg, cache_max_mb = cfg_cache_max_mb cfg\<rparr>"

definition main_ratio :: "cli \<Rightarrow> config \<Rightarrow> f32" where
  "main_ratio cl cfg = effective_ratio (cli_max_height_ratio cl) (max_height_ratio cfg)"

definition printed_bubble :: "string list \<Rightarrow> bool \<Rightarrow> string \<Rightarrow> string list" where
  "printed_bubble bubble no_bubble message =
     (if bubble \<noteq> [] then bubble else if message \<noteq> [] \<and> \<not> no_bubble then [message] else [])"

definition leftysay_main ::
  "wrapper \<Rightarrow> env \<Rightarrow> cli \<Rightarrow> config \<Rightarrow> (16 word \<times> 16 word) option \<Rightarrow> string \<Rightarrow> string \<Rightarrow> cache_fs
   \<Rightarrow> string list \<times> (render_error + string) \<times> cache_fs \<times> argv list" where
  "leftysay_main wrap e cl cfg ts message image_path fs =
     (if \<not> enabled cfg then ([], Inr [], fs, [])
      else
        let (term_cols, term_rows) = terminal_dimensions ts;
            bubble = main_bubble wrap cl message term_cols;
            irows = image_rows term_rows (length bubble) (main_ratio cl cfg);
            (res, fs', spawned) = render_image e image_path (main_options cl cfg term_cols irows) fs
        in (printed_bubble bubble (cli_no_bubble cl) message, res, fs', spawned))"

text \<open>A command line with no options, and an environment in which the image does
  not exist.\<close>

abbreviation no_options :: cli where
  "no_options \<equiv> \<lparr>cli_text = None, cli_image = None, cli_pack = None, cli_list = False,
      cli_doctor = False, cli_no_bubble = False, cli_seed = None, cli_format = None,
      cli_colors = None, cli_max_height_ratio = None, cli_animate = False\<rparr>"

abbreviation missing_image_env :: env where
  "missing_image_env \<equiv> demo_env\<lparr>image_meta := (\<lambda>_. None)\<rparr>"

text \<open>A cache directory that does not exist yet.\<close>

abbreviation fresh_cache :: cache_fs where
  "fresh_cache \<equiv> demo_cache\<lparr>dir_exists := False, files := []\<rparr>"

section \<open>Lemmas on main\<close>

lemma leftysay_main_eq:
  assumes "enabled cfg" "terminal_dimensions ts = (c, r)"
  shows "leftysay_main wrap e cl cfg ts message p fs =
           (let bubble = main_bubble wrap cl message c;
                (res, fs', spawned) = render_image e p
                   (main_options cl cfg c (image_rows r (length bubble) (main_ratio cl cfg))) fs
            in (printed_bubble bubble (cli_no_bubble cl) message, res, fs', spawned))"
  using assms by (simp add: leftysay_main_def Let_def)

lemma leftysay_main_render:
  assumes "leftysay_main wrap e cl cfg ts message p fs = (shown, res, fs', sp)"
  shows "fs' = fs \<or> (\<exists>c r. render_image e p (main_options cl cfg c r) fs = (res, fs', sp))"
  using assms by (auto simp: leftysay_main_def Let_def split: prod.splits if_splits)

lemma render_image_spawned:
  assumes "render_image e p opts fs = (res, fs', sp)"
  shows "sp = [] \<or> sp = fst (run_chafa (run e) (chafa_path e) p (cols opts) (rows opts) (format opts)
                           (colors opts) (animate opts))"
  using assms unfolding render_image_def
  by (auto simp: Let_def split: sum.splits option.splits prod.splits if_splits)

lemma render_image_first_spawn:
  assumes "render_image e p opts fs = (res, fs', sp)" "sp \<noteq> []"
  shows "hd sp = chafa_args p (cols opts) (rows opts) (format opts) (colors opts) (animate opts)"
  using render_image_spawned [OF assms(1)] assms(2) run_chafa_first_spawn by metis

lemma printed_main_bubble:
  assumes "wrap_nonempty wrap"
  shows "printed_bubble (main_bubble wrap cl message c) (cli_no_bubble cl) message =
           main_bubble wrap cl message c"
  using render_bubble_nonempty [OF assms] by (simp add: printed_bubble_def main_bubble_def)

section \<open>Properties of main\<close>

text \<open>C27: main prints the bubble before it renders the image, so when the render
  fails (here: the image's metadata cannot be read) the bubble has already been
  printed, although the specification says a fatal error aborts all output.\<close>

theorem main_bubble_left_on_failure:
  assumes "enabled cfg" "\<not> cli_no_bubble cl" "message \<noteq> []"
    and "leftysay_main wrap e cl cfg ts message p fs = (shown, Inl err, fs', sp)"
  shows "shown \<noteq> []"
  using assms
  by (auto simp: leftysay_main_def Let_def printed_bubble_def split: prod.splits if_splits)

text \<open>C32: every configuration load_config returns has a non-zero cache budget
  and, unless the file set it to NaN, a height ratio in (0, 1].\<close>

theorem load_config_valid:
  assumes "load_config src = Inr cfg"
  shows "cfg_cache_max_mb cfg \<noteq> 0 \<and>
         (max_height_ratio cfg = NaN \<or>
          \<not> f32_le_zero (max_height_ratio cfg) \<and> \<not> f32_gt_one (max_height_ratio cfg))"
proof (cases src)
  case (Parsed c)
  then have "cfg = validate_config c" using assms by (simp add: load_config_def)
  moreover have "validate_ratio NaN = NaN"
    by (simp add: validate_ratio_def f32_le_zero_def f32_gt_one_def)
  ultimately show ?thesis
    using validate_ratio_in_unit [of "max_height_ratio c"]
    by (cases "max_height_ratio c = NaN") (auto simp: validate_config_def Let_def DEFAULT_CACHE_MAX_MB_def)
qed (use assms in \<open>auto simp: load_config_def default_config_def DEFAULT_CACHE_MAX_MB_def
       DEFAULT_MAX_HEIGHT_RATIO_def f32_le_zero_def f32_gt_one_def\<close>)

section \<open>Witnesses\<close>

lemma demo_main_bubble:
  "main_bubble wrap_greedy no_options ''Hello'' 80 = ['' _______'', ''< Hello >'', '' -------'']"
  by code_simp

lemma demo_main_rows: "image_rows 24 3 (main_ratio no_options default_config) = 13"
  by code_simp

lemma demo_main_dims: "terminal_dimensions None = (80, 24)"
  by (simp add: terminal_dimensions_def)

lemma demo_main_first:
  "\<exists>fs1 sp. leftysay_main wrap_greedy demo_env no_options default_config None ''Hello'' ''cat.png'' demo_cache
     = (['' _______'', ''< Hello >'', '' -------''], Inr ''IMG'', fs1, sp)"
  by (simp add: leftysay_main_eq [OF _ demo_main_dims] default_config_def demo_main_bubble demo_main_rows
        printed_bubble_def main_options_def DEFAULT_CACHE_MAX_MB_def demo_render_defs)

lemma demo_fresh_run:
  "\<exists>fs1 sp. leftysay_main wrap_greedy demo_env no_options default_config None ''Hello'' ''cat.png'' fresh_cache
     = (['' _______'', ''< Hello >'', '' -------''], Inr ''IMG'', fs1, sp) \<and> files fs1 \<noteq> []"
  by (simp add: leftysay_main_eq [OF _ demo_main_dims] default_config_def demo_main_bubble demo_main_rows
        printed_bubble_def main_options_def DEFAULT_CACHE_MAX_MB_def demo_render_defs)

lemma demo_main_facts:
  "enabled default_config" "cache default_config" "padding + 10 < (80::nat)"
  "length ['' _______'', ''< Hello >'', '' -------''] + 2 \<le> (24::nat)"
  by (simp_all add: default_config_def padding_def)

theorem main_bubble_left_on_failure_witness:
  "fst (leftysay_main wrap_greedy missing_image_env no_options default_config None ''Hello'' ''cat.png''
     demo_cache) \<noteq> []"
proof -
  have r: "leftysay_main wrap_greedy missing_image_env no_options default_config None ''Hello'' ''cat.png''
      demo_cache = (['' _______'', ''< Hello >'', '' -------''], Inl (Key_Error Image_Metadata), demo_cache, [])"
    by (simp add: leftysay_main_eq [OF demo_main_facts(1) demo_main_dims] demo_main_bubble
          printed_bubble_def render_image_def cache_key_def)
  show ?thesis unfolding r fst_conv
    by (rule main_bubble_left_on_failure [OF demo_main_facts(1) _ _ r]) simp_all
qed

theorem load_config_valid_witness:
  "cfg_cache_max_mb (validate_config (default_config\<lparr>cfg_cache_max_mb := 0\<rparr>)) \<noteq> 0"
  by (rule conjunct1 [OF load_config_valid [of "Parsed (default_config\<lparr>cfg_cache_max_mb := 0\<rparr>)"]])
     (simp add: load_config_def)

end
