(* ===== verification/Config_File.thy ===== *)
theory Config_File
  imports Screen
begin

text \<open>
  How \<open>load_config\<close> (\<^verbatim>\<open>src/main.rs\<close>) turns \<open>config.toml\<close> into a
  \<open>Config\<close>: \<open>toml::from_str\<close> deserializes the document's table with the
  implementation that \<open>#[derive(Deserialize)]\<close> and \<open>#[serde(default)]\<close>
  generate for \<open>Config\<close>, and \<open>ChafaFormat\<close>/\<open>ChafaColors\<close> are read by
  their lowercase names and aliases (\<open>#[serde(rename_all = "lowercase")]\<close>,
  \<open>#[serde(alias = ...)]\<close>). The document is the table of its top-level keys in
  document order (TOML itself rejects a repeated key, so the keys are distinct);
  a value is a string, an integer (TOML integers are \<open>i64\<close>), a float (an
  \<open>f64\<close>), a boolean, or something else (array, table, date), which no field of
  \<open>Config\<close> accepts. The derived deserializer visits the keys in document order:
  a known key is read with its field's type and a failure stops the whole
  deserialization; an unknown key is skipped; a missing field keeps the value of
  \<open>Config::default()\<close>. An \<open>f32\<close> field accepts a float, converted with
  \<open>as f32\<close> (round to nearest, ties to even, overflow to infinity), and an
  integer, converted with \<open>as f32\<close> too; a \<open>u64\<close> field accepts a non-negative
  integer.
\<close>

section \<open>Doubles and TOML values\<close>

text \<open>An \<open>f64\<close>: \<open>F64 m e\<close> is \<open>m * 2^e\<close>.\<close>

datatype f64 = F64 int int | F64_Infinity bool | F64_NaN

definition f64_as_f32 :: "f64 \<Rightarrow> f32" where
  "f64_as_f32 x =
     (case x of
        F64 m e \<Rightarrow> f32_round (m < 0) (nat \<bar>m\<bar>) e
      | F64_Infinity neg \<Rightarrow> Infinity neg
      | F64_NaN \<Rightarrow> NaN)"

definition i64_as_f32 :: "int \<Rightarrow> f32" where
  "i64_as_f32 i = f32_round (i < 0) (nat \<bar>i\<bar>) 0"

datatype toml_value =
    TString string
  | TInteger int
  | TFloat f64
  | TBoolean bool
  | TOther  \<comment> \<open>an array, a table or a date-time\<close>

type_synonym toml_table = "(string \<times> toml_value) list"

datatype de_error =
    Invalid_Type string  \<comment> \<open>the field whose value has the wrong type\<close>
  | Unknown_Variant string
  | Invalid_Value string

section \<open>Reading one field\<close>

text \<open>The names \<open>ChafaFormat\<close> and \<open>ChafaColors\<close> are read by: the variant
  name in lowercase, and the aliases.\<close>

definition format_names :: "(string \<times> chafa_format) list" where
  "format_names =
     [(''auto'', Format_Auto), (''unicode'', Unicode), (''symbols'', Unicode), (''kitty'', Kitty),
      (''iterm2'', Iterm2), (''iterm'', Iterm2), (''sixel'', Sixel), (''sixels'', Sixel)]"

definition colors_names :: "(string \<times> chafa_colors) list" where
  "colors_names =
     [(''auto'', Colors_Auto), (''truecolor'', Truecolor), (''full'', Truecolor),
      (''c256'', C256), (''256'', C256), (''c16'', C16), (''16'', C16)]"

definition de_bool :: "string \<Rightarrow> toml_value \<Rightarrow> de_error + bool" where
  "de_bool k v = (case v of TBoolean b \<Rightarrow> Inr b | _ \<Rightarrow> Inl (Invalid_Type k))"

definition de_string :: "string \<Rightarrow> toml_value \<Rightarrow> de_error + string" where
  "de_string k v = (case v of TString s \<Rightarrow> Inr s | _ \<Rightarrow> Inl (Invalid_Type k))"

definition de_enum :: "(string \<times> 'a) list \<Rightarrow> string \<Rightarrow> toml_value \<Rightarrow> de_error + 'a" where
  "de_enum names k v =
     (case v of
        TString s \<Rightarrow> (case map_of names s of Some x \<Rightarrow> Inr x | None \<Rightarrow> Inl (Unknown_Variant s))
      | _ \<Rightarrow> Inl (Invalid_Type k))"

definition de_f32 :: "string \<Rightarrow> toml_value \<Rightarrow> de_error + f32" where
  "de_f32 k v =
     (case v of
        TFloat x \<Rightarrow> Inr (f64_as_f32 x)
      | TInteger i \<Rightarrow> Inr (i64_as_f32 i)
      | _ \<Rightarrow> Inl (Invalid_Type k))"

definition de_u64 :: "string \<Rightarrow> toml_value \<Rightarrow> de_error + u64" where
  "de_u64 k v =
     (case v of
        TInteger i \<Rightarrow> (if 0 \<le> i then Inr (word_of_int i) else Inl (Invalid_Value k))
      | _ \<Rightarrow> Inl (Invalid_Type k))"

section \<open>Reading the table\<close>

text \<open>One key of the document: a field of \<open>Config\<close> is read and set, any other
  key is skipped.\<close>

definition set_field :: "string \<Rightarrow> toml_value \<Rightarrow> config \<Rightarrow> de_error + config" where
  "set_field k v c =
     (if k = ''enabled'' then map_sum id (\<lambda>b. c\<lparr>enabled := b\<rparr>) (de_bool k v)
      else if k = ''default_pack'' then map_sum id (\<lambda>s. c\<lparr>default_pack := s\<rparr>) (de_string k v)
      else if k = ''format'' then map_sum id (\<lambda>f. c\<lparr>cfg_format := f\<rparr>) (de_enum format_names k v)
      else if k = ''colors'' then map_sum id (\<lambda>f. c\<lparr>cfg_colors := f\<rparr>) (de_enum colors_names k v)
      else if k = ''max_height_ratio'' then map_sum id (\<lambda>r. c\<lparr>max_height_ratio := r\<rparr>) (de_f32 k v)
      else if k = ''bubble_style'' then map_sum id (\<lambda>s. c\<lparr>bubble_style := s\<rparr>) (de_string k v)
      else if k = ''cache'' then map_sum id (\<lambda>b. c\<lparr>cache := b\<rparr>) (de_bool k v)
      else if k = ''animate'' then map_sum id (\<lambda>b. c\<lparr>cfg_animate := b\<rparr>) (de_bool k v)
      else if k = ''cache_max_mb'' then map_sum id (\<lambda>n. c\<lparr>cfg_cache_max_mb := n\<rparr>) (de_u64 k v)
      else Inr c)"

definition config_keys :: "string list" where
  "config_keys = [''enabled'', ''default_pack'', ''format'', ''colors'', ''max_height_ratio'',
                  ''bubble_style'', ''cache'', ''animate'', ''cache_max_mb'']"

fun de_config :: "toml_table \<Rightarrow> config \<Rightarrow> de_error + config" where
  "de_config [] c = Inr c"
| "de_config ((k, v) # kvs) c = rbind (set_field k v c) (de_config kvs)"

text \<open>\<open>toml::from_str::<Config>\<close> on a document that parsed as TOML.\<close>

definition config_from_toml :: "toml_table \<Rightarrow> de_error + config" where
  "config_from_toml t = de_config t default_config"

text \<open>What \<open>load_config\<close> finds, one level below \<open>config_source\<close>: the text of
  the file is TOML (its table) or not.\<close>

datatype toml_source =
    Toml_No_Project_Dirs | Toml_No_Config_File | Toml_Unreadable | Toml_Syntax_Error | Toml_Document toml_table

definition config_source_of :: "toml_source \<Rightarrow> config_source" where
  "config_source_of src =
     (case src of
        Toml_No_Project_Dirs \<Rightarrow> No_Project_Dirs
      | Toml_No_Config_File \<Rightarrow> No_Config_File
      | Toml_Unreadable \<Rightarrow> Unreadable
      | Toml_Syntax_Error \<Rightarrow> Unparsable
      | Toml_Document t \<Rightarrow> (case config_from_toml t of Inl _ \<Rightarrow> Unparsable | Inr c \<Rightarrow> Parsed c))"

section \<open>Writing a configuration\<close>

text \<open>A configuration written out with every field, the formats and colors by the
  names \<open>as_arg\<close> gives them (those that \<open>--doctor\<close> prints), the ratio as the
  \<open>f64\<close> of the same value.\<close>

definition f32_as_f64 :: "f32 \<Rightarrow> f64" where
  "f32_as_f64 x = (case x of Finite m e \<Rightarrow> F64 m e | Infinity neg \<Rightarrow> F64_Infinity neg | NaN \<Rightarrow> F64_NaN)"

definition config_table :: "config \<Rightarrow> toml_table" where
  "config_table c =
     [(''enabled'', TBoolean (enabled c)), (''default_pack'', TString (default_pack c)),
      (''format'', TString (format_as_arg (cfg_format c))), (''colors'', TString (colors_as_arg (cfg_colors c))),
      (''max_height_ratio'', TFloat (f32_as_f64 (max_height_ratio c))),
      (''bubble_style'', TString (bubble_style c)), (''cache'', TBoolean (cache c)),
      (''animate'', TBoolean (cfg_animate c)), (''cache_max_mb'', TInteger (uint (cfg_cache_max_mb c)))]"

text \<open>An \<open>f32\<close> in the form \<open>f32_round\<close> returns: significand below 2^24,
  exponent at least -149, value below 2^128.\<close>

definition f32_canonical :: "f32 \<Rightarrow> bool" where
  "f32_canonical x =
     (case x of
        Finite m e \<Rightarrow> \<bar>m\<bar> < 2 ^ 24 \<and> - 149 \<le> e \<and> (0 \<le> e \<longrightarrow> nat \<bar>m\<bar> * 2 ^ nat e < 2 ^ 128)
      | _ \<Rightarrow> True)"

section \<open>Lemmas\<close>

lemma f32_round_canonical:
  assumes "f32_canonical (Finite m e)"
  shows "f32_round (m < 0) (nat \<bar>m\<bar>) e = Finite m e"
proof -
  have "nat \<bar>m\<bar> < 2 ^ 24" using assms by (simp add: f32_canonical_def nat_less_iff)
  then have "nbits (nat \<bar>m\<bar>) - 24 = 0" using nbits_le_iff [of "nat \<bar>m\<bar>" 24] by simp
  moreover have "nat (- 149 - e) = 0" using assms by (simp add: f32_canonical_def)
  ultimately show ?thesis
    using assms by (cases "m < 0") (auto simp add: f32_round_def round_shift_def f32_canonical_def Let_def)
qed

lemma f64_as_f32_of_f32: "f32_canonical x \<Longrightarrow> f64_as_f32 (f32_as_f64 x) = x"
  by (cases x) (simp_all add: f64_as_f32_def f32_as_f64_def f32_round_canonical)

lemma de_enum_format_as_arg: "de_enum format_names k (TString (format_as_arg f)) = Inr f"
  by (cases f) (simp_all add: de_enum_def format_names_def)

lemma de_enum_colors_as_arg: "de_enum colors_names k (TString (colors_as_arg c)) = Inr c"
  by (cases c) (simp_all add: de_enum_def colors_names_def)

lemma set_field_other: "k \<notin> set config_keys \<Longrightarrow> set_field k v c = Inr c"
  by (simp add: set_field_def config_keys_def)

lemma de_config_filter:
  "de_config (filter (\<lambda>(k, v). k \<in> set config_keys) t) c = de_config t c"
proof (induction t arbitrary: c)
  case (Cons kv t)
  obtain k v where kv: "kv = (k, v)" by fastforce
  show ?case
    by (cases "k \<in> set config_keys") (simp_all add: kv Cons.IH set_field_other rbind_def split: sum.split)
qed simp

lemma isl_map_sum: "isl (map_sum f g x) = isl x"
  by (cases x) simp_all

lemma set_field_Inl: "isl (set_field k v c) = isl (set_field k v c')"
  by (simp add: set_field_def isl_map_sum)

lemma de_config_Inl:
  "(k, v) \<in> set t \<Longrightarrow> isl (set_field k v c0) \<Longrightarrow> \<exists>err. de_config t c = Inl err"
proof (induction t arbitrary: c)
  case (Cons kv t)
  obtain k' v' where kv: "kv = (k', v')" by fastforce
  show ?case
  proof (cases "set_field k' v' c")
    case (Inr c')
    with Cons.prems set_field_Inl [of k v c0 c] have "(k, v) \<in> set t"
      by (auto simp: kv)
    with Cons.IH [OF _ Cons.prems(2)] Inr show ?thesis by (simp add: kv rbind_def)
  qed (simp add: kv rbind_def)
qed simp

section \<open>Properties of reading the configuration\<close>

text \<open>C24: A configuration written out with every field, formats and colors by
  the names their as_arg gives, reads back as the same configuration: every name
  that leftysay passes to chafa and prints in --doctor is an accepted alias.\<close>

theorem config_roundtrip:
  assumes "f32_canonical (max_height_ratio c)"
  shows "config_from_toml (config_table c) = Inr c"
  using assms
  by (simp add: config_from_toml_def config_table_def set_field_def rbind_def de_bool_def de_string_def
        de_f32_def de_u64_def de_enum_format_as_arg de_enum_colors_as_arg f64_as_f32_of_f32)

text \<open>C31: Keys that are not fields of Config are ignored: a configuration reads
  as if they were absent, so a misspelled key silently leaves its field at the
  default.\<close>

theorem config_ignores_unknown_keys:
  "config_from_toml (filter (\<lambda>(k, v). k \<in> set config_keys) t) = config_from_toml t"
  by (simp add: config_from_toml_def de_config_filter)

text \<open>C30: A known key whose value its field does not accept (wrong type, unknown
  format or colors name, negative budget), anywhere in config.toml, makes
  load_config fail with the parsing error.\<close>

theorem load_config_bad_value:
  assumes "(k, v) \<in> set t" "isl (set_field k v default_config)"
  shows "load_config (config_source_of (Toml_Document t)) = Inl Parsing_Config"
proof -
  obtain err where "config_from_toml t = Inl err"
    using de_config_Inl [OF assms] by (auto simp: config_from_toml_def)
  then show ?thesis by (simp add: config_source_of_def load_config_def)
qed

section \<open>Witnesses\<close>

theorem config_roundtrip_witness:
  "config_from_toml (config_table (default_config\<lparr>cfg_format := Unicode, cfg_colors := C256\<rparr>)) =
     Inr (default_config\<lparr>cfg_format := Unicode, cfg_colors := C256\<rparr>)"
  by (rule config_roundtrip) (simp add: default_config_def DEFAULT_MAX_HEIGHT_RATIO_def f32_canonical_def)

theorem load_config_bad_value_witness:
  "load_config (config_source_of (Toml_Document [(''cache'', TBoolean False), (''format'', TString ''ascii'')]))
     = Inl Parsing_Config"
  by (rule load_config_bad_value [where k = "''format''" and v = "TString ''ascii''"])
     (simp_all add: set_field_def de_enum_def format_names_def)

end
