(* ===== verification/Packs.thy ===== *)
theory Packs
  imports Screen
begin

text \<open>
  Image packs (\<^verbatim>\<open>src/main.rs\<close>: \<open>PackMeta\<close>, \<open>Pack\<close>, \<open>scan_packs\<close>,
  \<open>read_pack_meta\<close>, \<open>collect_images\<close>, \<open>is_supported_image\<close>,
  \<open>read_messages\<close>, \<open>resolve_message\<close>, \<open>resolve_image\<close>, \<open>pick_index\<close>).
  What the file system shows is data: a search path that exists gives the
  \<open>pack.toml\<close> files its walk finds, in walk order, each with the outcome of
  reading and parsing it, the walk of the images directory its metadata names,
  and the contents of \<open>messages.txt\<close> (\<open>None\<close> when the file is missing or
  unreadable, both of which give no messages). Paths and file contents are byte
  strings; a file's contents are valid UTF-8, since \<open>read_to_string\<close> rejects
  anything else. The random generator is a parameter: \<open>StdRng::seed_from_u64\<close>
  followed by \<open>gen_range(0..len)\<close> is a function \<open>gen\<close> of the seed and the
  length, and an unseeded draw (\<open>from_entropy\<close>) is a parameter \<open>ent\<close> of each
  call; both return an index below the length (\<open>rng_ok\<close>).
\<close>

section \<open>Packs\<close>

record pack_meta =
  pack_name :: string
  version :: string
  license :: string
  description :: string
  images_dir :: string

record pack =
  meta :: pack_meta
  images :: "string list"
  messages :: "string list"

datatype pack_error =
    Reading_Pack_Meta string
  | Parsing_Pack_Meta string
  | Pack_Not_Found string
  | No_Images_Available

text \<open>The outcome of \<open>read_pack_meta\<close> on one \<open>pack.toml\<close>.\<close>

datatype meta_source = Meta_Unreadable | Meta_Unparsable | Meta pack_meta

record found_pack =
  found_path :: string
  found_meta :: meta_source
  found_images :: "string \<Rightarrow> (string \<times> bool) list option"
  found_messages :: "string option"

section \<open>Image files\<close>

text \<open>The last component of a walked file path (such a path never ends with a
  separator or \<open>..\<close>).\<close>

definition file_name :: "string \<Rightarrow> string" where
  "file_name p = rev (takeWhile (\<lambda>c. c \<noteq> CHR ''/'') (rev p))"

text \<open>\<open>Path::extension\<close>: the part of the file name after its last dot, unless
  the name has no dot, is \<open>..\<close>, or its only dot is the first character.\<close>

definition extension :: "string \<Rightarrow> string option" where
  "extension p =
     (let n = file_name p;
          ext = rev (takeWhile (\<lambda>c. c \<noteq> CHR ''.'') (rev n));
          stem = take (length n - length ext - 1) n
      in if n = ''..'' \<or> CHR ''.'' \<notin> set n \<or> stem = [] then None else Some ext)"

definition ascii_lower :: "char \<Rightarrow> char" where
  "ascii_lower c =
     (if 65 \<le> (of_char c :: nat) \<and> (of_char c :: nat) \<le> 90 then char_of (of_char c + (32::nat)) else c)"

text \<open>\<open>ext.to_lowercase()\<close> compared with ASCII words: no character outside ASCII
  lowercases to one of the letters of png, jpg, jpeg or gif, so lowercasing the
  ASCII letters decides the comparison.\<close>

definition is_supported_image :: "string \<Rightarrow> bool" where
  "is_supported_image p =
     (case extension p of
        None \<Rightarrow> False
      | Some ext \<Rightarrow> map ascii_lower ext \<in> {''png'', ''jpg'', ''jpeg'', ''gif''})"

text \<open>\<open>collect_images\<close>: the walk of the images directory (\<open>None\<close> if it does
  not exist), each entry with whether it is a regular file.\<close>

definition collect_images :: "(string \<times> bool) list option \<Rightarrow> string list" where
  "collect_images walked =
     (case walked of
        None \<Rightarrow> []
      | Some es \<Rightarrow> map fst (filter (\<lambda>(path, is_file). is_file \<and> is_supported_image path) es))"

section \<open>Messages\<close>

definition strip_cr :: "string \<Rightarrow> string" where
  "strip_cr l = (if l \<noteq> [] \<and> last l = CHR 0x0D then butlast l else l)"

text \<open>\<open>str::lines\<close>: split at line feeds, drop a carriage return before a line
  feed, no empty line after a final line feed.\<close>

fun split_lines :: "string \<Rightarrow> string \<Rightarrow> string list" where
  "split_lines cur [] = (if cur = [] then [] else [cur])"
| "split_lines cur (c # cs) =
     (if c = CHR 0x0A then strip_cr cur # split_lines [] cs else split_lines (cur @ [c]) cs)"

definition str_lines :: "string \<Rightarrow> string list" where
  "str_lines s = split_lines [] s"

text \<open>The UTF-8 encodings of the characters with the Unicode property White_Space,
  which \<open>char::is_whitespace\<close> tests and \<open>str::trim\<close> removes.\<close>

definition ws_encodings :: "string list" where
  "ws_encodings =
     [[CHR 0x09], [CHR 0x0A], [CHR 0x0B], [CHR 0x0C], [CHR 0x0D], [CHR 0x20],
      [CHR 0xC2, CHR 0x85], [CHR 0xC2, CHR 0xA0], [CHR 0xE1, CHR 0x9A, CHR 0x80]] @
     map (\<lambda>b. [CHR 0xE2, CHR 0x80, char_of (b::nat)]) [0x80..<0x8B] @
     [[CHR 0xE2, CHR 0x80, CHR 0xA8], [CHR 0xE2, CHR 0x80, CHR 0xA9], [CHR 0xE2, CHR 0x80, CHR 0xAF],
      [CHR 0xE2, CHR 0x81, CHR 0x9F], [CHR 0xE3, CHR 0x80, CHR 0x80]]"

text \<open>Remove leading occurrences of the given non-empty byte strings.\<close>

function (domintros) strip_leading :: "string list \<Rightarrow> string \<Rightarrow> string" where
  "strip_leading ws s =
     (case find (\<lambda>w. w \<noteq> [] \<and> prefix w s) ws of
        Some w \<Rightarrow> strip_leading ws (drop (length w) s)
      | None \<Rightarrow> s)"
  by pat_completeness auto
termination
proof (relation "measure (\<lambda>(ws, s). length s)")
  fix ws s w
  assume "find (\<lambda>w. w \<noteq> [] \<and> prefix w s) ws = Some w"
  then have "w \<noteq> []" "prefix w s" by (auto dest: find_Some_iff [THEN iffD1])
  then have "0 < length w" "length w \<le> length s" by (auto dest: prefix_length_le)
  then have "length s - length w < length s" by linarith
  then show "((ws, drop (length w) s), ws, s) \<in> measure (\<lambda>(ws, s). length s)" by simp
qed simp

declare strip_leading.simps [simp del]

definition trim_start :: "string \<Rightarrow> string" where
  "trim_start s = strip_leading ws_encodings s"

definition trim_end :: "string \<Rightarrow> string" where
  "trim_end s = rev (strip_leading (map rev ws_encodings) (rev s))"

definition trim :: "string \<Rightarrow> string" where
  "trim s = trim_start (trim_end s)"

text \<open>\<open>read_messages\<close>: the contents of \<open>messages.txt\<close> if it exists and could be
  read, cut into trimmed non-empty lines.\<close>

definition read_messages :: "string option \<Rightarrow> string list" where
  "read_messages src =
     (case src of None \<Rightarrow> [] | Some contents \<Rightarrow> filter (\<lambda>l. l \<noteq> []) (map trim (str_lines contents)))"

section \<open>Scanning the search paths\<close>

text \<open>The loop of \<open>scan_packs\<close> over the \<open>pack.toml\<close> files in walk order, with
  the packs kept so far (their names are the set \<open>seen\<close>): a metadata error
  aborts the scan, a pack whose name was seen or that has no image is skipped.\<close>

fun scan_found :: "found_pack list \<Rightarrow> pack list \<Rightarrow> pack_error + pack list" where
  "scan_found [] acc = Inr acc"
| "scan_found (f # fs) acc =
     (case found_meta f of
        Meta_Unreadable \<Rightarrow> Inl (Reading_Pack_Meta (found_path f))
      | Meta_Unparsable \<Rightarrow> Inl (Parsing_Pack_Meta (found_path f))
      | Meta m \<Rightarrow>
          if pack_name m \<in> set (map (pack_name \<circ> meta) acc) then scan_found fs acc
          else
            let imgs = collect_images (found_images f (images_dir m))
            in if imgs = [] then scan_found fs acc
               else scan_found fs (acc @ [\<lparr>meta = m, images = imgs,
                                          messages = read_messages (found_messages f)\<rparr>]))"

text \<open>One entry per search path: \<open>None\<close> if it does not exist.\<close>

definition scan_packs :: "found_pack list option list \<Rightarrow> pack_error + pack list" where
  "scan_packs bases = scan_found (concat (map (\<lambda>b. case b of None \<Rightarrow> [] | Some fs \<Rightarrow> fs) bases)) []"

section \<open>Choosing the message and the image\<close>

type_synonym seeded_gen = "u64 \<Rightarrow> nat \<Rightarrow> nat"
type_synonym entropy = "nat \<Rightarrow> nat"

definition pick_index :: "seeded_gen \<Rightarrow> entropy \<Rightarrow> nat \<Rightarrow> u64 option \<Rightarrow> pack_error + nat" where
  "pick_index gen ent len seed =
     (if len = 0 then Inl No_Images_Available
      else Inr (case seed of Some s \<Rightarrow> gen s len | None \<Rightarrow> ent len))"

definition DEFAULT_MESSAGE :: string where
  "DEFAULT_MESSAGE = ''Hello from leftysay!''"

definition chosen_pack :: "cli \<Rightarrow> config \<Rightarrow> string" where
  "chosen_pack cl cfg = (case cli_pack cl of Some n \<Rightarrow> n | None \<Rightarrow> default_pack cfg)"

definition find_pack :: "pack list \<Rightarrow> string \<Rightarrow> pack option" where
  "find_pack packs name = find (\<lambda>p. pack_name (meta p) = name) packs"

definition resolve_message ::
  "seeded_gen \<Rightarrow> entropy \<Rightarrow> cli \<Rightarrow> pack list \<Rightarrow> config \<Rightarrow> u64 option \<Rightarrow> pack_error + string" where
  "resolve_message gen ent cl packs cfg seed =
     (case cli_text cl of
        Some t \<Rightarrow> Inr t
      | None \<Rightarrow>
          (case find_pack packs (chosen_pack cl cfg) of
             Some p \<Rightarrow>
               if messages p \<noteq> [] then
                 rbind (pick_index gen ent (length (messages p)) seed) (\<lambda>idx. Inr (messages p ! idx))
               else Inr DEFAULT_MESSAGE
           | None \<Rightarrow> Inr DEFAULT_MESSAGE))"

definition resolve_image ::
  "seeded_gen \<Rightarrow> entropy \<Rightarrow> cli \<Rightarrow> pack list \<Rightarrow> config \<Rightarrow> u64 option \<Rightarrow> pack_error + string" where
  "resolve_image gen ent cl packs cfg seed =
     (case cli_image cl of
        Some path \<Rightarrow> Inr path
      | None \<Rightarrow>
          (case find_pack packs (chosen_pack cl cfg) of
             None \<Rightarrow> Inl (Pack_Not_Found (chosen_pack cl cfg))
           | Some p \<Rightarrow> rbind (pick_index gen ent (length (images p)) seed) (\<lambda>idx. Inr (images p ! idx))))"

definition rng_ok :: "seeded_gen \<Rightarrow> entropy \<Rightarrow> bool" where
  "rng_ok gen ent \<longleftrightarrow> (\<forall>s len. 0 < len \<longrightarrow> gen s len < len) \<and> (\<forall>len. 0 < len \<longrightarrow> ent len < len)"

text \<open>What resolve_image may return: the --image path, or any image of the
  chosen pack; nothing when that pack is missing.\<close>

definition image_choices :: "cli \<Rightarrow> pack list \<Rightarrow> config \<Rightarrow> string set" where
  "image_choices cl packs cfg =
     (case cli_image cl of
        Some p \<Rightarrow> {p}
      | None \<Rightarrow> (case find_pack packs (chosen_pack cl cfg) of None \<Rightarrow> {} | Some pk \<Rightarrow> set (images pk)))"

text \<open>What \<open>scan_packs\<close> keeps: a pack with at least one image, every image
  with a supported extension, every message non-empty.\<close>

definition pack_ok :: "pack \<Rightarrow> bool" where
  "pack_ok p \<longleftrightarrow> images p \<noteq> [] \<and> list_all is_supported_image (images p) \<and> list_all (\<lambda>m. m \<noteq> []) (messages p)"

section \<open>A concrete pack\<close>

abbreviation lefty_meta :: pack_meta where
  "lefty_meta \<equiv> \<lparr>pack_name = ''lefty'', version = ''1.0'', license = ''MIT'',
                   description = ''left-handed cats'', images_dir = ''images''\<rparr>"

abbreviation lefty_found :: found_pack where
  "lefty_found \<equiv> \<lparr>found_path = ''packs/lefty/pack.toml'', found_meta = Meta lefty_meta,
      found_images = (\<lambda>d. Some [(''packs/lefty/'' @ d @ ''/cat.PNG'', True),
                                 (''packs/lefty/'' @ d @ ''/notes.txt'', True),
                                 (''packs/lefty/'' @ d @ ''/.png'', True)]),
      found_messages = Some (''  hi '' @ [CHR 0x0A] @ [CHR 0x0D, CHR 0x0A] @ ''meow'' @ [CHR 0x0D, CHR 0x0A])\<rparr>"

abbreviation broken_found :: found_pack where
  "broken_found \<equiv> lefty_found\<lparr>found_path := ''packs/bad/pack.toml'', found_meta := Meta_Unparsable\<rparr>"

abbreviation lefty_cli :: cli where
  "lefty_cli \<equiv> no_options\<lparr>cli_pack := Some ''lefty''\<rparr>"

abbreviation lefty_pack :: pack where
  "lefty_pack \<equiv> \<lparr>meta = lefty_meta, images = [''packs/lefty/images/cat.PNG''], messages = [''hi'', ''meow'']\<rparr>"

abbreviation pair_pack :: pack where
  "pair_pack \<equiv> lefty_pack\<lparr>images := [''a.png'', ''b.png'']\<rparr>"

text \<open>A generator that always draws the first index, and one that draws the seed
  modulo the length.\<close>

abbreviation first_gen :: seeded_gen where
  "first_gen \<equiv> \<lambda>s len. 0"

abbreviation mod_gen :: seeded_gen where
  "mod_gen \<equiv> \<lambda>s len. unat s mod len"

abbreviation first_ent :: entropy where
  "first_ent \<equiv> \<lambda>len. 0"

section \<open>Lemmas\<close>

lemma collect_images_supported: "i \<in> set (collect_images w) \<Longrightarrow> is_supported_image i"
  by (auto simp: collect_images_def split: option.splits)

lemma read_messages_nonempty: "m \<in> set (read_messages src) \<Longrightarrow> m \<noteq> []"
  by (auto simp: read_messages_def split: option.splits)

lemma scan_found_wf:
  assumes "scan_found fs acc = Inr packs"
    and "distinct (map (pack_name \<circ> meta) acc)"
    and "list_all pack_ok acc"
  shows "distinct (map (pack_name \<circ> meta) packs) \<and> list_all pack_ok packs"
  using assms
proof (induction fs acc rule: scan_found.induct)
  case (2 f fs acc)
  show ?case
  proof (cases "found_meta f")
    case (Meta m)
    with "2.prems"(1) "2.IH" [OF Meta] "2.prems"(2,3) show ?thesis
      by (auto simp: Let_def pack_ok_def list_all_iff collect_images_supported read_messages_nonempty
               split: if_splits)
  qed (use "2.prems" in simp_all)
qed simp

lemma scan_found_bad_meta:
  assumes "f \<in> set fs" "found_meta f = Meta_Unreadable \<or> found_meta f = Meta_Unparsable"
  shows "\<exists>path. scan_found fs acc = Inl (Reading_Pack_Meta path) \<or> scan_found fs acc = Inl (Parsing_Pack_Meta path)"
  using assms
proof (induction fs acc rule: scan_found.induct)
  case (2 g fs acc)
  show ?case
  proof (cases "g = f")
    case True
    with "2.prems"(2) show ?thesis by auto
  next
    case False
    with "2.prems" have f: "f \<in> set fs" by simp
    show ?thesis
    proof (cases "found_meta g")
      case (Meta m)
      with "2.IH" f "2.prems"(2) show ?thesis by (auto simp: Let_def)
    qed simp_all
  qed
qed simp

lemma pick_index_ok:
  "rng_ok gen ent \<Longrightarrow> 0 < len \<Longrightarrow> \<exists>i<len. pick_index gen ent len seed = Inr i"
  by (auto simp: pick_index_def rng_ok_def split: option.splits)

lemma find_pack_Some: "find_pack packs n = Some p \<Longrightarrow> p \<in> set packs \<and> pack_name (meta p) = n"
  by (auto simp: find_pack_def dest: find_Some_iff [THEN iffD1])

lemma find_prefix_shorter:
  "find (\<lambda>w. w \<noteq> [] \<and> prefix w s) ws = Some w \<Longrightarrow> length (drop (length w) s) < length s"
proof -
  assume "find (\<lambda>w. w \<noteq> [] \<and> prefix w s) ws = Some w"
  then have "w \<noteq> []" "prefix w s" by (auto dest: find_Some_iff [THEN iffD1])
  then have "0 < length w" "length w \<le> length s" by (auto dest: prefix_length_le)
  then have "length s - length w < length s" by linarith
  then show ?thesis by simp
qed

lemma length_strip_leading: "length (strip_leading ws s) \<le> length s"
proof (induction ws s rule: strip_leading.induct)
  case (1 ws s)
  then show ?case
    by (subst strip_leading.simps) (auto split: option.splits dest: order_trans)
qed

lemma split_lines_line:
  "CHR 0x0A \<notin> set l \<Longrightarrow> split_lines cur (l @ CHR 0x0A # rest) = strip_cr (cur @ l) # split_lines [] rest"
  by (induction l arbitrary: cur) auto

lemma str_lines_concat:
  "\<forall>l\<in>set ls. CHR 0x0A \<notin> set l \<Longrightarrow> str_lines (concat (map (\<lambda>l. l @ [CHR 0x0A]) ls)) = map strip_cr ls"
  unfolding str_lines_def by (induction ls) (simp_all add: split_lines_line)

lemma trim_last_not_cr:
  assumes "trim l = l" "l \<noteq> []"
  shows "last l \<noteq> CHR 0x0D"
proof
  assume cr: "last l = CHR 0x0D"
  then obtain t where t: "rev l = CHR 0x0D # t" using assms(2) by (cases "rev l") auto
  have "[CHR 0x0D] \<in> set (map rev ws_encodings) \<and> [CHR 0x0D] \<noteq> [] \<and> prefix [CHR 0x0D] (rev l)"
    by (simp add: ws_encodings_def t)
  then have "find (\<lambda>w. w \<noteq> [] \<and> prefix w (rev l)) (map rev ws_encodings) \<noteq> None"
    unfolding find_None_iff by blast
  then obtain w where w: "find (\<lambda>w. w \<noteq> [] \<and> prefix w (rev l)) (map rev ws_encodings) = Some w"
    by blast
  then have "length (drop (length w) (rev l)) < length l"
    using find_prefix_shorter [OF w] by simp
  with w length_strip_leading [of "map rev ws_encodings" "drop (length w) (rev l)"]
  have "length (trim_end l) < length l"
    by (simp add: trim_end_def strip_leading.simps [of _ "rev l"])
  moreover have "length (trim l) \<le> length (trim_end l)"
    by (simp add: trim_def trim_start_def length_strip_leading)
  ultimately show False using assms(1) by simp
qed

lemma concat_bases_mem: "Some fs \<in> set bases \<Longrightarrow> f \<in> set fs \<Longrightarrow>
  f \<in> set (concat (map (\<lambda>b. case b of None \<Rightarrow> [] | Some fs \<Rightarrow> fs) bases))"
  by force

lemma strip_cr_trimmed: "trim l = l \<Longrightarrow> strip_cr l = l"
  using trim_last_not_cr [of l] by (auto simp: strip_cr_def)

lemma scan_packs_bad_meta_Inl:
  "Some fs \<in> set bases \<Longrightarrow> f \<in> set fs \<Longrightarrow> found_meta f = Meta_Unreadable \<or> found_meta f = Meta_Unparsable
   \<Longrightarrow> \<exists>err. scan_packs bases = Inl err"
  unfolding scan_packs_def using scan_found_bad_meta [OF concat_bases_mem] by blast

lemma scan_found_prefix: "scan_found fs acc = Inr packs \<Longrightarrow> \<exists>ys. packs = acc @ ys"
  by (induction fs acc rule: scan_found.induct)
     (fastforce simp: Let_def split: meta_source.splits if_splits)+

lemma scan_packs_ok: "scan_packs bases = Inr packs \<Longrightarrow> list_all pack_ok packs"
  unfolding scan_packs_def using scan_found_wf by fastforce

lemma resolve_image_in_pack:
  assumes "rng_ok gen ent" "cli_image cl = None" "resolve_image gen ent cl packs cfg seed = Inr img"
  shows "\<exists>p. find_pack packs (chosen_pack cl cfg) = Some p \<and> img \<in> set (images p)"
proof (cases "find_pack packs (chosen_pack cl cfg)")
  case (Some p)
  with assms pick_index_ok [OF assms(1), of "length (images p)" seed] show ?thesis
    by (cases "images p = []") (auto simp: resolve_image_def pick_index_def)
qed (use assms in \<open>simp add: resolve_image_def\<close>)

lemma resolve_image_pick:
  assumes "cli_image cl = None" "find_pack packs (chosen_pack cl cfg) = Some pk" "images pk \<noteq> []"
  shows "resolve_image gen ent cl packs cfg seed =
           Inr (images pk ! (case seed of Some s \<Rightarrow> gen s (length (images pk)) | None \<Rightarrow> ent (length (images pk))))"
  using assms by (simp add: resolve_image_def pick_index_def)

section \<open>Properties of pack discovery\<close>

text \<open>C13: Every pack that scan_packs returns has a name no earlier pack has, at
  least one image, only images with a supported extension and only non-empty
  messages.\<close>

theorem scan_packs_wf:
  "scan_packs bases = Inr packs \<Longrightarrow> distinct (map (pack_name \<circ> meta) packs) \<and> list_all pack_ok packs"
  unfolding scan_packs_def by (erule scan_found_wf) simp_all

text \<open>One pack.toml that cannot be read or parsed, in any search path, makes
  scan_packs fail with a metadata error, whatever the other packs are.\<close>

theorem scan_packs_bad_meta:
  assumes "Some fs \<in> set bases" "f \<in> set fs"
    and "found_meta f = Meta_Unreadable \<or> found_meta f = Meta_Unparsable"
  shows "\<exists>path. scan_packs bases = Inl (Reading_Pack_Meta path) \<or> scan_packs bases = Inl (Parsing_Pack_Meta path)"
  unfolding scan_packs_def using scan_found_bad_meta [OF concat_bases_mem [OF assms(1,2)] assms(3)] .

text \<open>Without --image, resolve_image fails with "pack not found" when the
  chosen pack is missing, with "no images available" when it has no image, and
  otherwise returns one of its images.\<close>

theorem resolve_image_cases:
  assumes "rng_ok gen ent" "cli_image cl = None"
  shows "case find_pack packs (chosen_pack cl cfg) of
           None \<Rightarrow> resolve_image gen ent cl packs cfg seed = Inl (Pack_Not_Found (chosen_pack cl cfg))
         | Some p \<Rightarrow>
             (if images p = [] then resolve_image gen ent cl packs cfg seed = Inl No_Images_Available
              else \<exists>i<length (images p). resolve_image gen ent cl packs cfg seed = Inr (images p ! i))"
proof (cases "find_pack packs (chosen_pack cl cfg)")
  case (Some p)
  then show ?thesis
    using assms pick_index_ok [OF assms(1), of "length (images p)" seed]
    by (auto simp: resolve_image_def pick_index_def)
qed (use assms in \<open>simp add: resolve_image_def\<close>)

text \<open>The function resolve_message never fails: it returns the --text argument if given,
  else a message of the chosen pack if it has any, else the default message.\<close>

theorem resolve_message_cases:
  assumes "rng_ok gen ent"
  shows "\<exists>m. resolve_message gen ent cl packs cfg seed = Inr m \<and>
           (case cli_text cl of
              Some t \<Rightarrow> m = t
            | None \<Rightarrow>
                (case find_pack packs (chosen_pack cl cfg) of
                   Some p \<Rightarrow> (if messages p = [] then m = DEFAULT_MESSAGE else m \<in> set (messages p))
                 | None \<Rightarrow> m = DEFAULT_MESSAGE))"
proof (cases "cli_text cl")
  case None
  show ?thesis
  proof (cases "find_pack packs (chosen_pack cl cfg)")
    case (Some p)
    then show ?thesis
      using None pick_index_ok [OF assms, of "length (messages p)" seed]
      by (auto simp: resolve_message_def)
  qed (use None in \<open>simp add: resolve_message_def\<close>)
qed (simp add: resolve_message_def)

text \<open>C22: With a seed and a pack that has as many messages as images, the message
  and the image are drawn with the same index: message k always comes with image
  k, since both draws seed a fresh generator with the same seed.\<close>

theorem seeded_pick_pairs:
  assumes "cli_text cl = None" "cli_image cl = None"
    and "find_pack packs (chosen_pack cl cfg) = Some p"
    and "length (messages p) = length (images p)" "images p \<noteq> []"
  shows "resolve_message gen ent cl packs cfg (Some s) = Inr (messages p ! gen s (length (images p))) \<and>
         resolve_image gen ent cl packs cfg (Some s) = Inr (images p ! gen s (length (images p)))"
proof -
  have "messages p \<noteq> []" using assms(4,5) by auto
  then show ?thesis using assms by (simp add: resolve_message_def resolve_image_def pick_index_def)
qed

text \<open>C16: resolve_image refines the choice of an image: with a generator that
  draws below the length, it fails exactly when there is nothing to choose from,
  and otherwise returns one of the choices; and every choice is returned by some
  such generator, so no image of the pack is out of reach.\<close>

theorem resolve_image_refines_choice:
  assumes "rng_ok gen ent"
  shows "((\<exists>err. resolve_image gen ent cl packs cfg seed = Inl err) \<longleftrightarrow> image_choices cl packs cfg = {}) \<and>
         (\<forall>img. resolve_image gen ent cl packs cfg seed = Inr img \<longrightarrow> img \<in> image_choices cl packs cfg) \<and>
         (\<forall>img\<in>image_choices cl packs cfg. \<exists>gen' ent'. rng_ok gen' ent' \<and>
            resolve_image gen' ent' cl packs cfg seed = Inr img)"
proof (cases "cli_image cl")
  case None
  show ?thesis
  proof (cases "find_pack packs (chosen_pack cl cfg)")
    case (Some pk)
    have ch: "image_choices cl packs cfg = set (images pk)" using None Some by (simp add: image_choices_def)
    have err: "(\<exists>err. resolve_image gen ent cl packs cfg seed = Inl err) \<longleftrightarrow> images pk = []"
      using None Some by (simp add: resolve_image_def pick_index_def)
    have res: "img \<in> set (images pk)" if "resolve_image gen ent cl packs cfg seed = Inr img" for img
    proof -
      have ne: "images pk \<noteq> []" using that err by auto
      have "(case seed of Some s \<Rightarrow> gen s (length (images pk)) | None \<Rightarrow> ent (length (images pk))) < length (images pk)"
        using assms ne by (simp add: rng_ok_def split: option.split)
      then show ?thesis using that resolve_image_pick [OF None Some ne, of gen ent seed] by auto
    qed
    have reach: "\<exists>gen' ent'. rng_ok gen' ent' \<and> resolve_image gen' ent' cl packs cfg seed = Inr img"
      if "img \<in> set (images pk)" for img
    proof -
      have "\<exists>i<length (images pk). images pk ! i = img" using that by (simp add: in_set_conv_nth)
      then obtain i where i: "i < length (images pk)" "img = images pk ! i" by blast
      then have ne: "images pk \<noteq> []" by auto
      define g :: seeded_gen where "g = (\<lambda>s len. if len = length (images pk) then i else 0)"
      define en :: entropy where "en = (\<lambda>len. if len = length (images pk) then i else 0)"
      have "rng_ok g en" using i(1) by (simp add: rng_ok_def g_def en_def)
      moreover have "resolve_image g en cl packs cfg seed = Inr img"
        using resolve_image_pick [OF None Some ne, of g en seed] i(2) by (simp add: g_def en_def split: option.split)
      ultimately show ?thesis by blast
    qed
    show ?thesis unfolding ch using err res reach by simp
  qed (use None in \<open>simp add: image_choices_def resolve_image_def\<close>)
next
  case (Some p)
  have "rng_ok (\<lambda>s len. 0) (\<lambda>len. 0)" by (simp add: rng_ok_def)
  with Some show ?thesis by (simp add: image_choices_def resolve_image_def) blast
qed

section \<open>Witnesses\<close>

lemma first_rng_ok: "rng_ok first_gen first_ent"
  by (simp add: rng_ok_def)

lemma lefty_scan: "scan_packs [None, Some [lefty_found]] = Inr [lefty_pack]"
  by code_simp

theorem scan_packs_wf_witness:
  "distinct (map (pack_name \<circ> meta) [lefty_pack]) \<and> list_all pack_ok [lefty_pack]"
  using scan_packs_wf [OF lefty_scan] .

theorem scan_packs_bad_meta_witness:
  "(\<exists>path. scan_packs [Some [lefty_found], Some [broken_found]] = Inl (Reading_Pack_Meta path) \<or>
           scan_packs [Some [lefty_found], Some [broken_found]] = Inl (Parsing_Pack_Meta path)) \<and>
   scan_packs [Some [lefty_found], Some [broken_found]] = Inl (Parsing_Pack_Meta ''packs/bad/pack.toml'')"
proof
  show "\<exists>path. scan_packs [Some [lefty_found], Some [broken_found]] = Inl (Reading_Pack_Meta path) \<or>
              scan_packs [Some [lefty_found], Some [broken_found]] = Inl (Parsing_Pack_Meta path)"
    by (rule scan_packs_bad_meta [where fs = "[broken_found]" and f = broken_found]) simp_all
qed code_simp

theorem resolve_image_cases_witness:
  "rng_ok first_gen first_ent \<and> cli_image lefty_cli = None \<and>
   resolve_image first_gen first_ent lefty_cli [lefty_pack] default_config None = Inr ''packs/lefty/images/cat.PNG''"
  using resolve_image_cases [OF first_rng_ok, of lefty_cli "[lefty_pack]" default_config None]
  by (simp add: first_rng_ok find_pack_def chosen_pack_def)

theorem resolve_message_cases_witness:
  "rng_ok first_gen first_ent \<and>
   (\<exists>m. resolve_message first_gen first_ent lefty_cli [lefty_pack] default_config None = Inr m \<and> m \<in> set [''hi'', ''meow''])"
  using resolve_message_cases [OF first_rng_ok, of lefty_cli "[lefty_pack]" default_config None]
  by (simp add: first_rng_ok find_pack_def chosen_pack_def)

theorem seeded_pick_pairs_witness:
  "resolve_message mod_gen first_ent lefty_cli [pair_pack] default_config (Some 1) = Inr ''meow'' \<and>
   resolve_image mod_gen first_ent lefty_cli [pair_pack] default_config (Some 1) = Inr ''b.png''"
  using seeded_pick_pairs [of lefty_cli "[pair_pack]" default_config pair_pack mod_gen first_ent 1]
  by (simp add: find_pack_def chosen_pack_def)

theorem resolve_image_refines_choice_witness:
  "rng_ok first_gen first_ent \<and> image_choices lefty_cli [pair_pack] default_config = {''a.png'', ''b.png''} \<and>
   (\<exists>gen' ent'. rng_ok gen' ent' \<and> resolve_image gen' ent' lefty_cli [pair_pack] default_config None = Inr ''b.png'')"
proof -
  have c: "image_choices lefty_cli [pair_pack] default_config = {''a.png'', ''b.png''}"
    by (simp add: image_choices_def find_pack_def chosen_pack_def)
  have "''b.png'' \<in> image_choices lefty_cli [pair_pack] default_config"
    by (simp add: image_choices_def find_pack_def chosen_pack_def)
  then have "\<exists>gen' ent'. rng_ok gen' ent' \<and> resolve_image gen' ent' lefty_cli [pair_pack] default_config None = Inr ''b.png''"
    using resolve_image_refines_choice [OF first_rng_ok, of lefty_cli "[pair_pack]" default_config None] by blast
  with first_rng_ok c show ?thesis by blast
qed

end
