(* ===== verification/Main_Run.thy ===== *)
theory Main_Run
  imports Packs
begin

text \<open>
  The whole of \<^verbatim>\<open>main\<close> (\<^verbatim>\<open>src/main.rs\<close>: \<open>main\<close>, \<open>find_chafa\<close>,
  \<open>pack_search_paths\<close>, \<open>print_pack_list\<close>, \<open>print_doctor\<close>). The host is
  what the program reads from its surroundings: the target operating system, the
  environment variables \<open>LEFTYSAY_PACKS_DIR\<close>, \<open>LEFTYSAY_CHAFA\<close>, \<open>PATH\<close>
  (already split into directories) and \<open>HOMEBREW_PREFIX\<close>, the project
  directories (configuration, data, cache), which paths exist and which are
  regular files, and the \<open>pack.toml\<close> files a walk of each search path finds.
  Paths follow Unix conventions: \<open>Path::join\<close> inserts one slash unless the
  left side is empty or already ends with one, and an absolute right side
  replaces the left. \<open>leftysay_run\<close> composes the configuration, the chafa
  lookup, the early exits for \<open>--doctor\<close> and \<open>--list\<close>, the pack scan, the
  choice of message and image, and \<open>leftysay_main\<close>; the message and the image
  are drawn with two independent unseeded draws \<open>ent1\<close> and \<open>ent2\<close>. The
  \<open>Display\<close> of an \<open>f32\<close> (the shortest decimal that reads back) is the
  parameter \<open>show_f32\<close>.
\<close>

section \<open>The host\<close>

datatype os_kind = Linux | MacOS | Windows | Other_OS

record host =
  target_os :: os_kind
  var_packs_dir :: "string option"
  var_chafa :: "string option"
  var_path :: "string list option"
  var_homebrew_prefix :: "string option"
  project_dirs :: "(string \<times> string \<times> string) option"
  exists_path :: "string \<Rightarrow> bool"
  is_file :: "string \<Rightarrow> bool"
  walk_packs :: "string \<Rightarrow> found_pack list"

definition path_join :: "string \<Rightarrow> string \<Rightarrow> string" where
  "path_join a b =
     (if b \<noteq> [] \<and> hd b = CHR ''/'' then b
      else if a = [] \<or> last a = CHR ''/'' then a @ b else a @ ''/'' @ b)"

section \<open>Locating chafa\<close>

definition install_hint :: "os_kind \<Rightarrow> string" where
  "install_hint os =
     (case os of
        Linux \<Rightarrow> ''Install: sudo apt install chafa (Debian/Ubuntu) or sudo pacman -S chafa (Arch)''
      | MacOS \<Rightarrow> ''Install: brew install chafa''
      | _ \<Rightarrow> ''Install chafa from your package manager'')"

definition chafa_candidate :: "os_kind \<Rightarrow> string" where
  "chafa_candidate os = (if os = Windows then ''chafa.exe'' else ''chafa'')"

text \<open>\<open>find_chafa\<close>: \<open>LEFTYSAY_CHAFA\<close> if it is set, else the first directory
  of \<open>PATH\<close> in which the candidate is a regular file; the error is the message
  with the install hint.\<close>

definition find_chafa :: "host \<Rightarrow> string + string" where
  "find_chafa h =
     (case var_chafa h of
        Some p \<Rightarrow> Inr p
      | None \<Rightarrow>
          let dirs = (case var_path h of Some ds \<Rightarrow> ds | None \<Rightarrow> [])
          in case find (is_file h) (map (\<lambda>d. path_join d (chafa_candidate (target_os h))) dirs) of
               Some full \<Rightarrow> Inr full
             | None \<Rightarrow> Inl (''leftysay requires chafa. '' @ install_hint (target_os h)))"

section \<open>Where packs are searched\<close>

definition pack_search_paths :: "host \<Rightarrow> string list" where
  "pack_search_paths h =
     (case var_packs_dir h of Some extra \<Rightarrow> [extra] | None \<Rightarrow> []) @
     (case project_dirs h of Some (_, data, _) \<Rightarrow> [path_join data ''packs''] | None \<Rightarrow> []) @
     (case target_os h of
        MacOS \<Rightarrow>
          filter (exists_path h)
            (map (\<lambda>prefix. path_join prefix ''share/leftysay/packs'')
               ((case var_homebrew_prefix h of Some p \<Rightarrow> [p] | None \<Rightarrow> []) @ [''/opt/homebrew'', ''/usr/local'']))
      | Linux \<Rightarrow> [''/usr/share/leftysay/packs'']
      | _ \<Rightarrow> []) @
     (if exists_path h ''packs'' then [''packs''] else [])"

text \<open>The input of \<open>scan_packs\<close>: per search path, the walk if the path exists.\<close>

definition search_bases :: "host \<Rightarrow> found_pack list option list" where
  "search_bases h = map (\<lambda>b. if exists_path h b then Some (walk_packs h b) else None) (pack_search_paths h)"

section \<open>The early exits\<close>

definition pack_line :: "pack_meta \<Rightarrow> string" where
  "pack_line m = pack_name m @ '' (v'' @ version m @ '', '' @ license m @ ''): '' @ description m"

definition print_pack_list :: "pack list \<Rightarrow> string list" where
  "print_pack_list packs =
     (if packs = [] then [''No packs found.'']
      else concat (map (\<lambda>p. pack_line (meta p) # map (\<lambda>i. ''  - '' @ file_name i) (images p)) packs))"

definition bool_string :: "bool \<Rightarrow> string" where
  "bool_string b = (if b then ''true'' else ''false'')"

definition print_doctor ::
  "host \<Rightarrow> (f32 \<Rightarrow> string) \<Rightarrow> string \<Rightarrow> nat \<Rightarrow> nat \<Rightarrow> config \<Rightarrow> string list" where
  "print_doctor h show_f32 chafa term_cols term_rows cfg =
     [''leftysay doctor'', ''chafa: '' @ chafa,
      ''terminal: '' @ dec_string term_cols @ '' cols x '' @ dec_string term_rows @ '' rows'',
      ''config.format: '' @ format_as_arg (cfg_format cfg),
      ''config.colors: '' @ colors_as_arg (cfg_colors cfg),
      ''config.max_height_ratio: '' @ show_f32 (max_height_ratio cfg),
      ''config.cache: '' @ bool_string (cache cfg),
      ''config.cache_max_mb: '' @ dec_string (unat (cfg_cache_max_mb cfg))] @
     (case project_dirs h of
        Some (c, d, k) \<Rightarrow> [''config dir: '' @ c, ''data dir: '' @ d, ''cache dir: '' @ k]
      | None \<Rightarrow> []) @
     ''pack search paths:'' # map (\<lambda>p. ''  - '' @ p) (pack_search_paths h)"

section \<open>main\<close>

datatype main_error =
    Config_Failed config_error
  | Chafa_Missing string  \<comment> \<open>\<open>"chafa missing"\<close>, after printing the message to stderr\<close>
  | Pack_Failed pack_error
  | Render_Failed render_error

text \<open>The lines printed by \<open>println!\<close>, the result (\<open>Inr s\<close>: \<open>s\<close> printed
  with \<open>print!\<close>), the cache directory and the chafa invocations.\<close>

definition leftysay_run ::
  "seeded_gen \<Rightarrow> entropy \<Rightarrow> entropy \<Rightarrow> wrapper \<Rightarrow> (f32 \<Rightarrow> string) \<Rightarrow> host \<Rightarrow> env \<Rightarrow> cli
   \<Rightarrow> config_source \<Rightarrow> (16 word \<times> 16 word) option \<Rightarrow> cache_fs
   \<Rightarrow> string list \<times> (main_error + string) \<times> cache_fs \<times> argv list" where
  "leftysay_run gen ent1 ent2 wrap show_f32 h e cl src ts fs =
     (case load_config src of
        Inl err \<Rightarrow> ([], Inl (Config_Failed err), fs, [])
      | Inr cfg \<Rightarrow>
          if \<not> enabled cfg then ([], Inr [], fs, [])
          else case find_chafa h of
            Inl msg \<Rightarrow> ([], Inl (Chafa_Missing msg), fs, [])
          | Inr chafa \<Rightarrow>
              let (term_cols, term_rows) = terminal_dimensions ts
              in if cli_doctor cl then (print_doctor h show_f32 chafa term_cols term_rows cfg, Inr [], fs, [])
              else case scan_packs (search_bases h) of
                Inl err \<Rightarrow> ([], Inl (Pack_Failed err), fs, [])
              | Inr packs \<Rightarrow>
                  if cli_list cl then (print_pack_list packs, Inr [], fs, [])
                  else case resolve_message gen ent1 cl packs cfg (cli_seed cl) of
                    Inl err \<Rightarrow> ([], Inl (Pack_Failed err), fs, [])
                  | Inr message \<Rightarrow>
                      (case resolve_image gen ent2 cl packs cfg (cli_seed cl) of
                         Inl err \<Rightarrow> ([], Inl (Pack_Failed err), fs, [])
                       | Inr image_path \<Rightarrow>
                           let (out, res, fs', spawned) =
                                 leftysay_main wrap (e\<lparr>chafa_path := chafa\<rparr>) cl cfg ts message image_path fs
                           in (out, map_sum Render_Failed id res, fs', spawned)))"


section \<open>A concrete host\<close>

text \<open>A Linux host with LEFTYSAY_PACKS_DIR set to an existing directory that
  holds the pack lefty, chafa in the second directory of PATH, and a system pack
  directory that holds another pack named lefty.\<close>

abbreviation other_lefty :: found_pack where
  "other_lefty \<equiv> lefty_found\<lparr>found_path := ''/usr/share/leftysay/packs/lefty/pack.toml'',
      found_images := (\<lambda>d. Some [(''/usr/share/leftysay/packs/lefty/dog.gif'', True)])\<rparr>"

abbreviation lin_host :: host where
  "lin_host \<equiv> \<lparr>target_os = Linux, var_packs_dir = Some ''/tmp/p'', var_chafa = None,
      var_path = Some [''/bin'', ''/usr/bin/''], var_homebrew_prefix = None,
      project_dirs = Some (''/h/.config/leftysay'', ''/h/.local/share/leftysay'', ''/h/.cache/leftysay''),
      exists_path = (\<lambda>p. p = ''/tmp/p'' \<or> p = ''/usr/share/leftysay/packs''),
      is_file = (\<lambda>p. p = ''/usr/bin/chafa''),
      walk_packs = (\<lambda>p. if p = ''/tmp/p'' then [lefty_found] else [other_lefty])\<rparr>"

abbreviation broken_host :: host where
  "broken_host \<equiv> lin_host\<lparr>walk_packs := (\<lambda>_. [lefty_found, broken_found])\<rparr>"

abbreviation no_chafa_host :: host where
  "no_chafa_host \<equiv> lin_host\<lparr>is_file := (\<lambda>_. False)\<rparr>"

abbreviation show_ratio :: "f32 \<Rightarrow> string" where
  "show_ratio \<equiv> \<lambda>_. ''0.55''"

abbreviation seeded_cli :: cli where
  "seeded_cli \<equiv> lefty_cli\<lparr>cli_seed := Some 7\<rparr>"

abbreviation text_image_cli :: cli where
  "text_image_cli \<equiv> no_options\<lparr>cli_text := Some ''hi'', cli_image := Some ''cat.png''\<rparr>"

section \<open>Lemmas on the run\<close>

lemma leftysay_run_spawned:
  assumes "leftysay_run gen ent1 ent2 wrap show_f32 h e cl src ts fs = (out, res, fs', sp)" "sp \<noteq> []"
  shows "\<exists>cfg chafa packs message image_path res'.
           load_config src = Inr cfg \<and> enabled cfg \<and> find_chafa h = Inr chafa \<and> \<not> cli_doctor cl \<and>
           scan_packs (search_bases h) = Inr packs \<and> \<not> cli_list cl \<and>
           resolve_message gen ent1 cl packs cfg (cli_seed cl) = Inr message \<and>
           resolve_image gen ent2 cl packs cfg (cli_seed cl) = Inr image_path \<and>
           leftysay_main wrap (e\<lparr>chafa_path := chafa\<rparr>) cl cfg ts message image_path fs = (out, res', fs', sp)"
  using assms
  by (auto simp: leftysay_run_def split: sum.splits if_splits prod.splits)

lemma leftysay_run_cache:
  assumes "leftysay_run gen ent1 ent2 wrap show_f32 h e cl src ts fs = (out, res, fs', sp)"
  shows "fs' = fs \<or> (\<exists>cfg e' message p res'. load_config src = Inr cfg \<and>
           leftysay_main wrap e' cl cfg ts message p fs = (out, res', fs', sp))"
  using assms by (auto simp: leftysay_run_def split: sum.splits if_splits prod.splits)

lemma leftysay_run_seed_indep:
  "cli_seed cl = Some s \<Longrightarrow>
   leftysay_run gen ent1 ent2 wrap show_f32 h e cl src ts fs = leftysay_run gen ent1' ent2' wrap show_f32 h e cl src ts fs"
proof -
  assume s: "cli_seed cl = Some s"
  have m: "resolve_message gen ent1 cl packs cfg (cli_seed cl) = resolve_message gen ent1' cl packs cfg (cli_seed cl)"
    for packs cfg
    using s by (simp add: resolve_message_def pick_index_def split: option.split)
  have i: "resolve_image gen ent2 cl packs cfg (cli_seed cl) = resolve_image gen ent2' cl packs cfg (cli_seed cl)"
    for packs cfg
    using s by (simp add: resolve_image_def pick_index_def split: option.split)
  show ?thesis unfolding leftysay_run_def m i ..
qed

lemma leftysay_run_cases:
  assumes "leftysay_run gen ent1 ent2 wrap show_f32 h e cl src ts fs = (out, res, fs', sp)"
  shows "(fs' = fs \<and> sp = [] \<and> (\<forall>fs0. leftysay_run gen ent1 ent2 wrap show_f32 h e cl src ts fs0 = (out, res, fs0, [])))
       \<or> (\<exists>cfg e' message p. load_config src = Inr cfg \<and> enabled cfg \<and>
            (\<forall>fs0. leftysay_run gen ent1 ent2 wrap show_f32 h e cl src ts fs0 =
               (case leftysay_main wrap e' cl cfg ts message p fs0 of
                  (out0, r, fs1, sp1) \<Rightarrow> (out0, map_sum Render_Failed id r, fs1, sp1))))"
    (is "?early \<or> ?main")
proof -
  obtain c r where d: "terminal_dimensions ts = (c, r)" by fastforce
  note run = assms [unfolded leftysay_run_def]
  show ?thesis
  proof (cases "load_config src")
    case (Inr cfg)
    show ?thesis
    proof (cases "enabled cfg \<and> (\<exists>chafa. find_chafa h = Inr chafa) \<and> \<not> cli_doctor cl \<and>
                  (\<exists>packs. scan_packs (search_bases h) = Inr packs \<and> \<not> cli_list cl \<and>
                     (\<exists>m. resolve_message gen ent1 cl packs cfg (cli_seed cl) = Inr m) \<and>
                     (\<exists>p. resolve_image gen ent2 cl packs cfg (cli_seed cl) = Inr p))")
      case True
      then obtain chafa packs m p where f:
        "enabled cfg" "find_chafa h = Inr chafa" "\<not> cli_doctor cl" "scan_packs (search_bases h) = Inr packs"
        "\<not> cli_list cl" "resolve_message gen ent1 cl packs cfg (cli_seed cl) = Inr m"
        "resolve_image gen ent2 cl packs cfg (cli_seed cl) = Inr p"
        by blast
      have ?main
        by (rule exI [of _ cfg], rule exI [of _ "e\<lparr>chafa_path := chafa\<rparr>"], rule exI [of _ m], rule exI [of _ p])
           (simp add: leftysay_run_def Inr d f split: prod.split)
      then show ?thesis ..
    next
      case False
      with run Inr d have ?early
        by (auto simp: leftysay_run_def split: sum.splits if_splits)
      then show ?thesis ..
    qed
  qed (use run in \<open>simp add: leftysay_run_def\<close>)
qed

lemma leftysay_run_main:
  assumes "load_config src = Inr cfg" "enabled cfg" "find_chafa h = Inr chafa" "\<not> cli_doctor cl"
    and "scan_packs (search_bases h) = Inr packs" "\<not> cli_list cl"
    and "resolve_message gen ent1 cl packs cfg (cli_seed cl) = Inr message"
    and "resolve_image gen ent2 cl packs cfg (cli_seed cl) = Inr image_path"
    and "leftysay_main wrap (e\<lparr>chafa_path := chafa\<rparr>) cl cfg ts message image_path fs = (out, res, fs', sp)"
  shows "leftysay_run gen ent1 ent2 wrap show_f32 h e cl src ts fs = (out, map_sum Render_Failed id res, fs', sp)"
proof -
  obtain c r where "terminal_dimensions ts = (c, r)" by fastforce
  with assms show ?thesis by (simp add: leftysay_run_def)
qed

lemma leftysay_main_seed: "leftysay_main wrap e (cl\<lparr>cli_seed := x\<rparr>) cfg ts message p fs = leftysay_main wrap e cl cfg ts message p fs"
  by (simp add: leftysay_main_def main_bubble_def main_options_def main_ratio_def)

lemma leftysay_main_first_spawn:
  assumes "enabled cfg" "leftysay_main wrap e cl cfg ts message p fs = (out, res, fs', sp)" "sp \<noteq> []"
  shows "\<exists>c r f co a. hd sp = chafa_args p c r f co a"
proof -
  obtain c r where "terminal_dimensions ts = (c, r)" by fastforce
  with assms obtain opts where "render_image e p opts fs = (res, fs', sp)"
    by (auto simp: leftysay_main_eq Let_def split: prod.splits)
  from render_image_first_spawn [OF this assms(3)] show ?thesis by blast
qed

lemma search_bases_packs_dir:
  "var_packs_dir h = Some d \<Longrightarrow> exists_path h d \<Longrightarrow> \<exists>bs. search_bases h = Some (walk_packs h d) # bs"
  by (simp add: search_bases_def pack_search_paths_def)

lemma find_pack_Cons: "find_pack (p # ps) (pack_name (meta p)) = Some p"
  by (simp add: find_pack_def)

section \<open>Properties of the run\<close>

text \<open>C15: A pack.toml that cannot be read or parsed, in any existing search
  path, makes leftysay fail before it prints anything or runs chafa, even when
  --text and --image say that no pack is needed.\<close>

theorem run_bad_pack_aborts:
  assumes "load_config src = Inr cfg" "enabled cfg" "find_chafa h = Inr chafa" "\<not> cli_doctor cl"
    and "b \<in> set (pack_search_paths h)" "exists_path h b" "f \<in> set (walk_packs h b)"
    and "found_meta f = Meta_Unreadable \<or> found_meta f = Meta_Unparsable"
  shows "\<exists>err. leftysay_run gen ent1 ent2 wrap show_f32 h e cl src ts fs = ([], Inl (Pack_Failed err), fs, [])"
proof -
  have "Some (walk_packs h b) \<in> set (search_bases h)"
    using assms(5,6) by (force simp: search_bases_def)
  then obtain err where "scan_packs (search_bases h) = Inl err"
    using scan_packs_bad_meta_Inl assms(7,8) by blast
  moreover obtain c r where "terminal_dimensions ts = (c, r)" by fastforce
  ultimately show ?thesis using assms(1-4) by (simp add: leftysay_run_def)
qed

text \<open>C14: Without --image, every chafa run of leftysay renders an image of the
  chosen pack, and that image has a supported extension.\<close>

theorem run_renders_pack_image:
  assumes "rng_ok gen ent2" "cli_image cl = None"
    and "leftysay_run gen ent1 ent2 wrap show_f32 h e cl src ts fs = (out, res, fs', sp)" "sp \<noteq> []"
  shows "\<exists>cfg packs pk img. load_config src = Inr cfg \<and> scan_packs (search_bases h) = Inr packs \<and>
           find_pack packs (chosen_pack cl cfg) = Some pk \<and> img \<in> set (images pk) \<and>
           is_supported_image img \<and> (\<exists>c r f co a. hd sp = chafa_args img c r f co a)"
proof -
  obtain cfg chafa packs message img res' where
    run: "load_config src = Inr cfg" "enabled cfg" "scan_packs (search_bases h) = Inr packs"
         "resolve_image gen ent2 cl packs cfg (cli_seed cl) = Inr img"
         "leftysay_main wrap (e\<lparr>chafa_path := chafa\<rparr>) cl cfg ts message img fs = (out, res', fs', sp)"
    using leftysay_run_spawned [OF assms(3,4)] by blast
  obtain pk where pk: "find_pack packs (chosen_pack cl cfg) = Some pk" "img \<in> set (images pk)"
    using resolve_image_in_pack [OF assms(1,2) run(4)] by blast
  have "is_supported_image img"
    using scan_packs_ok [OF run(3)] find_pack_Some [OF pk(1)] pk(2)
    by (auto simp: pack_ok_def list_all_iff)
  with run pk leftysay_main_first_spawn [OF run(2,5) assms(4)] show ?thesis by blast
qed

text \<open>Unless LEFTYSAY_CHAFA is set, find_chafa returns the candidate in the
  first directory of PATH where it is a regular file.\<close>

theorem find_chafa_first_on_path:
  assumes "var_chafa h = None" "var_path h = Some ds"
  shows "find_chafa h = Inr p \<longleftrightarrow>
           (\<exists>i<length ds. p = path_join (ds ! i) (chafa_candidate (target_os h)) \<and> is_file h p \<and>
              (\<forall>j<i. \<not> is_file h (path_join (ds ! j) (chafa_candidate (target_os h)))))"
proof -
  have "find_chafa h = Inr p \<longleftrightarrow>
          find (is_file h) (map (\<lambda>d. path_join d (chafa_candidate (target_os h))) ds) = Some p"
    using assms by (simp add: find_chafa_def split: option.split)
  also have "\<dots> \<longleftrightarrow> (\<exists>i<length ds. p = path_join (ds ! i) (chafa_candidate (target_os h)) \<and> is_file h p \<and>
              (\<forall>j<i. \<not> is_file h (path_join (ds ! j) (chafa_candidate (target_os h)))))"
    unfolding find_Some_iff by (auto simp: nth_map)
  finally show ?thesis .
qed

text \<open>The first pack the walk of LEFTYSAY_PACKS_DIR finds, if it has an
  image, is the pack of its name: it shadows every pack of the same name in the
  other search paths.\<close>

theorem packs_dir_shadows:
  assumes "var_packs_dir h = Some d" "exists_path h d" "walk_packs h d = f # rest"
    and "found_meta f = Meta m" "collect_images (found_images f (images_dir m)) \<noteq> []"
    and "scan_packs (search_bases h) = Inr packs"
  shows "find_pack packs (pack_name m) =
           Some \<lparr>meta = m, images = collect_images (found_images f (images_dir m)),
                 messages = read_messages (found_messages f)\<rparr>"
proof -
  obtain bs where "search_bases h = Some (f # rest) # bs"
    using search_bases_packs_dir [OF assms(1,2)] assms(3) by auto
  then obtain ys where "packs = \<lparr>meta = m, images = collect_images (found_images f (images_dir m)),
                 messages = read_messages (found_messages f)\<rparr> # ys"
    using assms(4-6) scan_found_prefix by (fastforce simp: scan_packs_def Let_def)
  then show ?thesis using find_pack_Cons by (metis pack.select_convs(1))
qed

text \<open>C29: leftysay looks for chafa before it handles --doctor and --list, so
  when chafa is missing the diagnostics and the pack list are never printed: the
  run fails with "chafa missing".\<close>

theorem run_needs_chafa:
  assumes "load_config src = Inr cfg" "enabled cfg" "find_chafa h = Inl msg"
  shows "leftysay_run gen ent1 ent2 wrap show_f32 h e cl src ts fs = ([], Inl (Chafa_Missing msg), fs, [])"
  using assms by (simp add: leftysay_run_def)


section \<open>Witnesses\<close>

lemma demo_host_facts:
  "scan_packs (search_bases lin_host) = Inr [lefty_pack]"
  "find_chafa lin_host = Inr ''/usr/bin/chafa''"
  "find_chafa broken_host = Inr ''/usr/bin/chafa''"
  "find_chafa no_chafa_host = Inl (''leftysay requires chafa. '' @ install_hint Linux)"
  "load_config No_Config_File = Inr default_config"
  by code_simp+

lemma demo_lefty_choice:
  "resolve_message first_gen first_ent lefty_cli [lefty_pack] default_config (cli_seed lefty_cli) = Inr ''hi''"
  "resolve_image first_gen first_ent lefty_cli [lefty_pack] default_config (cli_seed lefty_cli) =
     Inr ''packs/lefty/images/cat.PNG''"
  by (simp_all add: resolve_message_def resolve_image_def find_pack_def chosen_pack_def pick_index_def)

lemma demo_lefty_layout:
  "render_bubble wrap_greedy ''hi'' 80 = ['' ____'', ''< hi >'', '' ----'']"
  "image_rows 24 3 (effective_ratio None DEFAULT_MAX_HEIGHT_RATIO) = 13"
  by code_simp+

lemma demo_lefty_main:
  "\<exists>fs1 sp. leftysay_main wrap_greedy (demo_env\<lparr>chafa_path := ''/usr/bin/chafa''\<rparr>) lefty_cli default_config
     None ''hi'' ''packs/lefty/images/cat.PNG'' fresh_cache = (['' ____'', ''< hi >'', '' ----''], Inr ''IMG'', fs1, sp)
     \<and> sp \<noteq> [] \<and> files fs1 \<noteq> []"
  by (simp add: leftysay_main_eq [OF _ demo_main_dims] default_config_def demo_lefty_layout main_bubble_def
        main_ratio_def printed_bubble_def main_options_def DEFAULT_CACHE_MAX_MB_def demo_render_defs)

theorem run_bad_pack_aborts_witness:
  "\<exists>err. leftysay_run first_gen first_ent first_ent wrap_greedy show_ratio broken_host demo_env text_image_cli
     No_Config_File None fresh_cache = ([], Inl (Pack_Failed err), fresh_cache, [])"
  by (rule run_bad_pack_aborts [OF demo_host_facts(5) demo_main_facts(1) demo_host_facts(3),
        where b = "''/tmp/p''" and f = broken_found])
     (simp_all add: pack_search_paths_def)

lemma demo_lefty_run:
  "\<exists>fs1 sp. leftysay_run first_gen first_ent first_ent wrap_greedy show_ratio lin_host demo_env lefty_cli
     No_Config_File None fresh_cache = (['' ____'', ''< hi >'', '' ----''], Inr ''IMG'', fs1, sp) \<and>
     sp \<noteq> [] \<and> files fs1 \<noteq> []"
proof -
  obtain fs1 sp where m: "leftysay_main wrap_greedy (demo_env\<lparr>chafa_path := ''/usr/bin/chafa''\<rparr>) lefty_cli
      default_config None ''hi'' ''packs/lefty/images/cat.PNG'' fresh_cache =
      (['' ____'', ''< hi >'', '' ----''], Inr ''IMG'', fs1, sp)" "sp \<noteq> []" "files fs1 \<noteq> []"
    using demo_lefty_main by blast
  have "leftysay_run first_gen first_ent first_ent wrap_greedy show_ratio lin_host demo_env lefty_cli
      No_Config_File None fresh_cache = (['' ____'', ''< hi >'', '' ----''], Inr ''IMG'', fs1, sp)"
    using leftysay_run_main [OF demo_host_facts(5) demo_main_facts(1) demo_host_facts(2) _ demo_host_facts(1) _
        demo_lefty_choice m(1)] by simp
  with m(2,3) show ?thesis by blast
qed

lemma demo_seeded_run:
  "\<exists>fs1 sp. leftysay_run first_gen first_ent first_ent wrap_greedy show_ratio lin_host demo_env seeded_cli
     No_Config_File None fresh_cache = (['' ____'', ''< hi >'', '' ----''], Inr ''IMG'', fs1, sp) \<and> files fs1 \<noteq> []"
proof -
  obtain fs1 sp where m: "leftysay_main wrap_greedy (demo_env\<lparr>chafa_path := ''/usr/bin/chafa''\<rparr>) lefty_cli
      default_config None ''hi'' ''packs/lefty/images/cat.PNG'' fresh_cache =
      (['' ____'', ''< hi >'', '' ----''], Inr ''IMG'', fs1, sp)" "files fs1 \<noteq> []"
    using demo_lefty_main by blast
  have c: "resolve_message first_gen first_ent seeded_cli [lefty_pack] default_config (cli_seed seeded_cli) = Inr ''hi''"
    "resolve_image first_gen first_ent seeded_cli [lefty_pack] default_config (cli_seed seeded_cli) =
       Inr ''packs/lefty/images/cat.PNG''"
    by (simp_all add: resolve_message_def resolve_image_def find_pack_def chosen_pack_def pick_index_def)
  have "leftysay_run first_gen first_ent first_ent wrap_greedy show_ratio lin_host demo_env seeded_cli
      No_Config_File None fresh_cache = (['' ____'', ''< hi >'', '' ----''], Inr ''IMG'', fs1, sp)"
    using leftysay_run_main [OF demo_host_facts(5) demo_main_facts(1) demo_host_facts(2) _ demo_host_facts(1) _
        c leftysay_main_seed [THEN trans, OF m(1)]] by simp
  with m(2) show ?thesis by blast
qed

theorem run_renders_pack_image_witness:
  "\<exists>cfg packs pk img. load_config No_Config_File = Inr cfg \<and> scan_packs (search_bases lin_host) = Inr packs \<and>
     find_pack packs (chosen_pack lefty_cli cfg) = Some pk \<and> img \<in> set (images pk) \<and> is_supported_image img \<and>
     (\<exists>c r f co a. hd (snd (snd (snd (leftysay_run first_gen first_ent first_ent wrap_greedy show_ratio lin_host
        demo_env lefty_cli No_Config_File None fresh_cache)))) = chafa_args img c r f co a)"
proof -
  obtain fs1 sp where r: "leftysay_run first_gen first_ent first_ent wrap_greedy show_ratio lin_host demo_env
      lefty_cli No_Config_File None fresh_cache = (['' ____'', ''< hi >'', '' ----''], Inr ''IMG'', fs1, sp)"
    and sp: "sp \<noteq> []"
    using demo_lefty_run by blast
  show ?thesis using run_renders_pack_image [OF first_rng_ok _ r sp] r by simp
qed

theorem find_chafa_first_on_path_witness: "find_chafa lin_host = Inr ''/usr/bin/chafa''"
proof -
  have "\<exists>i<length [''/bin'', ''/usr/bin/'']. ''/usr/bin/chafa'' = path_join ([''/bin'', ''/usr/bin/''] ! i) ''chafa'' \<and>
          ''/usr/bin/chafa'' = ''/usr/bin/chafa'' \<and>
          (\<forall>j<i. path_join ([''/bin'', ''/usr/bin/''] ! j) ''chafa'' \<noteq> ''/usr/bin/chafa'')"
    by (rule exI [of _ 1]) (simp add: path_join_def less_Suc_eq)
  then show ?thesis
    using find_chafa_first_on_path [of lin_host "[''/bin'', ''/usr/bin/'']" "''/usr/bin/chafa''"]
    by (simp add: chafa_candidate_def)
qed

theorem packs_dir_shadows_witness:
  "scan_packs (search_bases lin_host) = Inr [lefty_pack] \<and> find_pack [lefty_pack] ''lefty'' =
     Some \<lparr>meta = lefty_meta, images = collect_images (found_images lefty_found ''images''),
           messages = read_messages (found_messages lefty_found)\<rparr>"
proof -
  have "collect_images (found_images lefty_found ''images'') \<noteq> []" by code_simp
  then have "find_pack [lefty_pack] (pack_name lefty_meta) =
     Some \<lparr>meta = lefty_meta, images = collect_images (found_images lefty_found (images_dir lefty_meta)),
           messages = read_messages (found_messages lefty_found)\<rparr>"
    by (intro packs_dir_shadows [where h = lin_host and d = "''/tmp/p''" and rest = "[]" and packs = "[lefty_pack]"])
       (simp_all add: demo_host_facts)
  then show ?thesis using demo_host_facts(1) by simp
qed

theorem run_needs_chafa_witness:
  "leftysay_run first_gen first_ent first_ent wrap_greedy show_ratio no_chafa_host demo_env
     (no_options\<lparr>cli_doctor := True\<rparr>) No_Config_File None fresh_cache =
   ([], Inl (Chafa_Missing (''leftysay requires chafa. '' @ install_hint Linux)), fresh_cache, [])"
  by (rule run_needs_chafa [OF demo_host_facts(5) demo_main_facts(1) demo_host_facts(4)])

end
