(* ===== verification/Cli_Parse.thy ===== *)
theory Cli_Parse
  imports Config_File Main_Run Complex_Main
begin

text \<open>
  The command line (\<^verbatim>\<open>src/main.rs\<close>: \<open>struct Cli\<close> with
  \<open>#[derive(Parser)]\<close>, read by \<open>Cli::parse()\<close> in \<open>main\<close>). The parser is
  the one clap 4 derives for \<open>Cli\<close>: every field is a long option named after
  the field in kebab case; the \<open>bool\<close> fields are flags
  (\<open>ArgAction::SetTrue\<close>), the others take one value, given as the next argument
  or after \<open>=\<close>. A value that looks like an option (it begins with \<open>-\<close> and is
  not \<open>-\<close> itself) is not taken as a value; an argument given twice, a flag
  given a value, an unknown option and any positional argument (also after
  \<open>--\<close>) are usage errors, and so is a value its parser rejects. \<open>--help\<close>
  and \<open>-h\<close> print the help, \<open>--version\<close> and \<open>-V\<close> the version, when
  clap reaches them. Values are parsed as their field types: \<open>--seed\<close> by
  \<open>u64::from_str\<close>, \<open>--max-height-ratio\<close> by \<open>f32::from_str\<close> (the decimal
  rounded to the nearest \<open>f32\<close>, ties to even), \<open>--format\<close> and
  \<open>--colors\<close> by the \<open>ValueEnum\<close> names (the variant in kebab case and the
  \<open>#[value(alias)]\<close>es, which are the serde names of \<open>Config_File\<close>).
  Arguments are strings; the UTF-8 check on \<open>String\<close> values is not modelled.
\<close>

section \<open>Numbers\<close>

text \<open>\<open>u64::from_str\<close>: an optional \<open>+\<close>, then decimal digits, below 2^64.\<close>

definition parse_u64 :: "string \<Rightarrow> u64 option" where
  "parse_u64 s =
     (let body = (if s \<noteq> [] \<and> hd s = CHR ''+'' then tl s else s)
      in case parse_dec body of
           Some n \<Rightarrow> (if n < 2 ^ 64 then Some (of_nat n) else None)
         | None \<Rightarrow> None)"

text \<open>The \<open>f32\<close> nearest to \<open>\<plusminus>p / q\<close> (\<open>q > 0\<close>), ties to even: the
  exponent puts the quotient in [2^23, 2^24), or is the least exponent -149;
  zero is \<open>Finite 0 (-149)\<close> (the sign of zero is not kept).\<close>

definition scaled_quot :: "nat \<Rightarrow> nat \<Rightarrow> int \<Rightarrow> nat \<times> nat" where
  "scaled_quot p q e = (if e \<le> 0 then (p * 2 ^ nat (- e), q) else (p, q * 2 ^ nat e))"

text \<open>\<open>n / d\<close> rounded to the nearest natural number, ties to even.\<close>

definition round_div :: "nat \<Rightarrow> nat \<Rightarrow> nat" where
  "round_div n d =
     (let m0 = n div d; r = n mod d
      in if d < 2 * r \<or> (2 * r = d \<and> odd m0) then m0 + 1 else m0)"

definition f32_round_ratio :: "bool \<Rightarrow> nat \<Rightarrow> nat \<Rightarrow> f32" where
  "f32_round_ratio neg p q =
     (if p = 0 then Finite 0 (- 149)
      else
        let e0 = int (nbits p) - int (nbits q) - 24;
            e1 = (if 2 ^ 24 \<le> (case scaled_quot p q e0 of (n, d) \<Rightarrow> n div d) then e0 + 1 else e0);
            e = max e1 (- 149);
            m = (case scaled_quot p q e of (n, d) \<Rightarrow> round_div n d)
        in if 0 \<le> e \<and> 2 ^ 128 \<le> m * 2 ^ nat e then Infinity neg
           else Finite (if neg then - int m else int m) e)"

definition is_digit :: "char \<Rightarrow> bool" where
  "is_digit c = (digit_val c \<noteq> None)"

text \<open>\<open>f32::from_str\<close>: an optional sign, then \<open>inf\<close>, \<open>infinity\<close> or \<open>nan\<close>
  in any case, or digits with an optional fraction (at least one digit in all)
  and an optional exponent \<open>e\<close>/\<open>E\<close> with an optional sign and at least one
  digit.\<close>

definition parse_exp :: "string \<Rightarrow> int option" where
  "parse_exp s =
     (case s of
        [] \<Rightarrow> None
      | c # cs \<Rightarrow>
          if c = CHR ''-'' then map_option (\<lambda>n. - int n) (parse_dec cs)
          else if c = CHR ''+'' then map_option int (parse_dec cs)
          else map_option int (parse_dec s))"

definition parse_f32_body :: "bool \<Rightarrow> string \<Rightarrow> f32 option" where
  "parse_f32_body neg body =
     (let low = map ascii_lower body
      in if low = ''inf'' \<or> low = ''infinity'' then Some (Infinity neg)
         else if low = ''nan'' then Some NaN
         else
           let int_part = takeWhile is_digit body;
               r1 = dropWhile is_digit body;
               frac = (if r1 \<noteq> [] \<and> hd r1 = CHR ''.'' then takeWhile is_digit (tl r1) else []);
               r2 = (if r1 \<noteq> [] \<and> hd r1 = CHR ''.'' then dropWhile is_digit (tl r1) else r1);
               ex = (if r2 = [] then Some 0
                     else if hd r2 = CHR ''e'' \<or> hd r2 = CHR ''E'' then parse_exp (tl r2) else None)
           in case (parse_dec (int_part @ frac), ex) of
                (Some d, Some x) \<Rightarrow>
                  let k = x - int (length frac)
                  in Some (if 0 \<le> k then f32_round_ratio neg (d * 10 ^ nat k) 1
                           else f32_round_ratio neg d (10 ^ nat (- k)))
              | _ \<Rightarrow> None)"

definition parse_f32 :: "string \<Rightarrow> f32 option" where
  "parse_f32 s =
     (if s \<noteq> [] \<and> hd s = CHR ''-'' then parse_f32_body True (tl s)
      else if s \<noteq> [] \<and> hd s = CHR ''+'' then parse_f32_body False (tl s)
      else parse_f32_body False s)"

section \<open>The arguments of Cli\<close>

definition flag_names :: "string list" where
  "flag_names = [''list'', ''doctor'', ''no-bubble'', ''animate'']"

definition value_names :: "string list" where
  "value_names = [''text'', ''image'', ''pack'', ''seed'', ''format'', ''colors'', ''max-height-ratio'']"

definition set_flag :: "string \<Rightarrow> cli \<Rightarrow> cli" where
  "set_flag n c =
     (if n = ''list'' then c\<lparr>cli_list := True\<rparr>
      else if n = ''doctor'' then c\<lparr>cli_doctor := True\<rparr>
      else if n = ''no-bubble'' then c\<lparr>cli_no_bubble := True\<rparr>
      else c\<lparr>cli_animate := True\<rparr>)"

definition set_value :: "string \<Rightarrow> string \<Rightarrow> cli \<Rightarrow> cli option" where
  "set_value n v c =
     (if n = ''text'' then Some (c\<lparr>cli_text := Some v\<rparr>)
      else if n = ''image'' then Some (c\<lparr>cli_image := Some v\<rparr>)
      else if n = ''pack'' then Some (c\<lparr>cli_pack := Some v\<rparr>)
      else if n = ''seed'' then map_option (\<lambda>x. c\<lparr>cli_seed := Some x\<rparr>) (parse_u64 v)
      else if n = ''format'' then map_option (\<lambda>x. c\<lparr>cli_format := Some x\<rparr>) (map_of format_names v)
      else if n = ''colors'' then map_option (\<lambda>x. c\<lparr>cli_colors := Some x\<rparr>) (map_of colors_names v)
      else map_option (\<lambda>x. c\<lparr>cli_max_height_ratio := Some x\<rparr>) (parse_f32 v))"

section \<open>Parsing the arguments\<close>

text \<open>A long option \<open>--name\<close> or \<open>--name=value\<close>; a short option cluster
  \<open>-xyz\<close>; anything else that begins with \<open>-\<close> (except \<open>-\<close> itself) also looks
  like an option.\<close>

definition is_long :: "string \<Rightarrow> bool" where
  "is_long t = (2 < length t \<and> take 2 t = ''--'')"

definition split_long :: "string \<Rightarrow> string \<times> string option" where
  "split_long t =
     (let b = drop 2 t
      in if CHR ''='' \<in> set b then (takeWhile (\<lambda>c. c \<noteq> CHR ''='') b, Some (tl (dropWhile (\<lambda>c. c \<noteq> CHR ''='') b)))
         else (b, None))"

definition flag_like :: "string \<Rightarrow> bool" where
  "flag_like t = (2 \<le> length t \<and> hd t = CHR ''-'')"

datatype cli_outcome = Show_Help | Show_Version | Usage_Error | Run cli

fun parse_tokens :: "string list \<Rightarrow> cli \<Rightarrow> string list \<Rightarrow> cli_outcome" where
  "parse_tokens [] c seen = Run c"
| "parse_tokens (t # ts) c seen =
     (if t = ''--'' then (if ts = [] then Run c else Usage_Error)
      else if is_long t then
        (case split_long t of
           (n, inline) \<Rightarrow>
             if n = ''help'' then (if inline = None then Show_Help else Usage_Error)
             else if n = ''version'' then (if inline = None then Show_Version else Usage_Error)
             else if n \<in> set flag_names then
               (if inline \<noteq> None \<or> n \<in> set seen then Usage_Error else parse_tokens ts (set_flag n c) (n # seen))
             else if n \<in> set value_names \<and> n \<notin> set seen then
               (case inline of
                  Some v \<Rightarrow> (case set_value n v c of None \<Rightarrow> Usage_Error | Some c' \<Rightarrow> parse_tokens ts c' (n # seen))
                | None \<Rightarrow>
                    (case ts of
                       [] \<Rightarrow> Usage_Error
                     | v # ts' \<Rightarrow>
                         if flag_like v then Usage_Error
                         else (case set_value n v c of None \<Rightarrow> Usage_Error | Some c' \<Rightarrow> parse_tokens ts' c' (n # seen))))
             else Usage_Error)
      else if flag_like t then
        (if t ! 1 = CHR ''h'' then Show_Help else if t ! 1 = CHR ''V'' then Show_Version else Usage_Error)
      else Usage_Error)"

text \<open>\<open>Cli::parse()\<close> on the arguments after the program name.\<close>

definition parse_cli :: "string list \<Rightarrow> cli_outcome" where
  "parse_cli args = parse_tokens args no_options []"

section \<open>The process\<close>

text \<open>\<open>main\<close> begins with \<open>Cli::parse()\<close>: on \<open>--help\<close> or
  \<open>--version\<close> clap prints the text and exits with status 0, on a usage error it
  prints the error and exits with status 2; only a parsed \<open>Cli\<close> reaches the rest
  of \<open>main\<close>, \<open>leftysay_run\<close>.\<close>

datatype process_outcome =
    Help_Printed | Version_Printed | Usage_Failed
  | Main_Returned "string list \<times> (main_error + string) \<times> cache_fs \<times> argv list"

definition leftysay_process ::
  "seeded_gen \<Rightarrow> entropy \<Rightarrow> entropy \<Rightarrow> wrapper \<Rightarrow> (f32 \<Rightarrow> string) \<Rightarrow> host \<Rightarrow> env \<Rightarrow> string list
   \<Rightarrow> config_source \<Rightarrow> (16 word \<times> 16 word) option \<Rightarrow> cache_fs \<Rightarrow> process_outcome" where
  "leftysay_process gen ent1 ent2 wrap show_f32 h e args src ts fs =
     (case parse_cli args of
        Show_Help \<Rightarrow> Help_Printed
      | Show_Version \<Rightarrow> Version_Printed
      | Usage_Error \<Rightarrow> Usage_Failed
      | Run cl \<Rightarrow> Main_Returned (leftysay_run gen ent1 ent2 wrap show_f32 h e cl src ts fs))"

section \<open>Spelling a Cli as arguments\<close>

text \<open>A normalised \<open>f32\<close>: a significand of 24 bits, or a subnormal at the
  least exponent, and no overflow; every finite value has exactly one such form,
  and it is the form \<open>f32_round_ratio\<close> returns.\<close>

definition f32_normal :: "f32 \<Rightarrow> bool" where
  "f32_normal x =
     (case x of
        Finite m e \<Rightarrow>
          (2 ^ 23 \<le> \<bar>m\<bar> \<and> \<bar>m\<bar> < 2 ^ 24 \<and> - 149 \<le> e \<or> \<bar>m\<bar> < 2 ^ 23 \<and> e = - 149) \<and>
          (0 \<le> e \<longrightarrow> \<bar>m\<bar> * 2 ^ nat e < 2 ^ 128)
      | _ \<Rightarrow> True)"

text \<open>An exact decimal spelling of an \<open>f32\<close>: \<open>m * 2^e\<close> with \<open>e < 0\<close> is
  \<open>m * 5^-e\<close> followed by \<open>e-\<close> and \<open>-e\<close>.\<close>

definition f32_arg :: "f32 \<Rightarrow> string" where
  "f32_arg x =
     (case x of
        NaN \<Rightarrow> ''NaN''
      | Infinity neg \<Rightarrow> (if neg then ''-inf'' else ''inf'')
      | Finite m e \<Rightarrow>
          (if m < 0 then ''-'' else []) @
          (if 0 \<le> e then dec_string (nat \<bar>m\<bar> * 2 ^ nat e)
           else dec_string (nat \<bar>m\<bar> * 5 ^ nat (- e)) @ ''e-'' @ dec_string (nat (- e))))"

text \<open>Every option given inline, \<open>--name\<close> or \<open>--name=value\<close>, in
  the order of the fields of \<open>Cli\<close>.\<close>

definition arg_token :: "string \<times> string option \<Rightarrow> string" where
  "arg_token opt = (case opt of (n, None) \<Rightarrow> ''--'' @ n | (n, Some v) \<Rightarrow> ''--'' @ n @ ''='' @ v)"

definition opt_piece :: "string \<Rightarrow> string option \<Rightarrow> (string \<times> string option) list" where
  "opt_piece n x = (case x of None \<Rightarrow> [] | Some v \<Rightarrow> [(n, Some v)])"

definition flag_piece :: "string \<Rightarrow> bool \<Rightarrow> (string \<times> string option) list" where
  "flag_piece n b = (if b then [(n, None)] else [])"

definition cli_opts :: "cli \<Rightarrow> (string \<times> string option) list" where
  "cli_opts c =
     concat [opt_piece ''text'' (cli_text c), opt_piece ''image'' (cli_image c), opt_piece ''pack'' (cli_pack c),
       flag_piece ''list'' (cli_list c), flag_piece ''doctor'' (cli_doctor c),
       flag_piece ''no-bubble'' (cli_no_bubble c),
       opt_piece ''seed'' (map_option (\<lambda>x. dec_string (unat x)) (cli_seed c)),
       opt_piece ''format'' (map_option format_as_arg (cli_format c)),
       opt_piece ''colors'' (map_option colors_as_arg (cli_colors c)),
       opt_piece ''max-height-ratio'' (map_option f32_arg (cli_max_height_ratio c)),
       flag_piece ''animate'' (cli_animate c)]"

definition cli_argv :: "cli \<Rightarrow> string list" where
  "cli_argv c = map arg_token (cli_opts c)"

text \<open>The options of a list applied in turn, as the parser does on success.\<close>

fun apply_opts :: "(string \<times> string option) list \<Rightarrow> cli \<Rightarrow> cli_outcome" where
  "apply_opts [] c = Run c"
| "apply_opts ((n, None) # os) c = apply_opts os (set_flag n c)"
| "apply_opts ((n, Some v) # os) c = (case set_value n v c of None \<Rightarrow> Usage_Error | Some c' \<Rightarrow> apply_opts os c')"

definition opt_ok :: "string \<times> string option \<Rightarrow> bool" where
  "opt_ok opt = (case opt of (n, None) \<Rightarrow> n \<in> set flag_names | (n, Some v) \<Rightarrow> n \<in> set value_names)"

text \<open>The names of the long options among the arguments.\<close>

definition long_names :: "string list \<Rightarrow> string list" where
  "long_names ts = map (\<lambda>t. fst (split_long t)) (filter is_long ts)"

section \<open>Rounding a decimal\<close>

lemma two_powi_less_iff: "(2::real) powi m < 2 powi n \<longleftrightarrow> m < n"
proof
  assume "2 powi m < (2::real) powi n"
  then show "m < n" using power_int_increasing [of n m "2::real"] by (cases "m < n") auto
qed (simp add: power_int_strict_increasing)

lemma real_pow2_powi: "real (2 ^ k) = (2::real) powi int k"
  by (simp add: power_int_of_nat)

lemma nbits_pos_bounds:
  assumes "0 < n"
  shows "(2::real) powi (int (nbits n) - 1) \<le> real n \<and> real n < 2 powi int (nbits n)"
proof -
  have pos: "0 < nbits n" using assms nbits_le_iff [of n 0] by simp
  then have "\<not> nbits n \<le> nbits n - 1" by simp
  then have "2 ^ (nbits n - 1) \<le> n" using nbits_le_iff [of n "nbits n - 1"] by simp
  then have "real (2 ^ (nbits n - 1)) \<le> real n" by (simp only: of_nat_le_iff)
  moreover have "int (nbits n - 1) = int (nbits n) - 1" using pos by simp
  ultimately have "(2::real) powi (int (nbits n) - 1) \<le> real n" by (simp only: real_pow2_powi)
  moreover have "real n < real (2 ^ nbits n)" using less_pow_nbits [of n] by (simp only: of_nat_less_iff)
  ultimately show ?thesis by (simp only: real_pow2_powi)
qed

lemma scaled_quot_real:
  assumes "scaled_quot p q e = (n, d)"
  shows "real n * real q * 2 powi e = real p * real d"
proof (cases "e \<le> 0")
  case True
  then have "e = - int (nat (- e))" by simp
  then have "(2::real) powi e * 2 ^ nat (- e) = 1"
    by (metis power_int_minus power_int_of_nat left_inverse power_not_zero zero_neq_numeral)
  then show ?thesis using True assms by (auto simp: scaled_quot_def algebra_simps)
next
  case False
  then have "(2::real) powi e = 2 ^ nat e" by (simp add: power_int_of_nat [symmetric])
  then show ?thesis using False assms by (auto simp: scaled_quot_def)
qed

lemma two_powi_add: "(2::real) powi (x + y) = 2 powi x * 2 powi y"
  by (simp add: power_int_add)

lemma ratio_exp_upper:
  assumes q: "0 < q" and p: "0 < p" and H: "real p = real a * real q * 2 powi e" and a: "a < 2 ^ k"
  shows "int (nbits p) \<le> int k + int (nbits q) + e"
proof -
  have "real a < 2 powi int k" using a by (simp only: real_pow2_powi [symmetric] of_nat_less_iff)
  moreover have "real q < 2 powi int (nbits q)" using nbits_pos_bounds [OF q] by simp
  ultimately have "real a * real q < 2 powi int k * 2 powi int (nbits q)"
    by (intro mult_strict_mono) auto
  then have "real p < 2 powi int k * 2 powi int (nbits q) * 2 powi e"
    unfolding H by (intro mult_strict_right_mono) auto
  then have "real p < 2 powi (int k + int (nbits q) + e)" by (simp only: two_powi_add)
  moreover have "(2::real) powi (int (nbits p) - 1) \<le> real p" using nbits_pos_bounds [OF p] by simp
  ultimately have "(2::real) powi (int (nbits p) - 1) < 2 powi (int k + int (nbits q) + e)" by simp
  then show ?thesis by (simp only: two_powi_less_iff)
qed

lemma ratio_exp_lower:
  assumes q: "0 < q" and H: "real p = real a * real q * 2 powi e" and a: "2 ^ k \<le> a"
  shows "int k + int (nbits q) + e - 1 < int (nbits p)"
proof -
  have a': "2 powi int k \<le> real a" using a by (simp only: real_pow2_powi [symmetric] of_nat_le_iff)
  have "2 powi (int (nbits q) - 1) \<le> real q" using nbits_pos_bounds [OF q] by simp
  with a' have "2 powi int k * 2 powi (int (nbits q) - 1) \<le> real a * real q"
    by (intro mult_mono) auto
  then have "2 powi int k * 2 powi (int (nbits q) - 1) * 2 powi e \<le> real p"
    unfolding H by (intro mult_right_mono) auto
  then have "2 powi (int k + int (nbits q) + e - 1) \<le> real p" by (simp only: two_powi_add [symmetric] algebra_simps)
  moreover have "0 < p" using a H q by (cases "p = 0") (auto simp: power_int_not_zero)
  then have "real p < 2 powi int (nbits p)" using nbits_pos_bounds by blast
  ultimately have "(2::real) powi (int k + int (nbits q) + e - 1) < 2 powi int (nbits p)"
    by (rule order_le_less_trans)
  then show ?thesis by (simp only: two_powi_less_iff)
qed

lemma scaled_quot_exact:
  assumes q: "0 < q" and H: "real p = real a * real q * 2 powi e" and le: "e' \<le> e"
    and sq: "scaled_quot p q e' = (n, d)"
  shows "n = a * 2 ^ nat (e - e') * d \<and> 0 < d"
proof
  have "real n * real q * 2 powi e' = real a * real q * 2 powi e * real d"
    using scaled_quot_real [OF sq] H by simp
  also have "\<dots> = real a * real q * (2 powi (e - e') * 2 powi e') * real d"
    by (simp only: two_powi_add [symmetric]) simp
  finally have "real n = real a * 2 powi (e - e') * real d"
    using q by (simp add: power_int_not_zero)
  also have "(2::real) powi (e - e') = 2 powi int (nat (e - e'))" using le by simp
  also have "\<dots> = real (2 ^ nat (e - e'))" by (simp only: real_pow2_powi)
  finally show "n = a * 2 ^ nat (e - e') * d" by (simp only: of_nat_mult [symmetric] of_nat_eq_iff)
  show "0 < d" using sq q by (auto simp: scaled_quot_def split: if_splits)
qed

lemma round_div_exact: "0 < d \<Longrightarrow> round_div (a * d) d = a"
  by (simp add: round_div_def Let_def)

lemma f32_round_ratio_exact:
  assumes q: "0 < q" and H: "real p = real a * real q * 2 powi e"
    and norm: "2 ^ 23 \<le> a \<and> a < 2 ^ 24 \<and> - 149 \<le> e \<or> a < 2 ^ 23 \<and> e = - 149"
    and ovf: "0 \<le> e \<Longrightarrow> a * 2 ^ nat e < 2 ^ 128"
  shows "f32_round_ratio neg p q = Finite (if neg then - int a else int a) e"
proof (cases "a = 0")
  case True
  then have "p = 0" using H by simp
  moreover have "e = - 149" using norm True by auto
  ultimately show ?thesis using True by (simp add: f32_round_ratio_def)
next
  case False
  then have p: "0 < p" using H q by (cases "p = 0") (auto simp: power_int_not_zero)
  define e0 where "e0 = int (nbits p) - int (nbits q) - 24"
  define e1 where "e1 = (if 2 ^ 24 \<le> (case scaled_quot p q e0 of (n, d) \<Rightarrow> n div d) then e0 + 1 else e0)"
  have quot: "(case scaled_quot p q e' of (n, d) \<Rightarrow> n div d) = a * 2 ^ nat (e - e')" if "e' \<le> e" for e'
    using scaled_quot_exact [OF q H that] by (cases "scaled_quot p q e'") auto
  have "a < 2 ^ 24" using norm by auto
  then have e0_le: "e0 \<le> e" using ratio_exp_upper [OF q p H, of 24] by (simp add: e0_def)
  have e: "max e1 (- 149) = e"
  proof (cases "2 ^ 23 \<le> a")
    case True
    then have big: "a < 2 ^ 24" "- 149 \<le> e" using norm by auto
    have "e - 1 \<le> e0" using ratio_exp_lower [OF q H True] by (simp add: e0_def)
    then consider "e0 = e" | "e0 = e - 1" using e0_le by linarith
    then have "e1 = e"
    proof cases
      case 1
      then show ?thesis using quot [of e0] big by (simp add: e1_def)
    next
      case 2
      then have "nat (e - e0) = 1" by simp
      then show ?thesis using quot [of e0] True 2 by (simp add: e1_def)
    qed
    then show ?thesis using big by simp
  next
    case False
    then have sub: "a < 2 ^ 23" "e = - 149" using norm by auto
    have "e0 \<le> e - 1" using ratio_exp_upper [OF q p H, of 23] sub by (simp add: e0_def)
    then have "e1 \<le> e" by (simp add: e1_def)
    then show ?thesis using sub by simp
  qed
  have m: "(case scaled_quot p q e of (n, d) \<Rightarrow> round_div n d) = a"
    using scaled_quot_exact [OF q H order_refl, of _ _] round_div_exact
    by (cases "scaled_quot p q e") simp
  have "\<not> (0 \<le> e \<and> 2 ^ 128 \<le> a * 2 ^ nat e)" using ovf by auto
  then show ?thesis using p
    unfolding f32_round_ratio_def Let_def e0_def [symmetric] e1_def [symmetric] e m by simp
qed

lemma is_digit_digit_char: "d < 10 \<Longrightarrow> is_digit (digit_char d)"
  by (simp add: is_digit_def digit_val_digit_char)

lemma dec_string_all_digits: "\<forall>c\<in>set (dec_string n). is_digit c"
  using dec_string_digits is_digit_digit_char by blast

lemma takeWhile_dec_string: "takeWhile is_digit (dec_string n @ rest) = dec_string n @ takeWhile is_digit rest"
  by (simp add: takeWhile_append2 dec_string_all_digits)

lemma dropWhile_dec_string: "dropWhile is_digit (dec_string n @ rest) = dropWhile is_digit rest"
  by (simp add: dropWhile_append2 dec_string_all_digits)

lemma hd_dec_string_digit: "is_digit (hd (dec_string n))"
  using dec_string_all_digits [of n] dec_string_nonempty [of n] by simp

lemma ascii_lower_digit: "is_digit c \<Longrightarrow> ascii_lower c = c"
  by (auto simp: is_digit_def digit_val_def ascii_lower_def Let_def split: if_splits)

lemma not_digit_letters: "\<not> is_digit (CHR ''i'') \<and> \<not> is_digit (CHR ''n'') \<and> \<not> is_digit (CHR ''e'')"
  by (simp_all add: is_digit_def digit_val_def)

lemma dec_string_not_word:
  "map ascii_lower (dec_string n @ rest) \<noteq> ''inf'' \<and> map ascii_lower (dec_string n @ rest) \<noteq> ''infinity'' \<and>
   map ascii_lower (dec_string n @ rest) \<noteq> ''nan''"
proof -
  obtain c cs where dc: "dec_string n = c # cs" using dec_string_nonempty [of n] by (cases "dec_string n") auto
  then have "is_digit c" using hd_dec_string_digit [of n] by simp
  then have "ascii_lower c = c" by (rule ascii_lower_digit)
  then have hd: "map ascii_lower (dec_string n @ rest) = c # map ascii_lower (cs @ rest)" using dc by simp
  have "c \<noteq> CHR ''i'' \<and> c \<noteq> CHR ''n''" using \<open>is_digit c\<close> not_digit_letters by blast
  then show ?thesis unfolding hd by simp
qed

lemma takeWhile_dec_string_all [simp]: "takeWhile is_digit (dec_string n) = dec_string n"
  by (simp add: takeWhile_eq_all_conv dec_string_all_digits)

lemma dropWhile_dec_string_all [simp]: "dropWhile is_digit (dec_string n) = []"
  by (simp add: dropWhile_eq_Nil_conv dec_string_all_digits)

lemma parse_f32_signed:
  assumes "body \<noteq> []" "is_digit (hd body)"
  shows "parse_f32 ((if neg then ''-'' else []) @ body) = parse_f32_body neg body"
proof -
  have "hd body \<noteq> CHR ''-'' \<and> hd body \<noteq> CHR ''+''" using assms(2) by (auto simp: is_digit_def digit_val_def)
  then show ?thesis using assms(1) by (cases neg) (auto simp: parse_f32_def)
qed

lemma parse_f32_body_nat: "parse_f32_body neg (dec_string n) = Some (f32_round_ratio neg n 1)"
  using dec_string_not_word [of n "[]"] by (simp add: parse_f32_body_def Let_def)

lemma parse_exp_neg: "parse_exp (CHR ''-'' # dec_string k) = Some (- int k)"
  by (simp add: parse_exp_def)

lemma parse_f32_body_exp:
  "parse_f32_body neg (dec_string n @ CHR ''e'' # CHR ''-'' # dec_string k) =
     Some (if k = 0 then f32_round_ratio neg n 1 else f32_round_ratio neg n (10 ^ k))"
  using dec_string_not_word [of n "''e-'' @ dec_string k"] not_digit_letters
  by (simp add: parse_f32_body_def Let_def takeWhile_dec_string dropWhile_dec_string parse_exp_neg)

lemma parse_nan_arg: "parse_f32 (f32_arg NaN) = Some NaN"
  and parse_neg_inf_arg: "parse_f32 (f32_arg (Infinity True)) = Some (Infinity True)"
  and parse_inf_arg: "parse_f32 (f32_arg (Infinity False)) = Some (Infinity False)"
  by code_simp+

lemma powi_neg_nat: "e < 0 \<Longrightarrow> real (10 ^ nat (- e)) * (2::real) powi e = real (5 ^ nat (- e))"
proof -
  assume "e < 0"
  then have "e = - int (nat (- e))" by simp
  then have "(2::real) powi e = inverse (2 ^ nat (- e))" by (metis power_int_minus power_int_of_nat)
  then have h: "(2::real) powi e * 2 ^ nat (- e) = 1" by simp
  have "(10::real) ^ nat (- e) = 5 ^ nat (- e) * 2 ^ nat (- e)" by (simp add: power_mult_distrib [symmetric])
  then have "real (10 ^ nat (- e)) * 2 powi e = 5 ^ nat (- e) * ((2::real) powi e * 2 ^ nat (- e))"
    by (simp add: algebra_simps)
  then show ?thesis using h by simp
qed

lemma parse_f32_arg_finite:
  assumes "f32_normal (Finite m e)"
  shows "parse_f32 (f32_arg (Finite m e)) = Some (Finite m e)"
proof -
  define a where "a = nat \<bar>m\<bar>"
  have norm: "2 ^ 23 \<le> a \<and> a < 2 ^ 24 \<and> - 149 \<le> e \<or> a < 2 ^ 23 \<and> e = - 149"
    using assms by (auto simp: f32_normal_def a_def nat_less_iff le_nat_iff)
  have ovf: "a * 2 ^ nat e < 2 ^ 128" if "0 \<le> e"
  proof -
    have "\<bar>m\<bar> * 2 ^ nat e < 2 ^ 128" using assms that by (simp add: f32_normal_def)
    moreover have "int (a * 2 ^ nat e) = \<bar>m\<bar> * 2 ^ nat e" by (simp add: a_def)
    ultimately have "int (a * 2 ^ nat e) < int (2 ^ 128)" by simp
    then show ?thesis by (simp only: of_nat_less_iff)
  qed
  have m: "Finite (if m < 0 then - int a else int a) e = Finite m e" by (simp add: a_def)
  show ?thesis
  proof (cases "0 \<le> e")
    case True
    have "real (a * 2 ^ nat e) = real a * real 1 * 2 powi e"
      using True by (simp add: power_int_of_nat [symmetric])
    then have "f32_round_ratio (m < 0) (a * 2 ^ nat e) 1 = Finite m e"
      using f32_round_ratio_exact [of 1 "a * 2 ^ nat e" a e "m < 0"] norm ovf m by simp
    then show ?thesis using True
      by (simp add: f32_arg_def parse_f32_signed hd_dec_string_digit parse_f32_body_nat a_def)
  next
    case False
    define k where "k = nat (- e)"
    have k: "0 < k" using False by (simp add: k_def)
    have "real (a * 5 ^ k) = real a * real (10 ^ k) * 2 powi e"
      using powi_neg_nat [of e] False by (simp add: k_def)
    then have "f32_round_ratio (m < 0) (a * 5 ^ k) (10 ^ k) = Finite m e"
      using f32_round_ratio_exact [of "10 ^ k" "a * 5 ^ k" a e "m < 0"] norm m False by simp
    then show ?thesis using False k
      by (simp add: f32_arg_def parse_f32_signed hd_dec_string_digit parse_f32_body_exp a_def k_def [symmetric])
  qed
qed

lemma parse_f32_arg: "f32_normal x \<Longrightarrow> parse_f32 (f32_arg x) = Some x"
proof (cases x)
  case (Infinity b)
  then show ?thesis using parse_nan_arg parse_neg_inf_arg parse_inf_arg by (cases b) simp_all
qed (simp_all add: parse_f32_arg_finite parse_nan_arg parse_neg_inf_arg parse_inf_arg)

section \<open>Parsing the spelled arguments\<close>

lemma arg_token_simps [simp]:
  "arg_token (n, None) = CHR ''-'' # CHR ''-'' # n"
  "arg_token (n, Some v) = CHR ''-'' # CHR ''-'' # n @ CHR ''='' # v"
  by (simp_all add: arg_token_def)

lemma split_at_eq:
  "CHR ''='' \<notin> set n \<Longrightarrow>
     takeWhile (\<lambda>c. c \<noteq> CHR ''='') (n @ CHR ''='' # v) = n \<and> tl (dropWhile (\<lambda>c. c \<noteq> CHR ''='') (n @ CHR ''='' # v)) = v"
  by (induction n) auto

lemma split_long_name:
  assumes "CHR ''='' \<notin> set n"
  shows split_long_flag: "split_long (CHR ''-'' # CHR ''-'' # n) = (n, None)"
    and split_long_inline: "split_long (CHR ''-'' # CHR ''-'' # n @ CHR ''='' # v) = (n, Some v)"
  using assms split_at_eq [OF assms, of v] by (simp_all add: split_long_def Let_def)

lemma option_names_shape:
  assumes "n \<in> set flag_names \<or> n \<in> set value_names"
  shows "CHR ''='' \<notin> set n \<and> n \<noteq> [] \<and> n \<noteq> ''help'' \<and> n \<noteq> ''version'' \<and>
         (n \<in> set flag_names \<longleftrightarrow> n \<notin> set value_names)"
  using assms by (auto simp: flag_names_def value_names_def)

lemma is_long_name: "n \<noteq> [] \<Longrightarrow> is_long (CHR ''-'' # CHR ''-'' # n @ rest)"
  by (simp add: is_long_def)

lemma parse_tokens_opts:
  assumes "distinct (map fst os)" "set (map fst os) \<inter> set seen = {}" "\<forall>opt\<in>set os. opt_ok opt"
  shows "parse_tokens (map arg_token os) c seen = apply_opts os c"
  using assms
proof (induction os arbitrary: c seen)
  case (Cons opt os)
  obtain n v where opt: "opt = (n, v)" by (cases opt)
  have shape: "CHR ''='' \<notin> set n \<and> n \<noteq> [] \<and> n \<noteq> ''help'' \<and> n \<noteq> ''version'' \<and>
         (n \<in> set flag_names \<longleftrightarrow> n \<notin> set value_names)"
    using Cons.prems(3) opt by (intro option_names_shape) (auto simp: opt_ok_def split: option.splits)
  have seen: "n \<notin> set seen" using Cons.prems(2) opt by auto
  have rest: "distinct (map fst os)" "set (map fst os) \<inter> set (n # seen) = {}" "\<forall>opt\<in>set os. opt_ok opt"
    using Cons.prems opt by auto
  show ?case
  proof (cases v)
    case None
    then have "n \<in> set flag_names" using Cons.prems(3) opt by (simp add: opt_ok_def)
    then show ?thesis using None opt shape seen Cons.IH [OF rest]
      using is_long_name [of n "[]"] by (simp add: split_long_flag split_long_inline)
  next
    case (Some w)
    then have "n \<in> set value_names" using Cons.prems(3) opt by (simp add: opt_ok_def)
    then show ?thesis using Some opt shape seen Cons.IH [OF rest] is_long_name [of n]
      by (auto simp: split_long_flag split_long_inline split: option.split)
  qed
qed simp

lemma distinct_pieces:
  assumes "distinct ns" "list_all2 (\<lambda>n p. p = [] \<or> map fst p = [n]) ns ps"
  shows "distinct (map fst (concat ps)) \<and> set (map fst (concat ps)) \<subseteq> set ns"
  using assms(2,1)
proof (induction rule: list_all2_induct)
  case (Cons n ns p ps)
  then have IH: "distinct (map fst (concat ps))" "set (map fst (concat ps)) \<subseteq> set ns" and "n \<notin> set ns"
    by auto
  then show ?case using Cons.hyps(1) by (auto simp del: set_map simp add: set_map [symmetric])
qed simp

lemma opt_piece_names: "opt_piece n x = [] \<or> map fst (opt_piece n x) = [n]"
  and flag_piece_names: "flag_piece n b = [] \<or> map fst (flag_piece n b) = [n]"
  by (auto simp: opt_piece_def flag_piece_def split: option.split)

lemma cli_opts_distinct: "distinct (map fst (cli_opts c))"
  unfolding cli_opts_def
  by (rule conjunct1 [OF distinct_pieces [of "[''text'', ''image'', ''pack'', ''list'', ''doctor'', ''no-bubble'',
        ''seed'', ''format'', ''colors'', ''max-height-ratio'', ''animate'']"]])
     (simp_all add: opt_piece_names flag_piece_names)

lemma opt_piece_ok: "n \<in> set value_names \<Longrightarrow> \<forall>opt\<in>set (opt_piece n x). opt_ok opt"
  and flag_piece_ok: "n \<in> set flag_names \<Longrightarrow> \<forall>opt\<in>set (flag_piece n b). opt_ok opt"
  by (auto simp: opt_piece_def flag_piece_def opt_ok_def split: option.split)

lemma cli_opts_ok: "\<forall>opt\<in>set (cli_opts c). opt_ok opt"
  unfolding cli_opts_def set_concat
  by (simp only: ball_Un set_simps ball_empty Union_insert Union_empty Un_empty_right image_insert image_empty)
     (intro conjI opt_piece_ok flag_piece_ok; simp add: value_names_def flag_names_def)

lemma parse_u64_dec_string: "parse_u64 (dec_string n) = (if n < 2 ^ 64 then Some (of_nat n) else None)"
proof -
  have "hd (dec_string n) \<noteq> CHR ''+''"
    using hd_dec_string_digit [of n] by (auto simp: is_digit_def digit_val_def)
  then show ?thesis by (simp add: parse_u64_def)
qed

lemma parse_u64_unat: "parse_u64 (dec_string (unat x)) = Some x"
  using unsigned_less [of x] by (simp add: parse_u64_dec_string)

lemma map_of_format_as_arg: "map_of format_names (format_as_arg f) = Some f"
  by (cases f) (simp_all add: format_names_def)

lemma map_of_colors_as_arg: "map_of colors_names (colors_as_arg k) = Some k"
  by (cases k) (simp_all add: colors_names_def)

lemma apply_opts_append:
  "apply_opts (xs @ ys) c =
     (case apply_opts xs c of Run c' \<Rightarrow> apply_opts ys c' | Show_Help \<Rightarrow> Show_Help
      | Show_Version \<Rightarrow> Show_Version | Usage_Error \<Rightarrow> Usage_Error)"
  by (induction xs c rule: apply_opts.induct) (simp_all split: option.split)

lemma apply_text: "cli_text c = None \<Longrightarrow> apply_opts (opt_piece ''text'' x1) c = Run (c\<lparr>cli_text := x1\<rparr>)"
  and apply_image: "cli_image c = None \<Longrightarrow> apply_opts (opt_piece ''image'' x2) c = Run (c\<lparr>cli_image := x2\<rparr>)"
  and apply_pack: "cli_pack c = None \<Longrightarrow> apply_opts (opt_piece ''pack'' x3) c = Run (c\<lparr>cli_pack := x3\<rparr>)"
  and apply_list: "\<not> cli_list c \<Longrightarrow> apply_opts (flag_piece ''list'' b1) c = Run (c\<lparr>cli_list := b1\<rparr>)"
  and apply_doctor: "\<not> cli_doctor c \<Longrightarrow> apply_opts (flag_piece ''doctor'' b2) c = Run (c\<lparr>cli_doctor := b2\<rparr>)"
  and apply_no_bubble: "\<not> cli_no_bubble c \<Longrightarrow> apply_opts (flag_piece ''no-bubble'' b3) c = Run (c\<lparr>cli_no_bubble := b3\<rparr>)"
  and apply_seed: "cli_seed c = None \<Longrightarrow>
     apply_opts (opt_piece ''seed'' (map_option (\<lambda>x. dec_string (unat x)) s)) c = Run (c\<lparr>cli_seed := s\<rparr>)"
  and apply_format: "cli_format c = None \<Longrightarrow>
     apply_opts (opt_piece ''format'' (map_option format_as_arg f)) c = Run (c\<lparr>cli_format := f\<rparr>)"
  and apply_colors: "cli_colors c = None \<Longrightarrow>
     apply_opts (opt_piece ''colors'' (map_option colors_as_arg k)) c = Run (c\<lparr>cli_colors := k\<rparr>)"
  and apply_ratio: "pred_option f32_normal r \<Longrightarrow> cli_max_height_ratio c = None \<Longrightarrow>
     apply_opts (opt_piece ''max-height-ratio'' (map_option f32_arg r)) c = Run (c\<lparr>cli_max_height_ratio := r\<rparr>)"
  and apply_animate: "\<not> cli_animate c \<Longrightarrow> apply_opts (flag_piece ''animate'' b4) c = Run (c\<lparr>cli_animate := b4\<rparr>)"
  by (auto simp: opt_piece_def flag_piece_def set_value_def set_flag_def parse_u64_unat map_of_format_as_arg
      map_of_colors_as_arg parse_f32_arg split: option.split intro: cli.equality)

lemma apply_cli_opts:
  assumes "pred_option f32_normal (cli_max_height_ratio c)"
  shows "apply_opts (cli_opts c) no_options = Run c"
  using assms by (simp add: cli_opts_def apply_opts_append apply_text apply_image apply_pack apply_list
        apply_doctor apply_no_bubble apply_seed apply_format apply_colors apply_ratio apply_animate)

section \<open>A successful parse names each option once\<close>

lemma flag_like_long: "is_long t \<Longrightarrow> flag_like t"
  by (cases t) (auto simp: is_long_def flag_like_def)

lemma parse_tokens_Cons_Run:
  assumes "parse_tokens (t # ts) c seen = Run c'"
  shows "t = ''--'' \<and> ts = [] \<and> c' = c \<or>
         is_long t \<and> fst (split_long t) \<notin> set seen \<and>
         (\<exists>c'' rest. parse_tokens rest c'' (fst (split_long t) # seen) = Run c' \<and>
                    (c'' = set_flag (fst (split_long t)) c \<or> (\<exists>v. set_value (fst (split_long t)) v c = Some c'')) \<and>
                    (rest = ts \<or> (\<exists>v. ts = v # rest \<and> \<not> flag_like v)))"
proof (cases "split_long t")
  case (Pair n inline)
  show ?thesis
  proof (cases "t = ''--''")
    case True
    then show ?thesis using assms by (simp split: if_splits)
  next
    case False
    then have long: "is_long t" using assms by (auto split: if_splits)
    have seen: "n \<notin> set seen" using assms False long Pair by (auto split: if_splits)
    have "\<exists>c'' rest. parse_tokens rest c'' (n # seen) = Run c' \<and>
        (c'' = set_flag n c \<or> (\<exists>v. set_value n v c = Some c'')) \<and> (rest = ts \<or> (\<exists>v. ts = v # rest \<and> \<not> flag_like v))"
      using assms False long Pair by (auto split: if_splits option.splits list.splits)
    then show ?thesis using long seen Pair by simp
  qed
qed

lemma parse_tokens_Run_distinct:
  "parse_tokens ts c seen = Run c' \<Longrightarrow> distinct (long_names ts) \<and> set (long_names ts) \<inter> set seen = {}"
proof (induction "length ts" arbitrary: ts c seen rule: less_induct)
  case less
  show ?case
  proof (cases ts)
    case (Cons t ts1)
    from parse_tokens_Cons_Run [OF less.prems [unfolded Cons]] show ?thesis
    proof
      assume "t = ''--'' \<and> ts1 = [] \<and> c' = c"
      then show ?thesis using Cons by (simp add: long_names_def is_long_def)
    next
      assume "is_long t \<and> fst (split_long t) \<notin> set seen \<and>
         (\<exists>c'' rest. parse_tokens rest c'' (fst (split_long t) # seen) = Run c' \<and>
                    (c'' = set_flag (fst (split_long t)) c \<or> (\<exists>v. set_value (fst (split_long t)) v c = Some c'')) \<and>
                    (rest = ts1 \<or> (\<exists>v. ts1 = v # rest \<and> \<not> flag_like v)))"
      then obtain c'' rest where long: "is_long t" and seen: "fst (split_long t) \<notin> set seen"
        and run: "parse_tokens rest c'' (fst (split_long t) # seen) = Run c'"
        and rest: "rest = ts1 \<or> (\<exists>v. ts1 = v # rest \<and> \<not> flag_like v)" by blast
      have "length rest < length ts" using rest Cons by auto
      then have IH: "distinct (long_names rest) \<and> set (long_names rest) \<inter> set (fst (split_long t) # seen) = {}"
        using less.hyps run by blast
      have "long_names ts1 = long_names rest" using rest flag_like_long by (auto simp: long_names_def)
      then have "long_names ts = fst (split_long t) # long_names rest" using Cons long by (simp add: long_names_def)
      then show ?thesis using IH seen by auto
    qed
  qed (simp add: long_names_def)
qed

section \<open>Properties of the command line\<close>

text \<open>C17: the command line spells every Cli: the arguments cli_argv c, every
  field given inline by its clap name, the seed in decimal, format and colors by
  the names as_arg gives them and the ratio as an exact decimal, parse back to c
  itself; so every value of Cli the rest of the model takes is reachable from the
  command line.\<close>

theorem cli_roundtrip:
  assumes "pred_option f32_normal (cli_max_height_ratio c)"
  shows "parse_cli (cli_argv c) = Run c"
  using parse_tokens_opts [where os="cli_opts c" and seen="[]" and c=no_options] cli_opts_distinct [of c]
    cli_opts_ok [of c] apply_cli_opts [OF assms]
  by (simp add: parse_cli_def cli_argv_def)

text \<open>C21: an option that is given twice makes clap stop before main continues:
  whatever else the arguments hold, the process prints the help or the version,
  or fails with a usage error; it reads no configuration and never runs chafa.\<close>

theorem process_rejects_repeated_option:
  assumes "\<not> distinct (long_names args)"
  shows "leftysay_process gen ent1 ent2 wrap show_f32 h e args src ts fs \<in> {Help_Printed, Version_Printed, Usage_Failed}"
proof -
  have "parse_cli args \<noteq> Run c" for c
    using parse_tokens_Run_distinct [of args no_options "[]" c] assms by (auto simp: parse_cli_def)
  then show ?thesis by (cases "parse_cli args") (auto simp: leftysay_process_def)
qed

section \<open>Witnesses\<close>

theorem cli_roundtrip_witness:
  "pred_option f32_normal (cli_max_height_ratio (seeded_cli\<lparr>cli_max_height_ratio := Some ratio_07\<rparr>)) \<and>
   parse_cli (cli_argv (seeded_cli\<lparr>cli_max_height_ratio := Some ratio_07\<rparr>)) =
     Run (seeded_cli\<lparr>cli_max_height_ratio := Some ratio_07\<rparr>)"
  using cli_roundtrip [of "seeded_cli\<lparr>cli_max_height_ratio := Some ratio_07\<rparr>"] by (simp add: f32_normal_def)

theorem process_rejects_repeated_option_witness:
  "\<not> distinct (long_names [''--list'', ''--list'']) \<and>
   leftysay_process first_gen first_ent first_ent wrap_greedy show_ratio lin_host missing_image_env
     [''--list'', ''--list''] No_Config_File None fresh_cache \<in> {Help_Printed, Version_Printed, Usage_Failed}"
  using process_rejects_repeated_option [of "[''--list'', ''--list'']" first_gen first_ent first_ent wrap_greedy
      show_ratio lin_host missing_image_env No_Config_File None fresh_cache]
  by (simp add: long_names_def is_long_def split_long_def)

end
