(* ===== verification/Spec2Isabelle.thy ===== *)
theory Spec2Isabelle
  imports Prelude Cache_Store Renderer Cache_Key Pipeline Bubble Row_Budget Screen Config_File Packs Main_Run Cli_Parse
begin

text \<open>
  \<^bold>\<open>leftysay\<close> (\<^verbatim>\<open>src/main.rs\<close>) prints a speech bubble with a message
  and below it an image that the external program chafa renders as terminal
  text. Rendered images are kept in a disk cache addressed by a BLAKE3 hash of
  the request. This development models, as executable HOL functions, the parts
  of the program that decide what is printed, what is cached and which
  processes are spawned, and proves their properties.

  \<^bold>\<open>How the parts interact.\<close> \<open>main\<close> parses the command line
  (\<open>Cli::parse()\<close>), loads the configuration, finds
  chafa, reads the terminal size, answers \<open>--doctor\<close> and \<open>--list\<close>
  (Diagnostics), scans the pack search paths and picks the message and the image
  (Pack discovery), lays out the bubble (BubbleLayout), computes the image height
  (RowBudget) and calls \<open>render_image\<close> (RenderPipeline). \<open>render_image\<close>
  derives the cache key (CacheKey), looks the key up in the cache directory
  (CacheStore), and on a miss runs chafa with one fallback retry
  (RendererInvoker), stores the output and evicts the oldest entries beyond the
  size budget (CacheStore).

  \<^bold>\<open>Theories.\<close>
  \<^item> \<open>Prelude\<close>: machine types (\<open>byte\<close>, \<open>u64\<close>, \<open>usize\<close> as words),
    Rust's \<open>?\<close> as \<open>rbind\<close> on \<open>'e + 'a\<close>, and shared lemmas on suffixes,
    sums over sublists and sorted lists.
  \<^item> \<open>Cache_Store\<close>: the cache directory as a record \<open>cache_fs\<close> (entries
    in \<open>read_dir\<close> order, permission flags, a clock for modification times);
    the file-system calls of the code (\<open>write_file\<close>, \<open>create_dir_all\<close>,
    \<open>remove_file\<close>, \<open>read_to_string\<close>) returning \<open>io_error + _\<close>; the cache
    branches of \<open>render_image\<close> (\<open>cache_lookup\<close> with its touch,
    \<open>cache_store\<close>) and \<open>enforce_cache_limit\<close> with its loop \<open>evict\<close>.
    Lemmas: the invariant \<open>cache_inv\<close> (distinct names, sizes match contents,
    times before the clock) is kept by every operation; eviction leaves the total
    within the budget unless nothing left can be removed, removes exactly the
    shortest prefix of the entries sorted by age (refinement of an LRU
    specification), and keeps a just-stored entry that fits; store then lookup
    returns the payload; a hit touches the entry.
  \<^item> \<open>Renderer\<close>: \<open>ChafaFormat\<close>/\<open>ChafaColors\<close> and their arguments, the
    argument vector of chafa (\<open>chafa_args\<close>), \<open>run_chafa_once\<close> and
    \<open>run_chafa\<close>. The process is a parameter \<open>runner\<close> (\<open>None\<close>: it could
    not be spawned); \<open>run_chafa\<close> returns the argument vectors it spawned.
    Lemmas: it refines a generic try-in-order loop, retries exactly once with
    symbols/full colors when a setting was automatic, never otherwise, reports
    the retry's error, spawns once or twice; the \<open>--size\<close> argument reads back.
  \<^item> \<open>Cache_Key\<close>: the bytes fed to the hasher (\<open>key_input\<close>: path, mtime
    in whole seconds, cols and rows as little-endian u64, format and colors
    arguments, animate byte), the hex digest and the cache file name. BLAKE3 is
    a parameter \<open>hasher\<close> applied to the concatenated input. Lemmas: the input
    is injective in every field; for a collision-free hasher equal keys mean
    equal requests; the file name determines the digest.
  \<^item> \<open>Pipeline\<close>: \<open>render_image\<close> composed from the above, with the
    environment (runner, chafa path, hasher, image metadata) as a record.
    Lemmas: a second identical render hits the cache without spawning chafa; a
    render keeps the cache invariant; error and uncached branches; the byte
    budget \<open>cache_max_mb * 1024 * 1024\<close> is exact below 2^44 MB and wraps
    above.
  \<^item> \<open>Bubble\<close>: \<open>render_bubble\<close> and \<open>pad_line\<close> over UTF-8 byte strings.
    \<open>textwrap::wrap\<close> is a parameter with the contracts \<open>wrap_within\<close> and
    \<open>wrap_nonempty\<close>, met by the first-fit wrapper \<open>wrap_greedy\<close>. Lemmas:
    shape and width of the bubble, content of each line, the narrow-terminal
    case, and the misalignment of multi-byte text.
  \<^item> \<open>Row_Budget\<close>: the image height of \<open>main\<close> with the \<open>f32\<close>
    arithmetic of the code modelled exactly (round to nearest even on 24-bit
    significands, subnormals, infinities, NaN, saturating \<open>as usize\<close>), and the
    ratio validation of \<open>load_config\<close>. Lemmas: bounds and fit of the image
    height, the cap never exceeds the height, products are well-formed floats,
    the examples of the specification, NaN and command-line ratios.
  \<^item> \<open>Screen\<close>: \<open>Cli\<close>, \<open>Config\<close>, \<open>Config::default\<close>, the outcomes of
    \<open>load_config\<close>, \<open>terminal_dimensions\<close>, and \<open>leftysay_main\<close>, the body
    of \<open>main\<close> from the merging of options to the printed image.
  \<^item> \<open>Config_File\<close>: how \<open>load_config\<close> reads \<open>config.toml\<close>: the
    document as its table of typed TOML values, the deserializer that
    \<open>#[derive(Deserialize)]\<close> with \<open>#[serde(default)]\<close> generates for
    \<open>Config\<close> (\<open>de_config\<close>, one \<open>set_field\<close> per key in document order,
    starting from \<open>Config::default()\<close>), the serde names and aliases of
    \<open>ChafaFormat\<close>/\<open>ChafaColors\<close>, and \<open>f64 as f32\<close> for the ratio.
    \<open>config_source_of\<close> maps the outcome onto the \<open>config_source\<close> of
    \<open>Screen\<close>. Lemmas: a configuration written with the \<open>as_arg\<close> names reads
    back; unknown keys are ignored; a bad value fails \<open>load_config\<close>.
  \<^item> \<open>Packs\<close>: \<open>PackMeta\<close>, \<open>Pack\<close>, \<open>scan_packs\<close> (its loop is
    \<open>scan_found\<close> over the \<open>pack.toml\<close> files in walk order, each with the
    outcome of \<open>read_pack_meta\<close>), \<open>collect_images\<close> and
    \<open>is_supported_image\<close> (with \<open>Path::extension\<close>), \<open>read_messages\<close> (with
    \<open>str::lines\<close> and \<open>str::trim\<close> on UTF-8 bytes), \<open>pick_index\<close>,
    \<open>resolve_message\<close> and \<open>resolve_image\<close>. The random generator is a
    parameter (\<open>gen\<close> seeded, \<open>ent\<close> unseeded) with the contract \<open>rng_ok\<close>.
    Lemmas: the scanned packs have distinct names, images and supported
    extensions; a bad \<open>pack.toml\<close> aborts the scan; \<open>resolve_image\<close>
    refines the choice of an image from the pack (\<open>image_choices\<close>), every
    image being reachable; the cases of the message; a seed pairs message k
    with image k.
  \<^item> \<open>Main_Run\<close>: the host (environment variables, project directories,
    existence tests, the walks of the search paths), \<open>find_chafa\<close>,
    \<open>pack_search_paths\<close>, \<open>print_pack_list\<close>, \<open>print_doctor\<close> and
    \<open>leftysay_run\<close>, all of \<open>main\<close>. Lemmas: without \<open>--image\<close> chafa only
    renders a supported image of the chosen pack; a bad pack aborts every run;
    chafa is the first match on \<open>PATH\<close>; \<open>LEFTYSAY_PACKS_DIR\<close> shadows the
    other search paths; \<open>--doctor\<close> and \<open>--list\<close> need chafa.
  \<^item> \<open>Cli_Parse\<close>: \<open>Cli::parse()\<close>, the parser clap 4 derives for
    \<open>struct Cli\<close> (\<open>parse_tokens\<close>: long options left to right, the
    \<open>SetTrue\<close> flags, values inline or as the next argument, a repeated
    option, an unknown option or a positional argument is a usage error,
    \<open>--help\<close>/\<open>-h\<close> and \<open>--version\<close>/\<open>-V\<close>), with the value parsers
    \<open>u64::from_str\<close>, \<open>f32::from_str\<close> (the decimal rounded exactly, by
    \<open>f32_round_ratio\<close>, to the nearest \<open>f32\<close>, ties to even) and the
    \<open>ValueEnum\<close> names; \<open>leftysay_process\<close> is the whole process from the
    argument list: clap's exits or \<open>leftysay_run\<close>. Lemmas: every \<open>Cli\<close>
    spelled as arguments (\<open>cli_argv\<close>) parses back to itself, which needs
    that the exact decimal of a normalised \<open>f32\<close> rounds to that \<open>f32\<close>
    (\<open>f32_round_ratio_exact\<close>, proved over the reals); a successful parse
    names every option once, so a repeated option never reaches \<open>main\<close>.
  \<^item> This theory: the properties of the whole program. Over \<open>leftysay_main\<close>:
    the printed bubble and the requested image fit the terminal; after one
    run that cached its image, any number of identical runs (\<open>repeat_main\<close>)
    are served from the cache without spawning chafa (\<open>main_rerun_hit\<close>).
    Over \<open>leftysay_run\<close>: with \<open>--seed\<close>, after one successful run any
    sequence of further runs (\<open>repeat_run\<close>, each with its own unseeded
    draws) prints the same and spawns no chafa;
    \<open>main_reachable\<close>, the cache directories reachable by any sequence of
    complete runs from a missing directory, all keep the store's invariant and
    the byte budget (rule induction over the runs, with \<open>leftysay_run_cache\<close>
    and \<open>render_image_budget\<close> for one run).

  \<^bold>\<open>Bounds and choices.\<close> There are no loops with fuel: every loop of the
  code runs over a finite list (the directory entries, the wrapped lines, at
  most two chafa attempts) and is structural recursion. Word widths are those of
  the code: \<open>u64\<close> for the cache budget and key fields, \<open>usize\<close> (64-bit)
  for columns and rows passed to chafa, \<open>u16\<close> for the terminal size; the
  terminal width in the bubble and the row arithmetic are \<open>nat\<close>, since the
  code only compares and uses \<open>saturating_sub\<close> there.

  \<^bold>\<open>Not modelled.\<close> The TOML syntax of \<open>config.toml\<close> and
  \<open>pack.toml\<close> (the parsed documents are inputs; the deserialization of
  \<open>Config\<close> from the document is modelled); the text of clap's help, version
  and error messages, and the UTF-8 check of \<open>String\<close> arguments (arguments
  are strings); the order of
  \<open>WalkDir\<close> walks (the walks are inputs, in the order they yield); Windows
  path syntax (paths are joined the Unix way); the \<open>Display\<close> of an \<open>f32\<close> in
  \<open>print_doctor\<close> (a parameter). Pixel rendering is chafa's, hashing BLAKE3's,
  word wrapping textwrap's and random numbers rand's: they are parameters with
  the contracts the code relies on. Concurrent use of the cache directory by
  several processes is outside the model, as in the specification.
\<close>

section \<open>Runs of the program\<close>

text \<open>The cache directories reachable from one that does not exist yet by any
  sequence of runs of leftysay (all of \<open>main\<close>) with one configuration source:
  any hosts, packs, random draws, messages, terminals, command lines, chafa
  behaviours and image metadata.\<close>

inductive main_reachable :: "config_source \<Rightarrow> cache_fs \<Rightarrow> bool" for src :: config_source where
  fresh: "\<not> dir_exists fs \<Longrightarrow> files fs = [] \<Longrightarrow> readable fs \<Longrightarrow> main_reachable src fs"
| run: "main_reachable src fs \<Longrightarrow>
        leftysay_run gen ent1 ent2 wrap show_f32 h e cl src ts fs = (shown, res, fs', sp)
        \<Longrightarrow> main_reachable src fs'"

text \<open>\<open>n\<close> consecutive runs with the same inputs: what each printed, its result and
  the chafa processes it spawned.\<close>

fun repeat_main ::
  "nat \<Rightarrow> wrapper \<Rightarrow> env \<Rightarrow> cli \<Rightarrow> config \<Rightarrow> (16 word \<times> 16 word) option \<Rightarrow> string \<Rightarrow> string
   \<Rightarrow> cache_fs \<Rightarrow> (string list \<times> (render_error + string) \<times> argv list) list" where
  "repeat_main 0 wrap e cl cfg ts message p fs = []"
| "repeat_main (Suc n) wrap e cl cfg ts message p fs =
     (case leftysay_main wrap e cl cfg ts message p fs of
        (shown, res, fs', sp) \<Rightarrow> (shown, res, sp) # repeat_main n wrap e cl cfg ts message p fs')"

text \<open>Consecutive complete runs of leftysay with the same inputs, each with its
  own pair of unseeded draws (for the message and for the image): what each
  printed, its result and the chafa processes it spawned.\<close>

fun repeat_run ::
  "(entropy \<times> entropy) list \<Rightarrow> seeded_gen \<Rightarrow> wrapper \<Rightarrow> (f32 \<Rightarrow> string) \<Rightarrow> host \<Rightarrow> env \<Rightarrow> cli
   \<Rightarrow> config_source \<Rightarrow> (16 word \<times> 16 word) option \<Rightarrow> cache_fs
   \<Rightarrow> (string list \<times> (main_error + string) \<times> argv list) list" where
  "repeat_run [] gen wrap show_f32 h e cl src ts fs = []"
| "repeat_run ((ent1, ent2) # ents) gen wrap show_f32 h e cl src ts fs =
     (case leftysay_run gen ent1 ent2 wrap show_f32 h e cl src ts fs of
        (shown, res, fs', sp) \<Rightarrow> (shown, res, sp) # repeat_run ents gen wrap show_f32 h e cl src ts fs')"

section \<open>Lemmas on repeated runs\<close>

text \<open>After a run of main's body that rendered and cached its image, some property
  of the cache directory holds that makes the next identical run a cache hit
  printing the same, spawning nothing, and keeping the property.\<close>

lemma main_rerun_hit:
  assumes "cache_inv fs" "enabled cfg" "cache cfg"
    and "leftysay_main wrap e cl cfg ts message p fs = (shown, Inr out, fs1, sp)"
    and "\<forall>x\<in>set (files fs). \<not> edir x" "writable fs" "readable fs"
    and "length out \<le> unat (max_bytes (cfg_cache_max_mb cfg))"
  shows "\<exists>H. H fs1 \<and> (\<forall>fs'. H fs' \<longrightarrow>
           (\<exists>fs''. leftysay_main wrap e cl cfg ts message p fs' = (shown, Inr out, fs'', []) \<and> H fs''))"
proof -
  obtain c r where d: "terminal_dimensions ts = (c, r)" by fastforce
  define opts where "opts = main_options cl cfg c
      (image_rows r (length (main_bubble wrap cl message c)) (main_ratio cl cfg))"
  have step: "leftysay_main wrap e cl cfg ts message p fs' =
      (case render_image e p opts fs' of (res, fs'', sp') \<Rightarrow>
         (printed_bubble (main_bubble wrap cl message c) (cli_no_bubble cl) message, res, fs'', sp'))" for fs'
    using assms(2) d by (simp add: leftysay_main_eq opts_def Let_def split: prod.splits)
  have run: "render_image e p opts fs = (Inr out, fs1, sp)"
    and sh: "shown = printed_bubble (main_bubble wrap cl message c) (cli_no_bubble cl) message"
    using assms(4) step [of fs] by (auto split: prod.splits)
  have en: "cache_enabled opts" "cache_max_mb opts = cfg_cache_max_mb cfg"
    using assms(3) by (simp_all add: opts_def main_options_def)
  from render_then_holds [OF assms(1) en(1) run assms(5-7)] assms(8) en(2) obtain key where
    k: "cache_key (digest e) (image_meta e) p (cols opts) (rows opts) (format opts) (colors opts)
          (animate opts) = Inr key" and h: "holds_entry (cache_file_name key) out fs1"
    by auto
  have "\<forall>fs'. holds_entry (cache_file_name key) out fs' \<longrightarrow>
          (\<exists>fs''. leftysay_main wrap e cl cfg ts message p fs' = (shown, Inr out, fs'', []) \<and>
                  holds_entry (cache_file_name key) out fs'')"
  proof (intro allI impI)
    fix fs'
    assume "holds_entry (cache_file_name key) out fs'"
    from render_image_holds_hit [OF en(1) k this] obtain fs2 where
      "render_image e p opts fs' = (Inr out, fs2, [])" "holds_entry (cache_file_name key) out fs2"
      by blast
    then show "\<exists>fs''. leftysay_main wrap e cl cfg ts message p fs' = (shown, Inr out, fs'', []) \<and>
                  holds_entry (cache_file_name key) out fs''"
      by (simp add: step sh)
  qed
  with h show ?thesis by blast
qed

section \<open>Properties of the whole program\<close>



text \<open>C12: across any sequence of runs that starts without a cache directory, the
  directory keeps the store's invariant, holds only files, and its total size
  stays within the configured budget: since leftysay creates no directories in
  it, eviction can always remove enough entries.\<close>

theorem main_cache_within_budget:
  assumes "load_config src = Inr cfg" "main_reachable src fs"
  shows "cache_inv fs \<and> readable fs \<and> (\<forall>x\<in>set (files fs). \<not> edir x)
         \<and> dir_total fs \<le> unat (max_bytes (cfg_cache_max_mb cfg))"
  using assms(2)
proof (induction rule: main_reachable.induct)
  case (fresh fs)
  then show ?case by (simp add: cache_inv_def dir_total_def)
next
  case (run fs gen ent1 ent2 wrap show_f32 h e cl ts shown res fs' sp)
  from leftysay_run_cache [OF run.hyps(2)] show ?case
  proof
    assume "fs' = fs"
    with run.IH show ?thesis by simp
  next
    assume "\<exists>cfg e' message p res'. load_config src = Inr cfg \<and>
              leftysay_main wrap e' cl cfg ts message p fs = (shown, res', fs', sp)"
    then obtain e' message p res' where
      "leftysay_main wrap e' cl cfg ts message p fs = (shown, res', fs', sp)"
      using assms(1) by auto
    from leftysay_main_render [OF this] show ?thesis
    proof
      assume "fs' = fs"
      with run.IH show ?thesis by simp
    next
      assume "\<exists>c r. render_image e' p (main_options cl cfg c r) fs = (res', fs', sp)"
      then obtain c r where "render_image e' p (main_options cl cfg c r) fs = (res', fs', sp)" by blast
      with run.IH render_image_budget [of fs "main_options cl cfg c r"] show ?thesis
        by (simp add: main_options_def)
    qed
  qed
qed

text \<open>The program settles: after a run that rendered an image and cached it
  (cache directory of files, readable and writable, image within the budget),
  every one of any number of further identical runs prints the same bubble and the
  same image, served from the cache, and spawns no chafa process.\<close>

theorem main_runs_settle:
  assumes "cache_inv fs" "enabled cfg" "cache cfg"
    and "leftysay_main wrap e cl cfg ts message p fs = (shown, Inr out, fs1, sp)"
    and "\<forall>x\<in>set (files fs). \<not> edir x" "writable fs" "readable fs"
    and "length out \<le> unat (max_bytes (cfg_cache_max_mb cfg))"
  shows "repeat_main n wrap e cl cfg ts message p fs1 = replicate n (shown, Inr out, [])"
proof -
  obtain H where h1: "H fs1" and hit: "\<forall>fs'. H fs' \<longrightarrow>
      (\<exists>fs''. leftysay_main wrap e cl cfg ts message p fs' = (shown, Inr out, fs'', []) \<and> H fs'')"
    using main_rerun_hit [OF assms] by blast
  from h1 show ?thesis
  proof (induction n arbitrary: fs1)
    case (Suc n)
    from hit Suc.prems obtain fs2 where
      "leftysay_main wrap e cl cfg ts message p fs1 = (shown, Inr out, fs2, [])" "H fs2"
      by blast
    with Suc.IH show ?case by simp
  qed simp
qed

lemma repeat_run_settles:
  assumes "H fs1"
    and step: "\<And>fs' e1 e2. H fs' \<Longrightarrow>
      \<exists>fs''. leftysay_run gen e1 e2 wrap show_f32 h e cl src ts fs' = (shown, Inr out, fs'', []) \<and> H fs''"
  shows "repeat_run ents gen wrap show_f32 h e cl src ts fs1 = map (\<lambda>_. (shown, Inr out, [])) ents"
  using assms(1)
proof (induction ents arbitrary: fs1)
  case (Cons ee ents)
  obtain e1 e2 where ee: "ee = (e1, e2)" by fastforce
  from step [OF Cons.prems, of e1 e2] obtain fs2 where
    "leftysay_run gen e1 e2 wrap show_f32 h e cl src ts fs1 = (shown, Inr out, fs2, [])" "H fs2"
    by blast
  with Cons.IH show ?case by (simp add: ee)
qed simp

lemma run_main_Inr:
  assumes run: "\<And>fs0. leftysay_run gen ent1 ent2 wrap show_f32 h e cl src ts fs0 =
      (case leftysay_main wrap e' cl cfg ts message p fs0 of
         (out0, r, fs1, sp1) \<Rightarrow> (out0, map_sum Render_Failed id r, fs1, sp1))"
    and "leftysay_run gen ent1 ent2 wrap show_f32 h e cl src ts fs = (shown, Inr out, fs1, sp)"
  shows "leftysay_main wrap e' cl cfg ts message p fs = (shown, Inr out, fs1, sp)"
proof -
  obtain out0 r fs2 sp2 where m: "leftysay_main wrap e' cl cfg ts message p fs = (out0, r, fs2, sp2)"
    by (cases "leftysay_main wrap e' cl cfg ts message p fs") blast
  with assms(2) run [of fs] have "out0 = shown" "map_sum Render_Failed id r = Inr out" "fs2 = fs1" "sp2 = sp"
    by simp_all
  then show ?thesis using m by (cases r) simp_all
qed

lemma repeat_run_via_main:
  assumes indep: "\<And>e1 e2 fs0. leftysay_run gen e1 e2 wrap show_f32 h e cl src ts fs0 =
                   leftysay_run gen ent1 ent2 wrap show_f32 h e cl src ts fs0"
    and run: "\<And>fs0. leftysay_run gen ent1 ent2 wrap show_f32 h e cl src ts fs0 =
      (case leftysay_main wrap e' cl cfg ts message p fs0 of
         (out0, r, fs1, sp1) \<Rightarrow> (out0, map_sum Render_Failed id r, fs1, sp1))"
    and "H fs1"
    and hit: "\<forall>fs'. H fs' \<longrightarrow>
      (\<exists>fs''. leftysay_main wrap e' cl cfg ts message p fs' = (shown, Inr out, fs'', []) \<and> H fs'')"
  shows "repeat_run ents gen wrap show_f32 h e cl src ts fs1 = map (\<lambda>_. (shown, Inr out, [])) ents"
proof (rule repeat_run_settles [where H = H, OF \<open>H fs1\<close>])
  fix fs' e1 e2
  assume "H fs'"
  with hit obtain fs'' where
    "leftysay_main wrap e' cl cfg ts message p fs' = (shown, Inr out, fs'', [])" "H fs''"
    by blast
  then show "\<exists>fs''. leftysay_run gen e1 e2 wrap show_f32 h e cl src ts fs' = (shown, Inr out, fs'', []) \<and> H fs''"
    using indep [of e1 e2 fs'] run [of fs'] by auto
qed

text \<open>C20: with --seed, leftysay settles for good: after a complete run that
  succeeded (cache directory of files, readable and writable, image within the
  budget), every one of any sequence of further runs with the same inputs prints
  the same and returns the same image text, served from the cache, without
  spawning chafa, whatever the unseeded draws of those runs are.\<close>

theorem main_seeded_runs_settle:
  assumes "cli_seed cl = Some s" "load_config src = Inr cfg" "cache cfg"
    and "leftysay_run gen ent1 ent2 wrap show_f32 h e cl src ts fs = (shown, Inr out, fs1, sp)"
    and "cache_inv fs" "\<forall>x\<in>set (files fs). \<not> edir x" "writable fs" "readable fs"
    and "length out \<le> unat (max_bytes (cfg_cache_max_mb cfg))"
  shows "repeat_run ents gen wrap show_f32 h e cl src ts fs1 = map (\<lambda>_. (shown, Inr out, [])) ents"
proof -
  have indep: "leftysay_run gen e1 e2 wrap show_f32 h e cl src ts fs0 =
                 leftysay_run gen ent1 ent2 wrap show_f32 h e cl src ts fs0" for e1 e2 fs0
    by (rule leftysay_run_seed_indep [OF assms(1)])
  from leftysay_run_cases [OF assms(4)] show ?thesis
  proof
    assume "fs1 = fs \<and> sp = [] \<and>
      (\<forall>fs0. leftysay_run gen ent1 ent2 wrap show_f32 h e cl src ts fs0 = (shown, Inr out, fs0, []))"
    then have early: "leftysay_run gen ent1 ent2 wrap show_f32 h e cl src ts fs0 = (shown, Inr out, fs0, [])"
      for fs0 by blast
    show ?thesis
    proof (rule repeat_run_settles [where H = "\<lambda>_. True"])
      fix fs' e1 e2
      show "\<exists>fs''. leftysay_run gen e1 e2 wrap show_f32 h e cl src ts fs' = (shown, Inr out, fs'', []) \<and> True"
        using indep [of e1 e2 fs'] early [of fs'] by simp
    qed simp
  next
    assume "\<exists>cfg e' message p. load_config src = Inr cfg \<and> enabled cfg \<and>
      (\<forall>fs0. leftysay_run gen ent1 ent2 wrap show_f32 h e cl src ts fs0 =
         (case leftysay_main wrap e' cl cfg ts message p fs0 of
            (out0, r, fs1, sp1) \<Rightarrow> (out0, map_sum Render_Failed id r, fs1, sp1)))"
    then obtain e' message p where en: "enabled cfg" and run:
      "\<And>fs0. leftysay_run gen ent1 ent2 wrap show_f32 h e cl src ts fs0 =
         (case leftysay_main wrap e' cl cfg ts message p fs0 of
            (out0, r, fs1, sp1) \<Rightarrow> (out0, map_sum Render_Failed id r, fs1, sp1))"
      using assms(2) by auto
    have "leftysay_main wrap e' cl cfg ts message p fs = (shown, Inr out, fs1, sp)"
      by (rule run_main_Inr [OF run assms(4)])
    from main_rerun_hit [OF assms(5) en assms(3) this assms(6-9)] obtain H where
      "H fs1" "\<forall>fs'. H fs' \<longrightarrow>
        (\<exists>fs''. leftysay_main wrap e' cl cfg ts message p fs' = (shown, Inr out, fs'', []) \<and> H fs'')"
      by blast
    then show ?thesis by (rule repeat_run_via_main [OF indep run])
  qed
qed

section \<open>Witnesses\<close>


theorem main_cache_within_budget_witness:
  "\<exists>fs1 sp.
     leftysay_run first_gen first_ent first_ent wrap_greedy show_ratio lin_host demo_env lefty_cli
       No_Config_File None fresh_cache = (['' ____'', ''< hi >'', '' ----''], Inr ''IMG'', fs1, sp)
     \<and> files fs1 \<noteq> [] \<and> dir_total fs1 \<le> unat (max_bytes 64)"
proof -
  obtain fs1 sp where r: "leftysay_run first_gen first_ent first_ent wrap_greedy show_ratio lin_host demo_env
      lefty_cli No_Config_File None fresh_cache = (['' ____'', ''< hi >'', '' ----''], Inr ''IMG'', fs1, sp)"
    and ne: "files fs1 \<noteq> []"
    using demo_lefty_run by blast
  have reach: "main_reachable No_Config_File fs1"
    by (rule main_reachable.run [OF main_reachable.fresh r]) (simp_all add: demo_cache_def)
  from main_cache_within_budget [OF demo_host_facts(5) reach] r ne show ?thesis
    by (auto simp: default_config_def DEFAULT_CACHE_MAX_MB_def)
qed

theorem main_runs_settle_witness:
  "\<exists>fs1 sp.
     leftysay_main wrap_greedy demo_env no_options default_config None ''Hello'' ''cat.png'' demo_cache
       = (['' _______'', ''< Hello >'', '' -------''], Inr ''IMG'', fs1, sp) \<and>
     repeat_main 3 wrap_greedy demo_env no_options default_config None ''Hello'' ''cat.png'' fs1
       = replicate 3 (['' _______'', ''< Hello >'', '' -------''], Inr ''IMG'', [])"
proof -
  obtain fs1 sp where r: "leftysay_main wrap_greedy demo_env no_options default_config None ''Hello''
      ''cat.png'' demo_cache = (['' _______'', ''< Hello >'', '' -------''], Inr ''IMG'', fs1, sp)"
    using demo_main_first by blast
  have "length ''IMG'' \<le> unat (max_bytes (cfg_cache_max_mb default_config))"
    by (simp add: default_config_def DEFAULT_CACHE_MAX_MB_def max_bytes_def)
  from main_runs_settle [OF demo_cache_inv demo_main_facts(1,2) r demo_cache_facts(1-3) this] r
  show ?thesis by blast
qed

theorem main_seeded_runs_settle_witness:
  "\<exists>fs1 sp.
     leftysay_run first_gen first_ent first_ent wrap_greedy show_ratio lin_host demo_env seeded_cli
       No_Config_File None fresh_cache = (['' ____'', ''< hi >'', '' ----''], Inr ''IMG'', fs1, sp) \<and>
     repeat_run [(first_ent, first_ent), (\<lambda>n. n - 1, \<lambda>n. n - 1)] first_gen wrap_greedy show_ratio lin_host demo_env
       seeded_cli No_Config_File None fs1 =
       [(['' ____'', ''< hi >'', '' ----''], Inr ''IMG'', []), (['' ____'', ''< hi >'', '' ----''], Inr ''IMG'', [])]"
proof -
  obtain fs1 sp where r: "leftysay_run first_gen first_ent first_ent wrap_greedy show_ratio lin_host demo_env
      seeded_cli No_Config_File None fresh_cache = (['' ____'', ''< hi >'', '' ----''], Inr ''IMG'', fs1, sp)"
    using demo_seeded_run by blast
  have f: "cache_inv fresh_cache" "writable fresh_cache" "readable fresh_cache"
    "length ''IMG'' \<le> unat (max_bytes (cfg_cache_max_mb default_config))"
    by (simp_all add: cache_inv_def demo_cache_def default_config_def DEFAULT_CACHE_MAX_MB_def max_bytes_def)
  have "repeat_run [(first_ent, first_ent), (\<lambda>n. n - 1, \<lambda>n. n - 1)] first_gen wrap_greedy show_ratio lin_host
      demo_env seeded_cli No_Config_File None fs1 =
      map (\<lambda>_. (['' ____'', ''< hi >'', '' ----''], Inr ''IMG'', [])) [(first_ent, first_ent), (\<lambda>n. n - 1, \<lambda>n. n - 1)]"
    by (rule main_seeded_runs_settle [OF _ demo_host_facts(5) demo_main_facts(2) r f(1) _ f(2-4)]) simp_all
  with r show ?thesis by (simp only: list.map) blast
qed

end
